theory Spec2Isabelle
  imports Main
begin

text \<open>
  A model of \<^verbatim>\<open>src/main.ts\<close>, which turns a Swagger document into a Postman
  environment and a Postman collection: the values and the operations of the language
  that the program uses, the functions of the program under their own names
  (\<open>hasTypeProperty\<close>, \<open>generateFakeData\<close>, \<open>createEnvironment\<close>, \<open>createCollection\<close>,
  \<open>saveToFile\<close>, \<open>main\<close>), and the properties of the specification proved or refuted
  on them. An error thrown is a value \<open>Inl e\<close>; the random generator is a state passed
  along.
\<close>

section \<open>Values of the program\<close>

text \<open>
  The program of \<^verbatim>\<open>src/main.ts\<close> works on values typed \<^verbatim>\<open>any\<close>: what
  \<^verbatim>\<open>JSON.parse\<close> returns, and the object literals it builds from them. They are
  modelled by one datatype. \<open>JUndefined\<close> is the value a missing property reads
  as; it is not a JSON value, and an object literal such as \<^verbatim>\<open>{ body: body }\<close>
  can hold it. An object is the list of its own properties in enumeration order,
  with distinct keys (the model does not move keys that are array indices to the
  front, as the language does). Numbers are the integers (the only numbers the
  program makes come from \<^verbatim>\<open>faker.number.int()\<close>); strings are lists of 8-bit
  characters, the code units below 256.
\<close>

datatype json =
    JUndefined
  | JNull
  | JBool bool
  | JNum int
  | JStr string
  | JArr "json list"
  | JObj "(string \<times> json) list"

text \<open>
  What the program can throw: \<^verbatim>\<open>new Error(msg)\<close> of \<open>generateFakeData\<close>, the
  \<^verbatim>\<open>TypeError\<close> of the runtime (a property read on \<^verbatim>\<open>undefined\<close> or
  \<^verbatim>\<open>null\<close>, a call of something that is no function, \<^verbatim>\<open>Object.entries\<close>
  of \<^verbatim>\<open>undefined\<close>, an invalid URL), the \<^verbatim>\<open>SyntaxError\<close> of
  \<^verbatim>\<open>JSON.parse\<close>, and a failed file operation.
\<close>

datatype error =
    Error string
  | TypeError
  | SyntaxError
  | IOError string

text \<open>Truthiness: what \<^verbatim>\<open>if (v)\<close>, \<^verbatim>\<open>a && b\<close> and \<^verbatim>\<open>a || b\<close> test.\<close>

fun truthy :: "json \<Rightarrow> bool" where
  "truthy JUndefined = False"
| "truthy JNull = False"
| "truthy (JBool b) = b"
| "truthy (JNum n) = (n \<noteq> 0)"
| "truthy (JStr s) = (s \<noteq> [])"
| "truthy (JArr xs) = True"
| "truthy (JObj kvs) = True"

fun nullish :: "json \<Rightarrow> bool" where
  "nullish JUndefined = True"
| "nullish JNull = True"
| "nullish v = False"

text \<open>
  A property read \<^verbatim>\<open>v.k\<close>. It throws on \<^verbatim>\<open>undefined\<close> and \<^verbatim>\<open>null\<close>. On
  an object it is the own property, else \<^verbatim>\<open>undefined\<close>. The names the program
  reads (\<^verbatim>\<open>properties\<close>, \<^verbatim>\<open>type\<close>, \<^verbatim>\<open>items\<close>, \<^verbatim>\<open>requestBody\<close>,
  \<^verbatim>\<open>content\<close>, \<^verbatim>\<open>application/json\<close>, \<^verbatim>\<open>schema\<close>, \<^verbatim>\<open>$ref\<close>,
  \<^verbatim>\<open>parameters\<close>, \<^verbatim>\<open>in\<close>, \<^verbatim>\<open>name\<close>, \<^verbatim>\<open>description\<close>,
  \<^verbatim>\<open>summary\<close>) are on no prototype of an array, string, number or boolean, so
  there the read is \<^verbatim>\<open>undefined\<close>.
\<close>

fun get_prop :: "json \<Rightarrow> string \<Rightarrow> error + json" where
  "get_prop JUndefined k = Inl TypeError"
| "get_prop JNull k = Inl TypeError"
| "get_prop (JObj kvs) k = Inr (case map_of kvs k of None \<Rightarrow> JUndefined | Some v \<Rightarrow> v)"
| "get_prop v k = Inr JUndefined"

text \<open>Decimal digits of a natural number, as array indices print.\<close>

definition digit_char :: "nat \<Rightarrow> char" where
  "digit_char d = char_of (48 + d)"

function show_nat :: "nat \<Rightarrow> string" where
  "show_nat n = (if n < 10 then [digit_char n] else show_nat (n div 10) @ [digit_char (n mod 10)])"
  by pat_completeness auto
termination
  by (relation "measure id") auto

declare show_nat.simps [simp del]

text \<open>
  \<^verbatim>\<open>Object.entries(v)\<close>: throws on \<^verbatim>\<open>undefined\<close> and \<^verbatim>\<open>null\<close>; the own
  properties of an object; the indexed elements of an array and the indexed
  characters of a string; nothing for a number or a boolean.
\<close>

fun entries :: "json \<Rightarrow> error + (string \<times> json) list" where
  "entries JUndefined = Inl TypeError"
| "entries JNull = Inl TypeError"
| "entries (JObj kvs) = Inr kvs"
| "entries (JArr xs) = Inr (zip (map show_nat [0..<length xs]) xs)"
| "entries (JStr s) = Inr (zip (map show_nat [0..<length s]) (map (\<lambda>c. JStr [c]) s))"
| "entries v = Inr []"

text \<open>
  The assignment \<^verbatim>\<open>data[key] = v\<close> on a plain object: the value of an own
  property is replaced in place, a new property goes last. The key
  \<^verbatim>\<open>__proto__\<close> is the accessor of \<^verbatim>\<open>Object.prototype\<close>: assigning it
  creates no own property.
\<close>

fun obj_put :: "(string \<times> json) list \<Rightarrow> string \<Rightarrow> json \<Rightarrow> (string \<times> json) list" where
  "obj_put [] k v = [(k, v)]"
| "obj_put ((k', v') # kvs) k v = (if k' = k then (k, v) # kvs else (k', v') # obj_put kvs k v)"

definition obj_assign :: "(string \<times> json) list \<Rightarrow> string \<Rightarrow> json \<Rightarrow> (string \<times> json) list" where
  "obj_assign data k v = (if k = ''__proto__'' then data else obj_put data k v)"

section \<open>The faker library\<close>

text \<open>
  \<^verbatim>\<open>@faker-js/faker\<close> is a random generator outside the repository. It is a
  parameter of the model: a generator state \<open>'g\<close> and the three draws the
  program makes, each returning the value and the next state.
\<close>

record 'g faker =
  productName :: "'g \<Rightarrow> string \<times> 'g"
  number_int :: "'g \<Rightarrow> int \<times> 'g"
  random_word :: "'g \<Rightarrow> string \<times> 'g"

section \<open>The fake data generator\<close>

text \<open>\<^verbatim>\<open>hasTypeProperty(obj)\<close> is \<^verbatim>\<open>obj && obj.type\<close>, used as a condition.\<close>

definition hasTypeProperty :: "json \<Rightarrow> bool" where
  "hasTypeProperty obj =
     (truthy obj \<and> (case get_prop obj ''type'' of Inl e \<Rightarrow> False | Inr t \<Rightarrow> truthy t))"

text \<open>Reads on a value already known to be truthy, where a read cannot throw.\<close>

definition field :: "json \<Rightarrow> string \<Rightarrow> json" where
  "field v k = (case get_prop v k of Inl e \<Rightarrow> JUndefined | Inr x \<Rightarrow> x)"

text \<open>The size that decreases along the recursion of the generator.\<close>

fun jsize :: "json \<Rightarrow> nat" where
  "jsize (JArr xs) = Suc (sum_list (map jsize xs))"
| "jsize (JObj kvs) = Suc (sum_list (map (\<lambda>kv. jsize (snd kv)) kvs))"
| "jsize v = 0"

definition props_size :: "(string \<times> json) list \<Rightarrow> nat" where
  "props_size kvs = sum_list (map (\<lambda>kv. jsize (snd kv)) kvs)"

lemma props_size_simps [simp]:
  "props_size [] = 0"
  "props_size ((k, v) # kvs) = jsize v + props_size kvs"
  by (simp_all add: props_size_def)

lemma jsize_map_of: "map_of kvs k = Some v \<Longrightarrow> jsize v \<le> props_size kvs"
  by (induction kvs) (auto split: if_splits)

lemma jsize_zip: "props_size (zip ks xs) \<le> sum_list (map jsize xs)"
proof (induction xs arbitrary: ks)
  case Nil
  then show ?case by simp
next
  case (Cons x xs)
  then show ?case by (cases ks) (auto simp: le_SucI trans_le_add2)
qed

lemma jsize_zip_str: "props_size (zip ks (map (\<lambda>c. JStr [c]) s)) = 0"
proof (induction s arbitrary: ks)
  case Nil
  then show ?case by simp
next
  case (Cons c s)
  then show ?case by (cases ks) auto
qed

lemma entries_size: "entries p = Inr kvs \<Longrightarrow> props_size kvs \<le> jsize p"
proof (cases p)
  case (JArr xs)
  assume "entries p = Inr kvs"
  with JArr show ?thesis using jsize_zip [of "map show_nat [0..<length xs]" xs] by auto
next
  case (JStr s)
  assume "entries p = Inr kvs"
  with JStr show ?thesis by (auto simp: jsize_zip_str)
qed (auto simp: props_size_def)

lemma get_prop_size: "get_prop s k = Inr p \<Longrightarrow> jsize p \<le> jsize s"
proof (cases s)
  case (JObj kvs)
  assume "get_prop s k = Inr p"
  with JObj show ?thesis
    using jsize_map_of [of kvs k] by (auto simp: props_size_def split: option.splits)
qed auto

lemma get_entries_size:
  assumes "get_prop s k = Inr p" and "entries p = Inr kvs"
  shows "props_size kvs < jsize s"
proof (cases s)
  case (JObj fields)
  show ?thesis
  proof (cases "map_of fields k")
    case None
    with assms JObj show ?thesis by auto
  next
    case (Some v)
    with assms JObj have "p = v" by simp
    with Some have "jsize p \<le> props_size fields" by (simp add: jsize_map_of)
    moreover have "props_size kvs \<le> jsize p" using assms(2) by (rule entries_size)
    ultimately show ?thesis using JObj by (simp add: props_size_def)
  qed
qed (use assms in auto)

lemma field_size: "jsize (field v k) \<le> jsize v"
  by (cases "get_prop v k") (auto simp: field_def dest: get_prop_size)

text \<open>
  \<^verbatim>\<open>generateFakeData(schema)\<close>. The loop over
  \<^verbatim>\<open>Object.entries(schema.properties)\<close> is \<open>fake_props\<close>, with the object
  \<^verbatim>\<open>data\<close> built so far and the generator state. A property that fails
  \<open>hasTypeProperty\<close> throws; a type that none of the four branches takes (also
  \<^verbatim>\<open>array\<close> without truthy \<^verbatim>\<open>items\<close>) falls through the chain, which has no
  final \<^verbatim>\<open>else\<close>: nothing is stored and the loop goes on.
\<close>

function generateFakeData :: "'g faker \<Rightarrow> json \<Rightarrow> 'g \<Rightarrow> error + (json \<times> 'g)"
  and fake_props :: "'g faker \<Rightarrow> (string \<times> json) list \<Rightarrow> (string \<times> json) list \<Rightarrow> 'g
        \<Rightarrow> error + ((string \<times> json) list \<times> 'g)"
where
  "generateFakeData fk schema g =
     (case get_prop schema ''properties'' of
        Inl e \<Rightarrow> Inl e
      | Inr props \<Rightarrow>
          (case entries props of
             Inl e \<Rightarrow> Inl e
           | Inr kvs \<Rightarrow>
               (case fake_props fk kvs [] g of
                  Inl e \<Rightarrow> Inl e
                | Inr (data, g') \<Rightarrow> Inr (JObj data, g'))))"
| "fake_props fk [] data g = Inr (data, g)"
| "fake_props fk ((key, val) # rest) data g =
     (if \<not> hasTypeProperty val then Inl (Error (''Type property is missing for '' @ key))
      else if field val ''type'' = JStr ''string'' then
        (case productName fk g of (s, g') \<Rightarrow> fake_props fk rest (obj_assign data key (JStr s)) g')
      else if field val ''type'' = JStr ''integer'' then
        (case number_int fk g of (n, g') \<Rightarrow> fake_props fk rest (obj_assign data key (JNum n)) g')
      else if field val ''type'' = JStr ''array'' \<and> truthy (field val ''items'') then
        (case generateFakeData fk (field val ''items'') g of
           Inl e \<Rightarrow> Inl e
         | Inr (d, g') \<Rightarrow> fake_props fk rest (obj_assign data key (JArr [d])) g')
      else if field val ''type'' = JStr ''object'' then
        (case generateFakeData fk val g of
           Inl e \<Rightarrow> Inl e
         | Inr (d, g') \<Rightarrow> fake_props fk rest (obj_assign data key d) g')
      else fake_props fk rest data g)"
  by pat_completeness auto
termination
proof (relation "measures
    [\<lambda>x. case x of Inl (fk, schema, g) \<Rightarrow> jsize schema | Inr (fk, kvs, data, g) \<Rightarrow> props_size kvs,
     \<lambda>x. case x of Inl (fk, schema, g) \<Rightarrow> 0 | Inr (fk, kvs, data, g) \<Rightarrow> Suc (length kvs)]",
    goal_cases)
  case 1
  then show ?case by simp
next
  case (2 fk schema g props kvs)
  then show ?case by (simp add: get_entries_size)
next
  case (5 fk key val rest data g)
  then show ?case
    using field_size [of val "''items''"] by auto
qed auto

declare generateFakeData.simps [simp del]

section \<open>Strings\<close>

text \<open>
  The string operations of the program, on 8-bit characters (the code units below 256).
  \<^verbatim>\<open>toUpperCase\<close> maps each character to its capital as the Unicode tables give it:
  the letters \<^verbatim>\<open>a\<close> to \<^verbatim>\<open>z\<close> and the letters from U+00E0 to U+00FE (U+00F7, the
  division sign, is no letter) to the character 32 places before, and U+00DF, the sharp
  s, to \<^verbatim>\<open>SS\<close>. The capitals of U+00B5 and of U+00FF are U+039C and U+0178, which are no
  8-bit characters: \<open>upper_char\<close> leaves these two as they are, so \<open>toUpperCase\<close> is the
  program's on the strings that hold neither.
\<close>

definition upper_char :: "char \<Rightarrow> string" where
  "upper_char c =
     (let n = (of_char c :: nat) in
      if 97 \<le> n \<and> n \<le> 122 then [char_of (n - 32)]
      else if n = 223 then ''SS''
      else if 224 \<le> n \<and> n \<le> 254 \<and> n \<noteq> 247 then [char_of (n - 32)]
      else [c])"

definition toUpperCase :: "string \<Rightarrow> string" where
  "toUpperCase s = concat (map upper_char s)"

text \<open>
  \<^verbatim>\<open>s.split("/")\<close>: the pieces between the separators, empty pieces included; never the
  empty list. \<^verbatim>\<open>pop()\<close> takes the last piece; on an empty array it would give
  \<^verbatim>\<open>undefined\<close>, which as a property key reads \<^verbatim>\<open>"undefined"\<close>.
\<close>

fun split_on :: "char \<Rightarrow> string \<Rightarrow> string list" where
  "split_on sep [] = [[]]"
| "split_on sep (c # cs) =
     (if c = sep then [] # split_on sep cs
      else (case split_on sep cs of [] \<Rightarrow> [[c]] | w # ws \<Rightarrow> (c # w) # ws))"

definition pop_key :: "string list \<Rightarrow> string" where
  "pop_key segs = (case rev segs of [] \<Rightarrow> ''undefined'' | s # _ \<Rightarrow> s)"

text \<open>
  \<^verbatim>\<open>path.match(/{(.*?)}/g)\<close>: every match of the pattern, from left to right, each one
  starting at a \<^verbatim>\<open>{\<close> and running to the first \<^verbatim>\<open>}\<close> after it, with no line
  terminator between (the dot does not match one); the search goes on after a match,
  and at the next character where none starts. \<open>lazy_close\<close> looks for the closing
  brace and \<open>match_braces\<close> lists the matches; the program's \<^verbatim>\<open>null\<close> for no match is
  the empty list here, told apart in \<open>path_variables\<close>. \<^verbatim>\<open>v.slice(1, -1)\<close> drops the
  first and the last character.
\<close>

definition line_terminator :: "char \<Rightarrow> bool" where
  "line_terminator c = (c = CHR 0x0A \<or> c = CHR 0x0D)"

fun lazy_close :: "string \<Rightarrow> (string \<times> string) option" where
  "lazy_close [] = None"
| "lazy_close (c # cs) =
     (if c = CHR ''}'' then Some ([], cs)
      else if line_terminator c then None
      else (case lazy_close cs of None \<Rightarrow> None | Some (inner, rest) \<Rightarrow> Some (c # inner, rest)))"

lemma lazy_close_length: "lazy_close cs = Some (inner, rest) \<Longrightarrow> length rest < length cs"
  by (induction cs arbitrary: inner) (auto split: if_splits option.splits)

function match_braces :: "string \<Rightarrow> string list" where
  "match_braces [] = []"
| "match_braces (c # cs) =
     (if c = CHR ''{'' then
        (case lazy_close cs of
           None \<Rightarrow> match_braces cs
         | Some (inner, rest) \<Rightarrow> (CHR ''{'' # inner @ ''}'') # match_braces rest)
      else match_braces cs)"
  by pat_completeness auto
termination
  by (relation "measure length") (auto dest: lazy_close_length)

definition slice_inner :: "string \<Rightarrow> string" where
  "slice_inner v = butlast (tl v)"

section \<open>JSON.stringify\<close>

text \<open>
  \<^verbatim>\<open>JSON.stringify(value, null, indent)\<close> as ECMA-262 defines it on the values of the
  program: a string is quoted with the two-character escapes and \<^verbatim>\<open>\u00xx\<close> for the
  other control characters; an integer prints in decimal (as the language prints it
  below \<open>10\<^sup>2\<^sup>1\<close>); \<^verbatim>\<open>undefined\<close> prints as
  \<^verbatim>\<open>null\<close> inside an array and its property is left out of an object; with a
  non-empty \<open>gap\<close> every element and property starts a line of its own, indented one
  gap deeper, and a colon is followed by a space. \<open>ind\<close> is the current indentation.
  At the top, \<^verbatim>\<open>JSON.stringify(undefined)\<close> is \<^verbatim>\<open>undefined\<close>, not a string.
\<close>

definition hex_digit :: "nat \<Rightarrow> char" where
  "hex_digit d = (if d < 10 then char_of (48 + d) else char_of (87 + d))"

definition quote_char :: "char \<Rightarrow> string" where
  "quote_char c =
     (let n = (of_char c :: nat) in
      if n = 0x22 then [CHR 0x5C, CHR 0x22]
      else if n = 0x5C then [CHR 0x5C, CHR 0x5C]
      else if n = 8 then [CHR 0x5C, CHR ''b'']
      else if n = 9 then [CHR 0x5C, CHR ''t'']
      else if n = 10 then [CHR 0x5C, CHR ''n'']
      else if n = 12 then [CHR 0x5C, CHR ''f'']
      else if n = 13 then [CHR 0x5C, CHR ''r'']
      else if n < 0x20 then [CHR 0x5C, CHR ''u'', CHR ''0'', CHR ''0'', hex_digit (n div 16), hex_digit (n mod 16)]
      else [c])"

definition quote :: "string \<Rightarrow> string" where
  "quote s = CHR 0x22 # concat (map quote_char s) @ [CHR 0x22]"

definition show_int :: "int \<Rightarrow> string" where
  "show_int i = (if i < 0 then CHR ''-'' # show_nat (nat (- i)) else show_nat (nat i))"

fun join :: "string \<Rightarrow> string list \<Rightarrow> string" where
  "join sep [] = []"
| "join sep [p] = p"
| "join sep (p # ps) = p @ sep @ join sep ps"

definition wrap :: "string \<Rightarrow> string \<Rightarrow> char \<Rightarrow> char \<Rightarrow> string list \<Rightarrow> string" where
  "wrap gap ind opn cls parts =
     (if parts = [] then [opn, cls]
      else if gap = [] then opn # join '','' parts @ [cls]
      else opn # CHR 0x0A # (ind @ gap) @ join (CHR '','' # CHR 0x0A # (ind @ gap)) parts
             @ CHR 0x0A # ind @ [cls])"

fun ser :: "string \<Rightarrow> string \<Rightarrow> json \<Rightarrow> string"
  and ser_elems :: "string \<Rightarrow> string \<Rightarrow> json list \<Rightarrow> string list"
  and ser_props :: "string \<Rightarrow> string \<Rightarrow> (string \<times> json) list \<Rightarrow> string list"
where
  "ser gap ind JUndefined = ''null''"
| "ser gap ind JNull = ''null''"
| "ser gap ind (JBool b) = (if b then ''true'' else ''false'')"
| "ser gap ind (JNum n) = show_int n"
| "ser gap ind (JStr s) = quote s"
| "ser gap ind (JArr xs) = wrap gap ind CHR ''['' CHR '']'' (ser_elems gap (ind @ gap) xs)"
| "ser gap ind (JObj kvs) = wrap gap ind CHR ''{'' CHR ''}'' (ser_props gap (ind @ gap) kvs)"
| "ser_elems gap ind [] = []"
| "ser_elems gap ind (x # xs) = ser gap ind x # ser_elems gap ind xs"
| "ser_props gap ind [] = []"
| "ser_props gap ind ((k, v) # kvs) =
     (if v = JUndefined then ser_props gap ind kvs
      else (quote k @ CHR '':'' # (if gap = [] then [] else '' '') @ ser gap ind v)
             # ser_props gap ind kvs)"

definition JSON_stringify :: "string \<Rightarrow> json \<Rightarrow> json" where
  "JSON_stringify gap v = (if v = JUndefined then JUndefined else JStr (ser gap [] v))"

section \<open>The Swagger document\<close>

text \<open>
  The \<^verbatim>\<open>Swagger\<close> interface of the source: the servers, the operations by path and by
  method, and the schemas by name. Objects indexed by string are association lists in
  enumeration order.
\<close>

record server =
  url :: string

record components =
  schemas :: "(string \<times> json) list"

record swagger =
  servers :: "server list"
  paths :: "(string \<times> (string \<times> json) list) list"
  components :: components

section \<open>createEnvironment\<close>

text \<open>
  \<^verbatim>\<open>new URL(serverUrl).host\<close> is the platform's URL parser. It is a parameter of the
  model, \<open>url_host\<close>: the host of a string it accepts, \<open>None\<close> where the constructor
  throws its \<^verbatim>\<open>TypeError\<close>.
\<close>

definition createEnvironment :: "(string \<Rightarrow> string option) \<Rightarrow> string \<Rightarrow> error + json" where
  "createEnvironment url_host serverUrl =
     (case url_host serverUrl of
        None \<Rightarrow> Inl TypeError
      | Some h \<Rightarrow>
          Inr (JObj [(''environment'',
                 JObj [(''name'', JStr h),
                       (''values'',
                          JArr [JObj [(''key'', JStr ''base_url''),
                                      (''value'', JStr serverUrl),
                                      (''enabled'', JBool True)]])])]))"

section \<open>createCollection\<close>

text \<open>
  The callback that \<open>createCollection\<close> maps over the entries of a path, in the order
  the source evaluates it. First the optional chain
  \<^verbatim>\<open>details.requestBody?.content["application/json"]?.schema?.$ref\<close>: it is
  \<^verbatim>\<open>undefined\<close> as soon as a link before a \<^verbatim>\<open>?.\<close> is \<^verbatim>\<open>undefined\<close> or \<^verbatim>\<open>null\<close>; the
  read of \<^verbatim>\<open>["application/json"]\<close> has no \<^verbatim>\<open>?.\<close> before it and throws on a missing
  \<^verbatim>\<open>content\<close>.
\<close>

definition bodySchemaRef :: "json \<Rightarrow> error + json" where
  "bodySchemaRef details =
     (case get_prop details ''requestBody'' of
        Inl e \<Rightarrow> Inl e
      | Inr rb \<Rightarrow>
          if nullish rb then Inr JUndefined
          else (case get_prop (field rb ''content'') ''application/json'' of
                  Inl e \<Rightarrow> Inl e
                | Inr aj \<Rightarrow>
                    if nullish aj then Inr JUndefined
                    else if nullish (field aj ''schema'') then Inr JUndefined
                    else Inr (field (field aj ''schema'') ''$ref'')))"

text \<open>
  \<^verbatim>\<open>swagger.components.schemas[schemaKey]\<close>, \<^verbatim>\<open>undefined\<close> for a name that is no key.
  (A name of \<^verbatim>\<open>Object.prototype\<close> would read a value that has no \<^verbatim>\<open>properties\<close>
  either, with the same outcome in \<open>generateFakeData\<close>.) A truthy reference that is no
  string has no \<^verbatim>\<open>split\<close> to call.
\<close>

definition lookup_schema :: "swagger \<Rightarrow> string \<Rightarrow> json" where
  "lookup_schema sw schemaKey =
     (case map_of (schemas (components sw)) schemaKey of None \<Rightarrow> JUndefined | Some s \<Rightarrow> s)"

definition request_body :: "'g faker \<Rightarrow> swagger \<Rightarrow> json \<Rightarrow> 'g \<Rightarrow> error + (json \<times> 'g)" where
  "request_body fk sw details g =
     (case bodySchemaRef details of
        Inl e \<Rightarrow> Inl e
      | Inr r \<Rightarrow>
          if truthy r then
            (case r of
               JStr s \<Rightarrow>
                 (case generateFakeData fk (lookup_schema sw (pop_key (split_on CHR ''/'' s))) g of
                    Inl e \<Rightarrow> Inl e
                  | Inr (data, g') \<Rightarrow>
                      Inr (JObj [(''mode'', JStr ''raw''), (''raw'', JSON_stringify [] data)], g'))
             | _ \<Rightarrow> Inl TypeError)
          else Inr (JUndefined, g))"

text \<open>
  \<^verbatim>\<open>details.parameters?.filter(...).map(...) || []\<close>: the empty list for
  \<^verbatim>\<open>undefined\<close> and \<^verbatim>\<open>null\<close>; on an array the filter runs over all elements, then the
  map over those kept, drawing one word for each; anything else has no \<^verbatim>\<open>filter\<close> to
  call.
\<close>

fun filter_query :: "json list \<Rightarrow> error + json list" where
  "filter_query [] = Inr []"
| "filter_query (p # ps) =
     (case get_prop p ''in'' of
        Inl e \<Rightarrow> Inl e
      | Inr loc \<Rightarrow>
          (case filter_query ps of
             Inl e \<Rightarrow> Inl e
           | Inr qs \<Rightarrow> Inr (if loc = JStr ''query'' then p # qs else qs)))"

definition query_entry :: "'g faker \<Rightarrow> json \<Rightarrow> 'g \<Rightarrow> error + (json \<times> 'g)" where
  "query_entry fk param g =
     (case get_prop param ''name'' of
        Inl e \<Rightarrow> Inl e
      | Inr name \<Rightarrow>
          (case get_prop (field param ''schema'') ''type'' of
             Inl e \<Rightarrow> Inl e
           | Inr t \<Rightarrow>
               (case random_word fk g of
                  (w, g') \<Rightarrow>
                    Inr (JObj [(''key'', name),
                               (''value'',
                                  if t = JStr ''array'' then JSON_stringify [] (JArr [JStr w])
                                  else JStr w),
                               (''description'', field param ''description'')], g'))))"

fun map_query :: "'g faker \<Rightarrow> json list \<Rightarrow> 'g \<Rightarrow> error + (json list \<times> 'g)" where
  "map_query fk [] g = Inr ([], g)"
| "map_query fk (p # ps) g =
     (case query_entry fk p g of
        Inl e \<Rightarrow> Inl e
      | Inr (q, g') \<Rightarrow>
          (case map_query fk ps g' of
             Inl e \<Rightarrow> Inl e
           | Inr (qs, g'') \<Rightarrow> Inr (q # qs, g'')))"

definition queryParams :: "'g faker \<Rightarrow> json \<Rightarrow> 'g \<Rightarrow> error + (json list \<times> 'g)" where
  "queryParams fk details g =
     (case get_prop details ''parameters'' of
        Inl e \<Rightarrow> Inl e
      | Inr ps \<Rightarrow>
          if nullish ps then Inr ([], g)
          else (case ps of
                  JArr xs \<Rightarrow>
                    (case filter_query xs of Inl e \<Rightarrow> Inl e | Inr qs \<Rightarrow> map_query fk qs g)
                | _ \<Rightarrow> Inl TypeError))"

text \<open>
  The path variables: none for a path without \<^verbatim>\<open>{\<close>, else one for each match; the
  source asserts that there is a match (\<^verbatim>\<open>match(...)!\<close>) and throws on \<^verbatim>\<open>null\<close>.
\<close>

definition path_variable :: "string \<Rightarrow> json" where
  "path_variable v =
     JObj [(''key'', JStr (slice_inner v)), (''value'', JStr []), (''description'', JStr [])]"

definition path_variables :: "string \<Rightarrow> error + json list" where
  "path_variables path =
     (if CHR ''{'' \<in> set path then
        (case match_braces path of [] \<Rightarrow> Inl TypeError | ms \<Rightarrow> Inr (map path_variable ms))
      else Inr [])"

definition request_item ::
  "'g faker \<Rightarrow> swagger \<Rightarrow> string \<Rightarrow> string \<Rightarrow> json \<Rightarrow> 'g \<Rightarrow> error + (json \<times> 'g)" where
  "request_item fk sw path method details g =
     (case request_body fk sw details g of
        Inl e \<Rightarrow> Inl e
      | Inr (body, g1) \<Rightarrow>
          (case queryParams fk details g1 of
             Inl e \<Rightarrow> Inl e
           | Inr (query, g2) \<Rightarrow>
               (case path_variables path of
                  Inl e \<Rightarrow> Inl e
                | Inr variable \<Rightarrow>
                    Inr (JObj
                      [(''name'',
                          if truthy (field details ''summary'') then field details ''summary''
                          else JStr path),
                       (''request'',
                          JObj [(''method'', JStr (toUpperCase method)),
                                (''header'', JArr []),
                                (''url'',
                                   JObj [(''raw'', JStr (''{{base_url}}'' @ path)),
                                         (''host'', JArr [JStr ''{{base_url}}'']),
                                         (''path'',
                                            JArr (map JStr
                                              (filter (\<lambda>s. s \<noteq> []) (split_on CHR ''/'' path)))),
                                         (''query'', JArr query),
                                         (''variable'', JArr variable)]),
                                (''body'', body)]),
                       (''response'', JArr [])], g2))))"

text \<open>
  \<^verbatim>\<open>Object.entries(swagger.paths).flatMap(([path, methods]) =>
  Object.entries(methods).map(...))\<close>: the items in the order of the paths and, within
  a path, of its methods; the first error ends the run.
\<close>

fun map_methods ::
  "'g faker \<Rightarrow> swagger \<Rightarrow> string \<Rightarrow> (string \<times> json) list \<Rightarrow> 'g \<Rightarrow> error + (json list \<times> 'g)" where
  "map_methods fk sw path [] g = Inr ([], g)"
| "map_methods fk sw path ((method, details) # ms) g =
     (case request_item fk sw path method details g of
        Inl e \<Rightarrow> Inl e
      | Inr (it, g') \<Rightarrow>
          (case map_methods fk sw path ms g' of
             Inl e \<Rightarrow> Inl e
           | Inr (its, g'') \<Rightarrow> Inr (it # its, g'')))"

fun flatMap_paths ::
  "'g faker \<Rightarrow> swagger \<Rightarrow> (string \<times> (string \<times> json) list) list \<Rightarrow> 'g
     \<Rightarrow> error + (json list \<times> 'g)" where
  "flatMap_paths fk sw [] g = Inr ([], g)"
| "flatMap_paths fk sw ((path, methods) # ps) g =
     (case map_methods fk sw path methods g of
        Inl e \<Rightarrow> Inl e
      | Inr (its, g') \<Rightarrow>
          (case flatMap_paths fk sw ps g' of
             Inl e \<Rightarrow> Inl e
           | Inr (rest, g'') \<Rightarrow> Inr (its @ rest, g'')))"

definition createCollection :: "'g faker \<Rightarrow> swagger \<Rightarrow> 'g \<Rightarrow> error + (json \<times> 'g)" where
  "createCollection fk sw g =
     (case flatMap_paths fk sw (paths sw) g of
        Inl e \<Rightarrow> Inl e
      | Inr (items, g') \<Rightarrow>
          Inr (JObj [(''collection'',
                 JObj [(''info'',
                          JObj [(''name'', JStr ''Generated Collection''),
                                (''description'', JStr ''Collection generated from Swagger file''),
                                (''schema'', JStr
                                   ''https://schema.getpostman.com/json/collection/v2.1.0/collection.json'')]),
                       (''item'', JArr items)])], g'))"

section \<open>saveToFile and main\<close>

text \<open>
  The world \<open>main\<close> runs in: what reading and parsing the Swagger file gives
  (\<open>fetchSwagger\<close>: \<^verbatim>\<open>fs.readFile\<close>, then \<^verbatim>\<open>JSON.parse\<close>, typed as \<^verbatim>\<open>Swagger\<close>), which
  writes fail, the state of the random generator, the files written, the two console
  channels, and the rejections of promises that nobody awaits or catches.
\<close>

datatype printed = Inspected json | Line string

record 'g world =
  swagger_read :: "error + swagger"
  write_failure :: "string \<Rightarrow> error option"
  random :: 'g
  written :: "(string \<times> string) list"
  console_out :: "printed list"
  console_err :: "error list"
  rejected :: "error list"

text \<open>
  \<open>saveToFile\<close> is an \<^verbatim>\<open>async\<close> function: its result is the outcome of its promise,
  \<open>None\<close> when the file is written and the error when \<^verbatim>\<open>fs.writeFile\<close> rejects
  (\<^verbatim>\<open>undefined\<close> is no data it takes). \<open>main\<close> calls it without \<^verbatim>\<open>await\<close>, in the loop
  and for the collection: \<open>not_awaited\<close> drops the outcome, and a rejection is left
  unhandled. \<open>run\<close> is the last line of the source, \<^verbatim>\<open>main().catch(console.error)\<close>.
\<close>

definition fetchSwagger :: "'g world \<Rightarrow> error + swagger" where
  "fetchSwagger w = swagger_read w"

definition saveToFile :: "string \<Rightarrow> json \<Rightarrow> 'g world \<Rightarrow> error option \<times> 'g world" where
  "saveToFile filename data w =
     (case JSON_stringify ''  '' data of
        JStr text \<Rightarrow>
          (case write_failure w filename of
             Some e \<Rightarrow> (Some e, w)
           | None \<Rightarrow> (None, w\<lparr> written := written w @ [(filename, text)] \<rparr>))
      | _ \<Rightarrow> (Some TypeError, w))"

definition not_awaited :: "error option \<times> 'g world \<Rightarrow> 'g world" where
  "not_awaited r =
     (case r of
        (None, w) \<Rightarrow> w
      | (Some e, w) \<Rightarrow> w\<lparr> rejected := rejected w @ [e] \<rparr>)"

definition console_log :: "printed \<Rightarrow> 'g world \<Rightarrow> 'g world" where
  "console_log x w = w\<lparr> console_out := console_out w @ [x] \<rparr>"

fun for_servers :: "(string \<Rightarrow> string option) \<Rightarrow> server list \<Rightarrow> 'g world \<Rightarrow> error option \<times> 'g world" where
  "for_servers url_host [] w = (None, w)"
| "for_servers url_host (s # ss) w =
     (case createEnvironment url_host (url s) of
        Inl e \<Rightarrow> (Some e, w)
      | Inr environment \<Rightarrow>
          (let w1 = console_log (Inspected environment) w in
           case url_host (url s) of
             None \<Rightarrow> (Some TypeError, w1)
           | Some h \<Rightarrow>
               for_servers url_host ss
                 (not_awaited (saveToFile (''environment_'' @ h @ ''.json'') environment w1))))"

definition main :: "(string \<Rightarrow> string option) \<Rightarrow> 'g faker \<Rightarrow> 'g world \<Rightarrow> error option \<times> 'g world" where
  "main url_host fk w =
     (case fetchSwagger w of
        Inl e \<Rightarrow> (Some e, w)
      | Inr sw \<Rightarrow>
          (case for_servers url_host (servers sw) w of
             (Some e, w1) \<Rightarrow> (Some e, w1)
           | (None, w1) \<Rightarrow>
               (case createCollection fk sw (random w1) of
                  Inl e \<Rightarrow> (Some e, w1)
                | Inr (collection, g') \<Rightarrow>
                    (let w2 = console_log (Inspected collection) (w1\<lparr> random := g' \<rparr>);
                         w3 = not_awaited (saveToFile ''collection_generated.json'' collection w2)
                     in (None,
                         console_log
                           (Line ''Environments and Collection created/updated successfully.'')
                           w3)))))"

definition run :: "(string \<Rightarrow> string option) \<Rightarrow> 'g faker \<Rightarrow> 'g world \<Rightarrow> 'g world" where
  "run url_host fk w =
     (case main url_host fk w of
        (None, w') \<Rightarrow> w'
      | (Some e, w') \<Rightarrow> w'\<lparr> console_err := console_err w' @ [e] \<rparr>)"

section \<open>JSON.parse\<close>

text \<open>
  \<^verbatim>\<open>JSON.parse\<close>, on text: the JSON grammar with integers for numbers (a literal with
  a fraction or an exponent has no value here) and 8-bit characters (an escape
  \<^verbatim>\<open>\uxxxx\<close> from 256 on has none either). \<open>None\<close> is the \<^verbatim>\<open>SyntaxError\<close>. A repeated
  key keeps its first place and its last value. The value parser recurs on what is left
  of the text; the fuel \<open>n\<close> bounds the depth of calls, and \<open>JSON_parse\<close> gives
  it more than a text of that length can use.
\<close>

definition is_ws :: "char \<Rightarrow> bool" where
  "is_ws c = (let n = (of_char c :: nat) in n = 0x20 \<or> n = 0x09 \<or> n = 0x0A \<or> n = 0x0D)"

definition skip_ws :: "string \<Rightarrow> string" where
  "skip_ws s = dropWhile is_ws s"

definition hex_val :: "char \<Rightarrow> nat option" where
  "hex_val c =
     (let n = (of_char c :: nat) in
      if 48 \<le> n \<and> n \<le> 57 then Some (n - 48)
      else if 97 \<le> n \<and> n \<le> 102 then Some (n - 87)
      else if 65 \<le> n \<and> n \<le> 70 then Some (n - 55)
      else None)"

definition unescape :: "char \<Rightarrow> char option" where
  "unescape e =
     (let n = (of_char e :: nat) in
      if n = 0x22 then Some (CHR 0x22)
      else if n = 0x5C then Some (CHR 0x5C)
      else if n = 0x2F then Some (CHR 0x2F)
      else if n = 0x62 then Some (CHR 0x08)
      else if n = 0x66 then Some (CHR 0x0C)
      else if n = 0x6E then Some (CHR 0x0A)
      else if n = 0x72 then Some (CHR 0x0D)
      else if n = 0x74 then Some (CHR 0x09)
      else None)"

definition unicode_escape :: "char \<Rightarrow> char \<Rightarrow> char \<Rightarrow> char \<Rightarrow> char option" where
  "unicode_escape h1 h2 h3 h4 =
     (case (hex_val h1, hex_val h2, hex_val h3, hex_val h4) of
        (Some a, Some b, Some c, Some d) \<Rightarrow>
          (let n = ((a * 16 + b) * 16 + c) * 16 + d in if n < 256 then Some (char_of n) else None)
      | _ \<Rightarrow> None)"

fun parse_chars :: "string \<Rightarrow> (string \<times> string) option" where
  "parse_chars [] = None"
| "parse_chars (c # cs) =
     (if of_char c = (0x22 :: nat) then Some ([], cs)
      else if of_char c = (0x5C :: nat) then
        (case cs of
           [] \<Rightarrow> None
         | e # es \<Rightarrow>
             if of_char e = (0x75 :: nat) then
               (case es of
                  h1 # h2 # h3 # h4 # rest \<Rightarrow>
                    (case unicode_escape h1 h2 h3 h4 of
                       None \<Rightarrow> None
                     | Some d \<Rightarrow>
                         (case parse_chars rest of
                            None \<Rightarrow> None
                          | Some (s, r) \<Rightarrow> Some (d # s, r)))
                | _ \<Rightarrow> None)
             else
               (case unescape e of
                  None \<Rightarrow> None
                | Some d \<Rightarrow>
                    (case parse_chars es of
                       None \<Rightarrow> None
                     | Some (s, r) \<Rightarrow> Some (d # s, r))))
      else if (of_char c :: nat) < 0x20 then None
      else (case parse_chars cs of None \<Rightarrow> None | Some (s, r) \<Rightarrow> Some (c # s, r)))"

definition is_digit :: "char \<Rightarrow> bool" where
  "is_digit c = (let n = (of_char c :: nat) in 48 \<le> n \<and> n \<le> 57)"

fun read_digits :: "nat \<Rightarrow> string \<Rightarrow> nat \<times> string" where
  "read_digits acc [] = (acc, [])"
| "read_digits acc (c # cs) =
     (if is_digit c then read_digits (10 * acc + (of_char c - 48)) cs else (acc, c # cs))"

definition integer_end :: "string \<Rightarrow> bool" where
  "integer_end r =
     (case r of [] \<Rightarrow> True | c # _ \<Rightarrow> c \<noteq> CHR ''.'' \<and> c \<noteq> CHR ''e'' \<and> c \<noteq> CHR ''E'')"

definition parse_nat :: "string \<Rightarrow> (nat \<times> string) option" where
  "parse_nat s =
     (case s of
        [] \<Rightarrow> None
      | c # cs \<Rightarrow>
          if \<not> is_digit c then None
          else if c = CHR ''0'' then (if integer_end cs then Some (0, cs) else None)
          else (case read_digits 0 s of (n, r) \<Rightarrow> if integer_end r then Some (n, r) else None))"

definition parse_number :: "string \<Rightarrow> (json \<times> string) option" where
  "parse_number s =
     (case s of
        [] \<Rightarrow> None
      | c # cs \<Rightarrow>
          if c = CHR ''-'' then
            (case parse_nat cs of None \<Rightarrow> None | Some (n, r) \<Rightarrow> Some (JNum (- int n), r))
          else
            (case parse_nat s of None \<Rightarrow> None | Some (n, r) \<Rightarrow> Some (JNum (int n), r)))"

definition literal :: "string \<Rightarrow> json \<Rightarrow> string \<Rightarrow> (json \<times> string) option" where
  "literal word v s =
     (if take (length word) s = word then Some (v, drop (length word) s) else None)"

fun parse_value :: "nat \<Rightarrow> string \<Rightarrow> (json \<times> string) option"
  and parse_elements :: "nat \<Rightarrow> json list \<Rightarrow> string \<Rightarrow> (json list \<times> string) option"
  and parse_members :: "nat \<Rightarrow> (string \<times> json) list \<Rightarrow> string
        \<Rightarrow> ((string \<times> json) list \<times> string) option"
where
  "parse_value 0 s = None"
| "parse_value (Suc n) s =
     (case skip_ws s of
        [] \<Rightarrow> None
      | c # cs \<Rightarrow>
          if c = CHR ''{'' then
            (case skip_ws cs of
               [] \<Rightarrow> None
             | d # r \<Rightarrow>
                 if d = CHR ''}'' then Some (JObj [], r)
                 else (case parse_members n [] cs of
                         None \<Rightarrow> None
                       | Some (kvs, r') \<Rightarrow> Some (JObj kvs, r')))
          else if c = CHR ''['' then
            (case skip_ws cs of
               [] \<Rightarrow> None
             | d # r \<Rightarrow>
                 if d = CHR '']'' then Some (JArr [], r)
                 else (case parse_elements n [] cs of
                         None \<Rightarrow> None
                       | Some (xs, r') \<Rightarrow> Some (JArr xs, r')))
          else if c = CHR 0x22 then
            (case parse_chars cs of None \<Rightarrow> None | Some (str, r) \<Rightarrow> Some (JStr str, r))
          else if c = CHR ''t'' then literal ''true'' (JBool True) (c # cs)
          else if c = CHR ''f'' then literal ''false'' (JBool False) (c # cs)
          else if c = CHR ''n'' then literal ''null'' JNull (c # cs)
          else parse_number (c # cs))"
| "parse_elements 0 acc s = None"
| "parse_elements (Suc n) acc s =
     (case parse_value n s of
        None \<Rightarrow> None
      | Some (v, r) \<Rightarrow>
          (case skip_ws r of
             [] \<Rightarrow> None
           | c # r' \<Rightarrow>
               if c = CHR '','' then parse_elements n (acc @ [v]) r'
               else if c = CHR '']'' then Some (acc @ [v], r')
               else None))"
| "parse_members 0 acc s = None"
| "parse_members (Suc n) acc s =
     (case skip_ws s of
        [] \<Rightarrow> None
      | q # cs \<Rightarrow>
          if q \<noteq> CHR 0x22 then None
          else
            (case parse_chars cs of
               None \<Rightarrow> None
             | Some (k, r) \<Rightarrow>
                 (case skip_ws r of
                    [] \<Rightarrow> None
                  | colon # r1 \<Rightarrow>
                      if colon \<noteq> CHR '':'' then None
                      else
                        (case parse_value n r1 of
                           None \<Rightarrow> None
                         | Some (v, r2) \<Rightarrow>
                             (case skip_ws r2 of
                                [] \<Rightarrow> None
                              | c # r3 \<Rightarrow>
                                  if c = CHR '','' then parse_members n (obj_put acc k v) r3
                                  else if c = CHR ''}'' then Some (obj_put acc k v, r3)
                                  else None)))))"

definition JSON_parse :: "string \<Rightarrow> json option" where
  "JSON_parse s =
     (case parse_value (Suc (length s)) s of
        None \<Rightarrow> None
      | Some (v, r) \<Rightarrow> if skip_ws r = [] then Some v else None)"

section \<open>Notions of the specification\<close>

subsection \<open>Schemas\<close>

text \<open>
  The declared properties of a schema, in order. A node that has no \<^verbatim>\<open>properties\<close>:
  \<^verbatim>\<open>undefined\<close>, \<^verbatim>\<open>null\<close>, a value that is no object, an object lacking the field.
\<close>

definition declared :: "json \<Rightarrow> (string \<times> json) list" where
  "declared schema =
     (case get_prop schema ''properties'' of
        Inl e \<Rightarrow> []
      | Inr props \<Rightarrow> (case entries props of Inl e \<Rightarrow> [] | Inr kvs \<Rightarrow> kvs))"

definition lacks_properties :: "json \<Rightarrow> bool" where
  "lacks_properties schema =
     (case get_prop schema ''properties'' of Inl e \<Rightarrow> True | Inr props \<Rightarrow> props = JUndefined)"

text \<open>
  A schema valid all the way down: it has \<^verbatim>\<open>properties\<close>; their keys are distinct and
  none is \<^verbatim>\<open>__proto__\<close>; each property has the type string or integer, or the type
  array and a truthy \<^verbatim>\<open>items\<close> that is a valid schema, or the type object and is itself
  a valid schema.
\<close>

function valid_schema :: "json \<Rightarrow> bool" and valid_props :: "(string \<times> json) list \<Rightarrow> bool" where
  "valid_schema schema =
     (case get_prop schema ''properties'' of
        Inl e \<Rightarrow> False
      | Inr props \<Rightarrow> (case entries props of Inl e \<Rightarrow> False | Inr kvs \<Rightarrow> valid_props kvs))"
| "valid_props [] = True"
| "valid_props ((key, val) # rest) =
     (key \<noteq> ''__proto__'' \<and> key \<notin> fst ` set rest \<and> hasTypeProperty val \<and>
      (if field val ''type'' = JStr ''string'' then True
       else if field val ''type'' = JStr ''integer'' then True
       else if field val ''type'' = JStr ''array'' then
         truthy (field val ''items'') \<and> valid_schema (field val ''items'')
       else if field val ''type'' = JStr ''object'' then valid_schema val
       else False) \<and>
      valid_props rest)"
  by pat_completeness auto
termination
proof (relation "measures
    [\<lambda>x. case x of Inl schema \<Rightarrow> jsize schema | Inr kvs \<Rightarrow> props_size kvs,
     \<lambda>x. case x of Inl schema \<Rightarrow> 0 | Inr kvs \<Rightarrow> Suc (length kvs)]",
    goal_cases)
  case 1
  then show ?case by simp
next
  case (2 schema props kvs)
  then show ?case by (simp add: get_entries_size)
next
  case (3 key val rest)
  then show ?case using field_size [of val "''items''"] by auto
qed auto

declare valid_schema.simps [simp del]

text \<open>
  A value of the declared type of a property node: a string, a number, a one-element
  sequence holding an object, an object. \<open>props_result\<close> is what the loop of the
  generator owes for valid properties: it succeeds, appends their keys in order to
  those of the object built so far, leaves the earlier values alone, and stores a value
  of the declared type at each.
\<close>

definition value_matches :: "json \<Rightarrow> json \<Rightarrow> bool" where
  "value_matches node v =
     (if field node ''type'' = JStr ''string'' then (case v of JStr s \<Rightarrow> True | _ \<Rightarrow> False)
      else if field node ''type'' = JStr ''integer'' then (case v of JNum n \<Rightarrow> True | _ \<Rightarrow> False)
      else if field node ''type'' = JStr ''array'' then (case v of JArr [JObj d] \<Rightarrow> True | _ \<Rightarrow> False)
      else if field node ''type'' = JStr ''object'' then (case v of JObj d \<Rightarrow> True | _ \<Rightarrow> False)
      else False)"

definition props_result :: "'g faker \<Rightarrow> (string \<times> json) list \<Rightarrow> (string \<times> json) list \<Rightarrow> 'g \<Rightarrow> bool" where
  "props_result fk kvs data g =
     (\<exists>d g'. fake_props fk kvs data g = Inr (d, g') \<and> map fst d = map fst data @ map fst kvs
        \<and> (\<forall>k. k \<notin> fst ` set kvs \<longrightarrow> map_of d k = map_of data k)
        \<and> (\<forall>(k, node) \<in> set kvs. \<exists>x. map_of d k = Some x \<and> value_matches node x))"

subsection \<open>Paths and query entries\<close>

text \<open>
  A path written as literal pieces, each followed by a bracketed name, and a tail.
\<close>

fun template :: "(string \<times> string) list \<Rightarrow> string \<Rightarrow> string" where
  "template [] tail = tail"
| "template ((lit, name) # parts) tail = lit @ CHR ''{'' # name @ CHR ''}'' # template parts tail"

text \<open>
  The query entry of a parameter, for some word drawn from the generator: the word
  itself, or the JSON text of the array holding it where the schema type is
  \<^verbatim>\<open>array\<close>.
\<close>

definition query_entry_of :: "'g faker \<Rightarrow> json \<Rightarrow> json \<Rightarrow> bool" where
  "query_entry_of fk param q =
     (\<exists>w g0. w = fst (random_word fk g0)
        \<and> q = JObj [(''key'', field param ''name''),
                    (''value'',
                       if field (field param ''schema'') ''type'' = JStr ''array''
                       then JStr (CHR ''['' # quote w @ '']'')
                       else JStr w),
                    (''description'', field param ''description'')])"

subsection \<open>Operations and items\<close>

text \<open>
  The operations of a Spec, each with its path and its method, in the order of
  \<^verbatim>\<open>Object.entries\<close>: path by path and, within a path, method by method. And the items
  of a collection document: the array under \<^verbatim>\<open>collection.item\<close>.
\<close>

definition operations :: "swagger \<Rightarrow> (string \<times> string \<times> json) list" where
  "operations sw =
     concat (map (\<lambda>(path, methods). map (\<lambda>(method, details). (path, method, details)) methods)
              (paths sw))"

definition items_of :: "json \<Rightarrow> json list" where
  "items_of c = (case field (field c ''collection'') ''item'' of JArr items \<Rightarrow> items | _ \<Rightarrow> [])"

subsection \<open>Written and read back\<close>

text \<open>
  What a value is once written and read back: a property of value \<^verbatim>\<open>undefined\<close> is
  gone, an element \<^verbatim>\<open>undefined\<close> of an array is \<^verbatim>\<open>null\<close>. \<open>no_undefined\<close>: the
  value holds no \<^verbatim>\<open>undefined\<close>. \<open>distinct_keys\<close>: the keys of every object in the value
  are distinct, as in every value \<^verbatim>\<open>JSON.parse\<close> returns; \<open>distinct_keys_swagger\<close> says
  so of the operations of a Spec.
\<close>

fun without_undefined :: "json \<Rightarrow> json"
  and without_undefined_elems :: "json list \<Rightarrow> json list"
  and without_undefined_props :: "(string \<times> json) list \<Rightarrow> (string \<times> json) list"
where
  "without_undefined JUndefined = JNull"
| "without_undefined JNull = JNull"
| "without_undefined (JBool b) = JBool b"
| "without_undefined (JNum n) = JNum n"
| "without_undefined (JStr s) = JStr s"
| "without_undefined (JArr xs) = JArr (without_undefined_elems xs)"
| "without_undefined (JObj kvs) = JObj (without_undefined_props kvs)"
| "without_undefined_elems [] = []"
| "without_undefined_elems (x # xs) = without_undefined x # without_undefined_elems xs"
| "without_undefined_props [] = []"
| "without_undefined_props ((k, v) # kvs) =
     (if v = JUndefined then without_undefined_props kvs
      else (k, without_undefined v) # without_undefined_props kvs)"

fun no_undefined :: "json \<Rightarrow> bool"
  and no_undefined_elems :: "json list \<Rightarrow> bool"
  and no_undefined_props :: "(string \<times> json) list \<Rightarrow> bool"
where
  "no_undefined JUndefined = False"
| "no_undefined (JArr xs) = no_undefined_elems xs"
| "no_undefined (JObj kvs) = no_undefined_props kvs"
| "no_undefined v = True"
| "no_undefined_elems [] = True"
| "no_undefined_elems (x # xs) = (no_undefined x \<and> no_undefined_elems xs)"
| "no_undefined_props [] = True"
| "no_undefined_props ((k, v) # kvs) = (no_undefined v \<and> no_undefined_props kvs)"

fun distinct_keys :: "json \<Rightarrow> bool"
  and distinct_keys_elems :: "json list \<Rightarrow> bool"
  and distinct_keys_props :: "(string \<times> json) list \<Rightarrow> bool"
where
  "distinct_keys (JArr xs) = distinct_keys_elems xs"
| "distinct_keys (JObj kvs) = (distinct (map fst kvs) \<and> distinct_keys_props kvs)"
| "distinct_keys v = True"
| "distinct_keys_elems [] = True"
| "distinct_keys_elems (x # xs) = (distinct_keys x \<and> distinct_keys_elems xs)"
| "distinct_keys_props [] = True"
| "distinct_keys_props ((k, v) # kvs) = (distinct_keys v \<and> distinct_keys_props kvs)"

definition distinct_keys_swagger :: "swagger \<Rightarrow> bool" where
  "distinct_keys_swagger sw =
     list_all (\<lambda>(path, methods). list_all (\<lambda>(method, details). distinct_keys details) methods)
       (paths sw)"

text \<open>
  For the lemmas on parsing: a text of white space; a text that ends a value (empty,
  or starting with a comma, a closing bracket or white space); the fuel the parser
  needs on the text of a value; the white space \<open>ser\<close> puts after an opening bracket
  and before a closing one.
\<close>

definition blank :: "string \<Rightarrow> bool" where
  "blank w = (\<forall>c \<in> set w. is_ws c)"

definition delimited :: "string \<Rightarrow> bool" where
  "delimited r =
     (case r of [] \<Rightarrow> True | c # _ \<Rightarrow> c = CHR '','' \<or> c = CHR '']'' \<or> c = CHR ''}'' \<or> is_ws c)"

fun fuel_of :: "json \<Rightarrow> nat"
  and fuel_of_elems :: "json list \<Rightarrow> nat"
  and fuel_of_props :: "(string \<times> json) list \<Rightarrow> nat"
where
  "fuel_of (JArr xs) = Suc (fuel_of_elems xs)"
| "fuel_of (JObj kvs) = Suc (fuel_of_props kvs)"
| "fuel_of v = 0"
| "fuel_of_elems [] = 0"
| "fuel_of_elems (x # xs) = Suc (fuel_of x + fuel_of_elems xs)"
| "fuel_of_props [] = 0"
| "fuel_of_props ((k, v) # kvs) =
     (if v = JUndefined then fuel_of_props kvs else Suc (fuel_of v + fuel_of_props kvs))"

definition open_gap :: "string \<Rightarrow> string \<Rightarrow> string" where
  "open_gap gap ind = (if gap = [] then [] else CHR 0x0A # ind @ gap)"

definition close_gap :: "string \<Rightarrow> string \<Rightarrow> string" where
  "close_gap gap ind = (if gap = [] then [] else CHR 0x0A # ind)"

subsection \<open>Runs\<close>

text \<open>
  Two worlds that differ at most in what concerns the writes: which of them fail, the
  files written and the rejections left unhandled.
\<close>

definition same_but_writes :: "'g world \<Rightarrow> 'g world \<Rightarrow> bool" where
  "same_but_writes w w' =
     (swagger_read w = swagger_read w' \<and> random w = random w'
      \<and> console_out w = console_out w' \<and> console_err w = console_err w')"

section \<open>Example data\<close>

text \<open>
  A generator to run the examples on (its state counts the draws), and the URL parser
  at the one URL of the examples (it stands for no other).
\<close>

definition demo_faker :: "nat faker" where
  "demo_faker = \<lparr> productName = (\<lambda>n. (''Sleek Steel Chair'', Suc n)),
                   number_int = (\<lambda>n. (int n, Suc n)),
                   random_word = (\<lambda>n. (''matrix'', Suc n)) \<rparr>"

definition example_host :: "string \<Rightarrow> string option" where
  "example_host u = (if u = ''https://api.example.com'' then Some ''api.example.com'' else None)"

text \<open>
  Schemas: one valid all the way down, one with an object-typed property that has no
  \<^verbatim>\<open>properties\<close>, and the schema of a pet.
\<close>

definition order_schema :: json where
  "order_schema =
     JObj [(''type'', JStr ''object''),
           (''properties'',
              JObj [(''id'', JObj [(''type'', JStr ''integer'')]),
                    (''note'', JObj [(''type'', JStr ''string'')]),
                    (''lines'',
                       JObj [(''type'', JStr ''array''),
                             (''items'',
                                JObj [(''properties'',
                                         JObj [(''sku'', JObj [(''type'', JStr ''string'')])])])]),
                    (''buyer'',
                       JObj [(''type'', JStr ''object''),
                             (''properties'',
                                JObj [(''age'', JObj [(''type'', JStr ''integer'')])])])])]"

definition object_schema :: json where
  "object_schema =
     JObj [(''properties'', JObj [(''id'', JObj [(''type'', JStr ''integer'')]),
                                  (''owner'', JObj [(''type'', JStr ''object'')])])]"

definition pet_schema :: json where
  "pet_schema =
     JObj [(''type'', JStr ''object''),
           (''properties'', JObj [(''id'', JObj [(''type'', JStr ''integer'')]),
                                  (''name'', JObj [(''type'', JStr ''string'')])])]"

text \<open>
  Operations and Specs: an operation with a request body, one with parameters, and the
  Spec of the two with the collection made from it; an operation whose reference names
  no schema; a Spec whose one path names a variable twice; and a Spec with a single
  operation, with the collection made from it.
\<close>

definition add_pet :: json where
  "add_pet =
     JObj [(''summary'', JStr ''Add a pet''),
           (''requestBody'',
              JObj [(''content'',
                JObj [(''application/json'',
                  JObj [(''schema'', JObj [(''$ref'', JStr ''#/components/schemas/Pet'')])])])])]"

definition list_pets :: json where
  "list_pets =
     JObj [(''parameters'',
        JArr [JObj [(''name'', JStr ''petId''), (''in'', JStr ''path''),
                    (''schema'', JObj [(''type'', JStr ''string'')])],
              JObj [(''name'', JStr ''limit''), (''in'', JStr ''query''),
                    (''schema'', JObj [(''type'', JStr ''integer'')])],
              JObj [(''name'', JStr ''tags''), (''in'', JStr ''query''),
                    (''description'', JStr ''tags to filter by''),
                    (''schema'', JObj [(''type'', JStr ''array'')])]])]"

definition pet_swagger :: swagger where
  "pet_swagger =
     \<lparr> servers = [\<lparr> url = ''https://api.example.com'' \<rparr>],
       paths = [(''/pets/{petId}'', [(''get'', list_pets)]), (''/pets'', [(''post'', add_pet)])],
       components = \<lparr> schemas = [(''Pet'', pet_schema)] \<rparr> \<rparr>"

definition pet_collection :: json where
  "pet_collection =
     JObj [(''collection'',
        JObj [(''info'',
                 JObj [(''name'', JStr ''Generated Collection''),
                       (''description'', JStr ''Collection generated from Swagger file''),
                       (''schema'', JStr
                          ''https://schema.getpostman.com/json/collection/v2.1.0/collection.json'')]),
              (''item'',
                 JArr [JObj [(''name'', JStr ''/pets/{petId}''),
                             (''request'',
                                JObj [(''method'', JStr ''GET''),
                                      (''header'', JArr []),
                                      (''url'',
                                         JObj [(''raw'', JStr ''{{base_url}}/pets/{petId}''),
                                               (''host'', JArr [JStr ''{{base_url}}'']),
                                               (''path'', JArr [JStr ''pets'', JStr ''{petId}'']),
                                               (''query'',
                                                  JArr [JObj [(''key'', JStr ''limit''),
                                                              (''value'', JStr ''matrix''),
                                                              (''description'', JUndefined)],
                                                        JObj [(''key'', JStr ''tags''),
                                                              (''value'', JSON_stringify [] (JArr [JStr ''matrix''])),
                                                              (''description'', JStr ''tags to filter by'')]]),
                                               (''variable'',
                                                  JArr [JObj [(''key'', JStr ''petId''),
                                                              (''value'', JStr []),
                                                              (''description'', JStr [])]])]),
                                      (''body'', JUndefined)]),
                             (''response'', JArr [])],
                       JObj [(''name'', JStr ''Add a pet''),
                             (''request'',
                                JObj [(''method'', JStr ''POST''),
                                      (''header'', JArr []),
                                      (''url'',
                                         JObj [(''raw'', JStr ''{{base_url}}/pets''),
                                               (''host'', JArr [JStr ''{{base_url}}'']),
                                               (''path'', JArr [JStr ''pets'']),
                                               (''query'', JArr []),
                                               (''variable'', JArr [])]),
                                      (''body'',
                                         JObj [(''mode'', JStr ''raw''),
                                               (''raw'', JSON_stringify []
                                                  (JObj [(''id'', JNum 2),
                                                         (''name'', JStr ''Sleek Steel Chair'')]))])]),
                             (''response'', JArr [])]])])]"

definition toys_swagger :: swagger where
  "toys_swagger =
     \<lparr> servers = [\<lparr> url = ''https://api.example.com'' \<rparr>],
       paths = [(''/pets/{id}/toys/{id}'', [(''get'', JObj [])])],
       components = \<lparr> schemas = [] \<rparr> \<rparr>"

definition ghost_details :: json where
  "ghost_details =
     JObj [(''requestBody'',
        JObj [(''content'',
          JObj [(''application/json'',
            JObj [(''schema'', JObj [(''$ref'', JStr ''#/components/schemas/Ghost'')])])])])]"

definition ghost_swagger :: swagger where
  "ghost_swagger =
     \<lparr> servers = [\<lparr> url = ''https://api.example.com'' \<rparr>],
       paths = [(''/pets'', [(''get'', JObj []), (''post'', ghost_details)])],
       components = \<lparr> schemas = [(''Pet'', JObj [(''properties'', JObj [])])] \<rparr> \<rparr>"

definition small_swagger :: swagger where
  "small_swagger =
     \<lparr> servers = [\<lparr> url = ''https://api.example.com'' \<rparr>],
       paths = [(''/pets'', [(''get'', JObj [])])],
       components = \<lparr> schemas = [] \<rparr> \<rparr>"

definition small_collection :: json where
  "small_collection =
     JObj [(''collection'',
        JObj [(''info'',
                 JObj [(''name'', JStr ''Generated Collection''),
                       (''description'', JStr ''Collection generated from Swagger file''),
                       (''schema'', JStr
                          ''https://schema.getpostman.com/json/collection/v2.1.0/collection.json'')]),
              (''item'',
                 JArr [JObj [(''name'', JStr ''/pets''),
                             (''request'',
                                JObj [(''method'', JStr ''GET''),
                                      (''header'', JArr []),
                                      (''url'',
                                         JObj [(''raw'', JStr ''{{base_url}}/pets''),
                                               (''host'', JArr [JStr ''{{base_url}}'']),
                                               (''path'', JArr [JStr ''pets'']),
                                               (''query'', JArr []),
                                               (''variable'', JArr [])]),
                                      (''body'', JUndefined)]),
                             (''response'', JArr [])]])])]"

text \<open>
  A world where every write fails and one where every write succeeds.
\<close>

definition readonly_world :: "swagger \<Rightarrow> nat world" where
  "readonly_world sw =
     \<lparr> swagger_read = Inr sw, write_failure = (\<lambda>filename. Some (IOError ''EACCES'')), random = 0,
       written = [], console_out = [], console_err = [], rejected = [] \<rparr>"

definition writable_world :: "swagger \<Rightarrow> nat world" where
  "writable_world sw =
     \<lparr> swagger_read = Inr sw, write_failure = (\<lambda>filename. None), random = 0,
       written = [], console_out = [], console_err = [], rejected = [] \<rparr>"

section \<open>Lemmas\<close>

subsection \<open>The fake data generator\<close>

lemma field_JObj: "field (JObj kvs) k = (case map_of kvs k of None \<Rightarrow> JUndefined | Some v \<Rightarrow> v)"
  by (simp add: field_def)

lemma fake_props_append:
  "fake_props fk (pre @ rest) data g =
     (case fake_props fk pre data g of Inl e \<Rightarrow> Inl e | Inr (d, g') \<Rightarrow> fake_props fk rest d g')"
proof (induction pre arbitrary: data g)
  case Nil
  then show ?case by simp
next
  case (Cons kv pre)
  obtain key val where kv: "kv = (key, val)" by (cases kv)
  show ?case unfolding kv
    by (simp add: Cons.IH split: prod.splits sum.splits)
qed

lemma lacks_properties_fails:
  "lacks_properties schema \<Longrightarrow> generateFakeData fk schema g = Inl TypeError"
  by (cases schema)
     (auto simp: lacks_properties_def generateFakeData.simps split: sum.splits option.splits)

lemma map_of_obj_put: "map_of (obj_put data k v) k' = (if k' = k then Some v else map_of data k')"
  by (induction data) auto

lemma keys_obj_put: "k \<notin> fst ` set data \<Longrightarrow> map fst (obj_put data k v) = map fst data @ [k]"
  by (induction data) auto

lemma keyset_obj_put: "fst ` set (obj_put data k v) = insert k (fst ` set data)"
proof (induction data)
  case Nil
  then show ?case by simp
next
  case (Cons kv data)
  obtain k' v' where kv: "kv = (k', v')" by (cases kv)
  show ?case
  proof (cases "k' = k")
    case True
    then show ?thesis by (simp add: kv)
  next
    case False
    then show ?thesis using Cons.IH by (simp add: kv insert_commute)
  qed
qed

lemma props_result_step:
  assumes eq: "fake_props fk ((key, val) # rest) data g = fake_props fk rest (obj_put data key x) g1"
    and m: "value_matches val x"
    and k1: "key \<notin> fst ` set rest"
    and k2: "key \<notin> fst ` set data"
    and r: "props_result fk rest (obj_put data key x) g1"
  shows "props_result fk ((key, val) # rest) data g"
proof -
  from r obtain d g' where
    run: "fake_props fk rest (obj_put data key x) g1 = Inr (d, g')"
    and keys: "map fst d = map fst (obj_put data key x) @ map fst rest"
    and old: "\<forall>k. k \<notin> fst ` set rest \<longrightarrow> map_of d k = map_of (obj_put data key x) k"
    and new: "\<forall>(k, node) \<in> set rest. \<exists>y. map_of d k = Some y \<and> value_matches node y"
    unfolding props_result_def by blast
  have "map fst d = map fst data @ map fst ((key, val) # rest)"
    using keys k2 by (simp add: keys_obj_put)
  moreover have "\<forall>k. k \<notin> fst ` set ((key, val) # rest) \<longrightarrow> map_of d k = map_of data k"
    using old by (simp add: map_of_obj_put)
  moreover have "map_of d key = Some x"
    using old k1 by (simp add: map_of_obj_put)
  ultimately show ?thesis
    unfolding props_result_def using eq run new m by auto
qed

lemma generateFakeData_valid:
  "valid_schema schema \<Longrightarrow>
     \<exists>d g'. generateFakeData fk schema g = Inr (JObj d, g')
       \<and> map fst d = map fst (declared schema)
       \<and> (\<forall>(k, node) \<in> set (declared schema). \<exists>x. map_of d k = Some x \<and> value_matches node x)"
  and "valid_props kvs \<Longrightarrow> fst ` set kvs \<inter> fst ` set data = {} \<Longrightarrow> props_result fk kvs data g"
proof (induction fk schema g and fk kvs data g rule: generateFakeData_fake_props.induct)
  case (1 fk schema g)
  from "1.prems" obtain props kvs where
    p: "get_prop schema ''properties'' = Inr props" and e: "entries props = Inr kvs"
    and v: "valid_props kvs"
    by (auto simp: valid_schema.simps split: sum.splits)
  have "props_result fk kvs [] g" using "1.IH" [OF p e v] by simp
  then show ?case
    unfolding props_result_def by (auto simp: generateFakeData.simps declared_def p e)
next
  case (2 fk data g)
  then show ?case by (simp add: props_result_def)
next
  case (3 fk key val rest data g)
  from "3.prems" have k0: "key \<noteq> ''__proto__''" and k1: "key \<notin> fst ` set rest"
    and h: "hasTypeProperty val" and vr: "valid_props rest"
    and k2: "key \<notin> fst ` set data" and dj: "fst ` set rest \<inter> fst ` set data = {}"
    by auto
  have dj': "fst ` set rest \<inter> fst ` set (obj_put data key x) = {}" for x
    using dj k1 by (auto simp: keyset_obj_put)
  consider (str) "field val ''type'' = JStr ''string''"
    | (int) "field val ''type'' = JStr ''integer''"
    | (arr) "field val ''type'' = JStr ''array''" "truthy (field val ''items'')"
        "valid_schema (field val ''items'')"
    | (obj) "field val ''type'' = JStr ''object''" "valid_schema val"
    using "3.prems"(1) by (auto split: if_splits)
  then show ?case
  proof cases
    case str
    obtain s g1 where pn: "productName fk g = (s, g1)" by (cases "productName fk g")
    have "props_result fk rest (obj_put data key (JStr s)) g1"
      using "3.IH"(1) [OF _ str pn [symmetric] vr] h dj' by (simp add: obj_assign_def k0)
    then show ?thesis
      by (rule props_result_step [rotated -1])
         (use h str pn k0 k1 k2 in \<open>simp_all add: obj_assign_def value_matches_def\<close>)
  next
    case int
    obtain n g1 where ni: "number_int fk g = (n, g1)" by (cases "number_int fk g")
    have "props_result fk rest (obj_put data key (JNum n)) g1"
      using "3.IH"(2) [OF _ _ int ni [symmetric] vr] h int dj' by (simp add: obj_assign_def k0)
    then show ?thesis
      by (rule props_result_step [rotated -1])
         (use h int ni k0 k1 k2 in \<open>simp_all add: obj_assign_def value_matches_def\<close>)
  next
    case arr
    have c: "\<not> \<not> hasTypeProperty val" "field val ''type'' \<noteq> JStr ''string''"
      "field val ''type'' \<noteq> JStr ''integer''"
      "field val ''type'' = JStr ''array'' \<and> truthy (field val ''items'')"
      using h arr by simp_all
    from "3.IH"(3) [OF c arr(3)] obtain d g1 where
      gen: "generateFakeData fk (field val ''items'') g = Inr (JObj d, g1)" by blast
    have "props_result fk rest (obj_put data key (JArr [JObj d])) g1"
      using "3.IH"(4) [OF c gen _ vr] dj' by (simp add: obj_assign_def k0)
    then show ?thesis
      by (rule props_result_step [rotated -1])
         (use h arr gen k0 k1 k2 in \<open>simp_all add: obj_assign_def value_matches_def\<close>)
  next
    case obj
    have c: "\<not> \<not> hasTypeProperty val" "field val ''type'' \<noteq> JStr ''string''"
      "field val ''type'' \<noteq> JStr ''integer''"
      "\<not> (field val ''type'' = JStr ''array'' \<and> truthy (field val ''items''))"
      "field val ''type'' = JStr ''object''"
      using h obj by simp_all
    from "3.IH"(5) [OF c obj(2)] obtain d g1 where
      gen: "generateFakeData fk val g = Inr (JObj d, g1)" by blast
    have "props_result fk rest (obj_put data key (JObj d)) g1"
      using "3.IH"(6) [OF c gen _ vr] dj' by (simp add: obj_assign_def k0)
    then show ?thesis
      by (rule props_result_step [rotated -1])
         (use h obj gen k0 k1 k2 in \<open>simp_all add: obj_assign_def value_matches_def\<close>)
  qed
qed

lemma order_schema_valid: "valid_schema order_schema"
  by (simp add: order_schema_def valid_schema.simps hasTypeProperty_def field_def)

lemma order_schema_declared: "map fst (declared order_schema) = [''id'', ''note'', ''lines'', ''buyer'']"
  by (simp add: declared_def order_schema_def)

subsection \<open>The collection generator\<close>

lemma split_on_nonempty: "split_on c s \<noteq> []"
  by (induction s) (auto split: list.splits)

lemma pop_key_split: "pop_key (split_on c s) = last (split_on c s)"
  by (cases "split_on c s" rule: rev_cases) (auto simp: pop_key_def split_on_nonempty)

lemma field_type_hasTypeProperty: "field val ''type'' = JStr (c # cs) \<Longrightarrow> hasTypeProperty val"
  by (cases val) (auto simp: field_def hasTypeProperty_def)

lemma request_body_absent:
  assumes "bodySchemaRef details = Inr (JStr r)" and "r \<noteq> []"
    and "map_of (schemas (components sw)) (last (split_on CHR ''/'' r)) = None"
  shows "request_body fk sw details g = Inl TypeError"
  using assms
  by (simp add: request_body_def lookup_schema_def pop_key_split lacks_properties_fails
      lacks_properties_def)

lemma map_methods_append:
  "map_methods fk sw path (ms1 @ ms2) g =
     (case map_methods fk sw path ms1 g of
        Inl e \<Rightarrow> Inl e
      | Inr (its1, g1) \<Rightarrow>
          (case map_methods fk sw path ms2 g1 of
             Inl e \<Rightarrow> Inl e
           | Inr (its2, g2) \<Rightarrow> Inr (its1 @ its2, g2)))"
proof (induction ms1 arbitrary: g)
  case Nil
  then show ?case by (simp split: sum.splits)
next
  case (Cons m ms1)
  obtain verb details where m: "m = (verb, details)" by (cases m)
  show ?case unfolding m by (simp add: Cons.IH split: sum.splits prod.splits)
qed

lemma flatMap_paths_append:
  "flatMap_paths fk sw (ps1 @ ps2) g =
     (case flatMap_paths fk sw ps1 g of
        Inl e \<Rightarrow> Inl e
      | Inr (its1, g1) \<Rightarrow>
          (case flatMap_paths fk sw ps2 g1 of
             Inl e \<Rightarrow> Inl e
           | Inr (its2, g2) \<Rightarrow> Inr (its1 @ its2, g2)))"
proof (induction ps1 arbitrary: g)
  case Nil
  then show ?case by (simp split: sum.splits)
next
  case (Cons p ps1)
  obtain path ms where p: "p = (path, ms)" by (cases p)
  show ?case unfolding p by (simp add: Cons.IH split: sum.splits prod.splits)
qed

lemma createCollection_first_failure:
  assumes "paths sw = ps1 @ (path, ms1 @ (verb, details) # ms2) # ps2"
    and "flatMap_paths fk sw ps1 g0 = Inr (its1, g1)"
    and "map_methods fk sw path ms1 g1 = Inr (its2, g)"
    and "request_item fk sw path verb details g = Inl e"
  shows "createCollection fk sw g0 = Inl e"
  using assms by (simp add: createCollection_def flatMap_paths_append map_methods_append)

lemma map_methods_fails:
  assumes "(verb, details) \<in> set ms"
    and "\<And>g. request_item fk sw path verb details g = Inl e0"
  shows "\<exists>e. map_methods fk sw path ms g = Inl e"
  using assms(1)
proof (induction ms arbitrary: g)
  case Nil
  then show ?case by simp
next
  case (Cons m ms)
  obtain verb' details' where m: "m = (verb', details')" by (cases m)
  show ?case
  proof (cases "m = (verb, details)")
    case True
    then show ?thesis by (simp add: assms(2))
  next
    case False
    with Cons.prems have "(verb, details) \<in> set ms" by simp
    note IH = Cons.IH [OF this]
    show ?thesis
    proof (cases "request_item fk sw path verb' details' g")
      case (Inl e)
      then show ?thesis by (simp add: m)
    next
      case (Inr r)
      obtain it g' where r: "r = (it, g')" by (cases r)
      from IH [of g'] obtain e where "map_methods fk sw path ms g' = Inl e" by blast
      with Inr r show ?thesis by (simp add: m)
    qed
  qed
qed

lemma flatMap_paths_fails:
  assumes "(path, ms) \<in> set ps" and "(verb, details) \<in> set ms"
    and "\<And>g. request_item fk sw path verb details g = Inl e0"
  shows "\<exists>e. flatMap_paths fk sw ps g = Inl e"
  using assms(1)
proof (induction ps arbitrary: g)
  case Nil
  then show ?case by simp
next
  case (Cons p ps)
  obtain path' ms' where p: "p = (path', ms')" by (cases p)
  show ?case
  proof (cases "p = (path, ms)")
    case True
    then show ?thesis
      using map_methods_fails [OF assms(2), of fk sw path e0 g] assms(3) by auto
  next
    case False
    with Cons.prems have "(path, ms) \<in> set ps" by simp
    note IH = Cons.IH [OF this]
    show ?thesis
    proof (cases "map_methods fk sw path' ms' g")
      case (Inl e)
      then show ?thesis by (simp add: p)
    next
      case (Inr r)
      obtain its g' where r: "r = (its, g')" by (cases r)
      from IH [of g'] obtain e where "flatMap_paths fk sw ps g' = Inl e" by blast
      with Inr r show ?thesis by (simp add: p)
    qed
  qed
qed

lemma fake_props_object_fails:
  assumes "(key, val) \<in> set kvs" and "field val ''type'' = JStr ''object''"
    and "lacks_properties val"
  shows "\<exists>e. fake_props fk kvs data g = Inl e"
  using assms(1)
proof (induction kvs arbitrary: data g)
  case Nil
  then show ?case by simp
next
  case (Cons kv kvs)
  obtain key' val' where kv: "kv = (key', val')" by (cases kv)
  show ?case
  proof (cases "kv = (key, val)")
    case True
    then show ?thesis
      using assms(2,3) field_type_hasTypeProperty [of val "CHR ''o''" "''bject''"]
      by (simp add: lacks_properties_fails)
  next
    case False
    with Cons.prems have "(key, val) \<in> set kvs" by simp
    from Cons.IH [OF this] show ?thesis
      unfolding kv by (auto split: sum.splits prod.splits)
  qed
qed

lemma generateFakeData_object:
  "generateFakeData fk schema g = Inr (data, g') \<Longrightarrow> \<exists>d. data = JObj d"
  by (auto simp: generateFakeData.simps split: sum.splits)

lemma request_item_body:
  "request_item fk sw path verb details g = Inr (item, g2) \<Longrightarrow>
     \<exists>g1. request_body fk sw details g = Inr (field (field item ''request'') ''body'', g1)"
  by (auto simp: request_item_def field_JObj split: sum.splits)

lemma toUpperCase_get: "toUpperCase ''get'' = ''GET''"
  by code_simp

lemma get_prop_field: "\<not> nullish v \<Longrightarrow> get_prop v k = Inr (field v k)"
  by (cases v) (auto simp: field_def)

lemma filter_query_total:
  "\<forall>p \<in> set ps. \<not> nullish p \<Longrightarrow>
     filter_query ps = Inr (filter (\<lambda>p. field p ''in'' = JStr ''query'') ps)"
  by (induction ps) (auto simp: get_prop_field)

lemma stringify_single_word:
  "JSON_stringify [] (JArr [JStr w]) = JStr (CHR ''['' # quote w @ '']'')"
  by (simp add: JSON_stringify_def wrap_def)

lemma query_entry_total:
  assumes "\<not> nullish p" and "\<not> nullish (field p ''schema'')"
  shows "\<exists>q g'. query_entry fk p g = Inr (q, g') \<and> query_entry_of fk p q"
proof -
  obtain w g' where w: "random_word fk g = (w, g')" by (cases "random_word fk g")
  define q where "q = JObj [(''key'', field p ''name''),
                    (''value'',
                       if field (field p ''schema'') ''type'' = JStr ''array''
                       then JStr (CHR ''['' # quote w @ '']'')
                       else JStr w),
                    (''description'', field p ''description'')]"
  have "query_entry fk p g = Inr (q, g')"
    using assms w by (simp add: query_entry_def q_def get_prop_field stringify_single_word)
  moreover have "query_entry_of fk p q"
    unfolding query_entry_of_def
    by (rule exI [of _ w], rule exI [of _ g]) (simp add: w q_def)
  ultimately show ?thesis by blast
qed

lemma map_query_total:
  "\<forall>p \<in> set qs. \<not> nullish p \<and> \<not> nullish (field p ''schema'') \<Longrightarrow>
     \<exists>rs g'. map_query fk qs g = Inr (rs, g') \<and> list_all2 (query_entry_of fk) qs rs"
proof (induction qs arbitrary: g)
  case Nil
  then show ?case by simp
next
  case (Cons p qs)
  then obtain q g1 where q: "query_entry fk p g = Inr (q, g1)" "query_entry_of fk p q"
    using query_entry_total [of p fk g] by auto
  from Cons obtain rs g2 where r: "map_query fk qs g1 = Inr (rs, g2)" "list_all2 (query_entry_of fk) qs rs"
    by fastforce
  from q r show ?case by simp
qed

lemma quote_char_length: "1 \<le> length (quote_char c)"
  by (simp add: quote_char_def Let_def)

lemma quoted_length: "length w \<le> length (concat (map quote_char w))"
proof (induction w)
  case Nil
  then show ?case by simp
next
  case (Cons c w)
  then show ?case using quote_char_length [of c] by simp
qed

lemma request_item_query:
  "request_item fk sw path verb details g = Inr (item, g2) \<Longrightarrow>
     \<exists>qs g1. queryParams fk details g1 = Inr (qs, g2)
       \<and> field (field (field item ''request'') ''url'') ''query'' = JArr qs"
  by (fastforce simp: request_item_def field_JObj split: sum.splits)

lemma lazy_close_name:
  "CHR ''}'' \<notin> set name \<Longrightarrow> \<forall>c \<in> set name. \<not> line_terminator c \<Longrightarrow>
     lazy_close (name @ CHR ''}'' # rest) = Some (name, rest)"
  by (induction name) auto

lemma match_braces_literal: "CHR ''{'' \<notin> set lit \<Longrightarrow> match_braces (lit @ s) = match_braces s"
  by (induction lit) auto

lemma match_braces_template:
  assumes "CHR ''{'' \<notin> set tail"
    and "\<forall>(lit, name) \<in> set parts.
           CHR ''{'' \<notin> set lit \<and> CHR ''}'' \<notin> set name \<and> (\<forall>c \<in> set name. \<not> line_terminator c)"
  shows "match_braces (template parts tail) = map (\<lambda>(lit, name). CHR ''{'' # name @ ''}'') parts"
  using assms(2)
proof (induction parts)
  case Nil
  then show ?case using match_braces_literal [OF assms(1), of "[]"] by simp
next
  case (Cons p parts)
  obtain lit name where p: "p = (lit, name)" by (cases p)
  from Cons.prems have l: "CHR ''{'' \<notin> set lit" and n: "CHR ''}'' \<notin> set name"
    "\<forall>c \<in> set name. \<not> line_terminator c"
    by (auto simp: p)
  from Cons have IH: "match_braces (template parts tail) = map (\<lambda>(lit, name). CHR ''{'' # name @ ''}'') parts"
    by simp
  show ?case
    by (simp add: p match_braces_literal [OF l] lazy_close_name [OF n] IH)
qed

lemma slice_inner_braces: "slice_inner (CHR ''{'' # name @ ''}'') = name"
  by (simp add: slice_inner_def butlast_append)

lemma template_has_brace: "parts \<noteq> [] \<Longrightarrow> CHR ''{'' \<in> set (template parts tail)"
  by (cases parts) auto

lemma request_item_variable:
  "request_item fk sw path verb details g = Inr (item, g') \<Longrightarrow>
     path_variables path = Inr (case field (field (field item ''request'') ''url'') ''variable'' of
                                  JArr vs \<Rightarrow> vs | _ \<Rightarrow> [])"
  by (auto simp: request_item_def field_JObj split: sum.splits)

subsection \<open>The items of a collection are the operations of the Spec\<close>

lemma map_methods_items:
  "map_methods fk sw path ms g = Inr (its, g') \<Longrightarrow>
     list_all2 (\<lambda>(method, details) item.
                  \<exists>g0 g1. request_item fk sw path method details g0 = Inr (item, g1)) ms its"
proof (induction ms arbitrary: g its)
  case Nil
  then show ?case by simp
next
  case (Cons m ms)
  obtain verb details where m: "m = (verb, details)" by (cases m)
  from Cons.prems obtain it g1 rest where
    i: "request_item fk sw path verb details g = Inr (it, g1)"
    and r: "map_methods fk sw path ms g1 = Inr (rest, g')" and its: "its = it # rest"
    by (auto simp: m split: sum.splits)
  from Cons.IH [OF r] i show ?case unfolding m its by auto
qed

lemma flatMap_paths_items:
  "flatMap_paths fk sw ps g = Inr (its, g') \<Longrightarrow>
     list_all2 (\<lambda>(path, method, details) item.
                  \<exists>g0 g1. request_item fk sw path method details g0 = Inr (item, g1))
       (concat (map (\<lambda>(path, methods). map (\<lambda>(method, details). (path, method, details)) methods) ps))
       its"
proof (induction ps arbitrary: g its)
  case Nil
  then show ?case by simp
next
  case (Cons p ps)
  obtain path ms where p: "p = (path, ms)" by (cases p)
  from Cons.prems obtain its1 g1 rest where
    m: "map_methods fk sw path ms g = Inr (its1, g1)"
    and r: "flatMap_paths fk sw ps g1 = Inr (rest, g')" and its: "its = its1 @ rest"
    by (auto simp: p split: sum.splits)
  have "list_all2 (\<lambda>(path, method, details) item.
                  \<exists>g0 g1. request_item fk sw path method details g0 = Inr (item, g1))
          (map (\<lambda>(method, details). (path, method, details)) ms) its1"
    using map_methods_items [OF m] by (simp add: list_all2_map1 case_prod_unfold)
  with Cons.IH [OF r] show ?case unfolding p its by (simp add: list_all2_appendI)
qed

lemma createCollection_items:
  "createCollection fk sw g = Inr (c, g') \<Longrightarrow>
     list_all2 (\<lambda>(path, method, details) item.
                  \<exists>g0 g1. request_item fk sw path method details g0 = Inr (item, g1))
       (operations sw) (items_of c)"
  by (auto simp: createCollection_def operations_def items_of_def field_JObj
      dest: flatMap_paths_items split: sum.splits)

lemma request_body_reference:
  assumes "bodySchemaRef details = Inr (JStr r)" and "r \<noteq> []"
    and "map_of (schemas (components sw)) (last (split_on CHR ''/'' r)) = Some schema"
  shows "request_body fk sw details g =
        (case generateFakeData fk schema g of
           Inl e \<Rightarrow> Inl e
         | Inr (data, g') \<Rightarrow>
             Inr (JObj [(''mode'', JStr ''raw''), (''raw'', JStr (ser [] [] data))], g'))"
proof (cases "generateFakeData fk schema g")
  case (Inl e)
  with assms show ?thesis by (simp add: request_body_def lookup_schema_def pop_key_split)
next
  case (Inr res)
  obtain data g' where res: "res = (data, g')" by (cases res)
  from Inr res obtain d where "data = JObj d" by (auto dest: generateFakeData_object)
  with assms Inr res show ?thesis
    by (simp add: request_body_def lookup_schema_def pop_key_split JSON_stringify_def)
qed

lemma request_body_none:
  assumes "nullish (field details ''requestBody'')"
    and "request_body fk sw details g = Inr (body, g1)"
  shows "body = JUndefined"
proof (cases "get_prop details ''requestBody''")
  case (Inl e)
  with assms(2) show ?thesis by (simp add: request_body_def bodySchemaRef_def)
next
  case (Inr rb)
  then have "rb = field details ''requestBody''" by (simp add: field_def)
  with assms Inr show ?thesis by (simp add: request_body_def bodySchemaRef_def)
qed

lemma item_body:
  assumes "request_item fk sw path verb details g0 = Inr (item, g2)"
  shows "(\<forall>r schema.
              bodySchemaRef details = Inr (JStr r) \<and> r \<noteq> []
                \<and> map_of (schemas (components sw)) (last (split_on CHR ''/'' r)) = Some schema \<longrightarrow>
              (\<exists>data g0 g1. generateFakeData fk schema g0 = Inr (data, g1)
                 \<and> field (field item ''request'') ''body''
                     = JObj [(''mode'', JStr ''raw''), (''raw'', JStr (ser [] [] data))]))
        \<and> (nullish (field details ''requestBody'') \<longrightarrow>
             field (field item ''request'') ''body'' = JUndefined)"
proof -
  from request_item_body [OF assms] obtain g1 where
    b: "request_body fk sw details g0 = Inr (field (field item ''request'') ''body'', g1)"
    by blast
  show ?thesis
  proof (intro conjI allI impI)
    fix r schema
    assume "bodySchemaRef details = Inr (JStr r) \<and> r \<noteq> []
                \<and> map_of (schemas (components sw)) (last (split_on CHR ''/'' r)) = Some schema"
    then have "request_body fk sw details g0 =
        (case generateFakeData fk schema g0 of
           Inl e \<Rightarrow> Inl e
         | Inr (data, g') \<Rightarrow>
             Inr (JObj [(''mode'', JStr ''raw''), (''raw'', JStr (ser [] [] data))], g'))"
      by (simp add: request_body_reference)
    with b obtain data g' where "generateFakeData fk schema g0 = Inr (data, g')"
      "field (field item ''request'') ''body''
         = JObj [(''mode'', JStr ''raw''), (''raw'', JStr (ser [] [] data))]"
      by (cases "generateFakeData fk schema g0") (auto split: prod.splits)
    then show "\<exists>data g0 g1. generateFakeData fk schema g0 = Inr (data, g1)
                 \<and> field (field item ''request'') ''body''
                     = JObj [(''mode'', JStr ''raw''), (''raw'', JStr (ser [] [] data))]"
      by blast
  next
    assume "nullish (field details ''requestBody'')"
    then show "field (field item ''request'') ''body'' = JUndefined"
      using b by (rule request_body_none)
  qed
qed

lemma item_shape:
  assumes "request_item fk sw path verb details g0 = Inr (item, g1)"
  shows "field item ''name''
           = (if truthy (field details ''summary'') then field details ''summary'' else JStr path)"
    and "field (field item ''request'') ''method'' = JStr (toUpperCase verb)"
    and "field (field (field item ''request'') ''url'') ''raw'' = JStr (''{{base_url}}'' @ path)"
    and "field (field (field item ''request'') ''url'') ''host'' = JArr [JStr ''{{base_url}}'']"
    and "field (field (field item ''request'') ''url'') ''path''
           = JArr (map JStr (filter (\<lambda>s. s \<noteq> []) (split_on CHR ''/'' path)))"
    and "\<exists>vs. path_variables path = Inr vs
           \<and> field (field (field item ''request'') ''url'') ''variable'' = JArr vs"
  using assms by (auto simp: request_item_def field_JObj split: sum.splits)

lemma pets_petId_variables:
  "path_variables ''/pets/{petId}''
     = Inr [JObj [(''key'', JStr ''petId''), (''value'', JStr []), (''description'', JStr [])]]"
  by (simp add: path_variables_def path_variable_def slice_inner_def line_terminator_def)

lemma toUpperCase_post: "toUpperCase ''post'' = ''POST''"
  by code_simp

lemma filter_query_Inr:
  "filter_query ps = Inr qs \<Longrightarrow>
     qs = filter (\<lambda>p. field p ''in'' = JStr ''query'') ps \<and> (\<forall>p \<in> set ps. \<not> nullish p)"
proof (induction ps arbitrary: qs)
  case Nil
  then show ?case by simp
next
  case (Cons p ps)
  from Cons.prems obtain loc rest where l: "get_prop p ''in'' = Inr loc"
    and r: "filter_query ps = Inr rest"
    and q: "qs = (if loc = JStr ''query'' then p # rest else rest)"
    by (auto split: sum.splits)
  from l have n: "\<not> nullish p" by (cases p) auto
  from l have "loc = field p ''in''" by (simp add: field_def)
  with Cons.IH [OF r] q n show ?case by simp
qed

lemma query_entry_Inr:
  assumes "query_entry fk p g = Inr (q, g')"
  shows "query_entry_of fk p q \<and> \<not> nullish p \<and> \<not> nullish (field p ''schema'')"
proof -
  from assms obtain name t where n: "get_prop p ''name'' = Inr name"
    and t: "get_prop (field p ''schema'') ''type'' = Inr t"
    by (auto simp: query_entry_def split: sum.splits)
  from n have np: "\<not> nullish p" by (cases p) auto
  from t have ns: "\<not> nullish (field p ''schema'')" by (cases "field p ''schema''") auto
  from query_entry_total [OF np ns, of fk g] assms show ?thesis using np ns by auto
qed

lemma map_query_Inr:
  "map_query fk ps g = Inr (rs, g') \<Longrightarrow>
     list_all2 (query_entry_of fk) ps rs
     \<and> (\<forall>p \<in> set ps. \<not> nullish p \<and> \<not> nullish (field p ''schema''))"
proof (induction ps arbitrary: g rs)
  case Nil
  then show ?case by simp
next
  case (Cons p ps)
  from Cons.prems obtain q g1 rest where q: "query_entry fk p g = Inr (q, g1)"
    and r: "map_query fk ps g1 = Inr (rest, g')" and rs: "rs = q # rest"
    by (auto split: sum.splits)
  from query_entry_Inr [OF q] Cons.IH [OF r] show ?case unfolding rs by simp
qed

lemma queryParams_entries:
  assumes "queryParams fk details g = Inr (qs, g')"
  shows "list_all2 (query_entry_of fk)
           (filter (\<lambda>p. field p ''in'' = JStr ''query'')
              (case field details ''parameters'' of JArr ps \<Rightarrow> ps | _ \<Rightarrow> [])) qs"
proof -
  from assms obtain ps where p: "get_prop details ''parameters'' = Inr ps"
    by (auto simp: queryParams_def split: sum.splits)
  then have f: "field details ''parameters'' = ps" by (simp add: field_def)
  show ?thesis
  proof (cases "nullish ps")
    case True
    with assms p f show ?thesis by (cases ps) (auto simp: queryParams_def)
  next
    case False
    with assms p obtain xs where xs: "ps = JArr xs"
      by (cases ps) (auto simp: queryParams_def)
    with assms p obtain qs0 where q0: "filter_query xs = Inr qs0"
      and m: "map_query fk qs0 g = Inr (qs, g')"
      by (auto simp: queryParams_def split: sum.splits)
    from filter_query_Inr [OF q0] map_query_Inr [OF m] f xs show ?thesis by simp
  qed
qed

lemma queryParams_needs:
  assumes "get_prop details ''parameters'' = Inr (JArr ps)"
    and "queryParams fk details g = Inr (qs, g')"
  shows "\<forall>p \<in> set ps. \<not> nullish p
           \<and> (field p ''in'' = JStr ''query'' \<longrightarrow> \<not> nullish (field p ''schema''))"
proof -
  from assms obtain qs0 where q0: "filter_query ps = Inr qs0"
    and m: "map_query fk qs0 g = Inr (qs, g')"
    by (auto simp: queryParams_def split: sum.splits)
  from filter_query_Inr [OF q0] map_query_Inr [OF m] show ?thesis by auto
qed

lemma path_variables_template:
  assumes "CHR ''{'' \<notin> set tail"
    and "\<forall>(lit, name) \<in> set parts.
            CHR ''{'' \<notin> set lit \<and> CHR ''}'' \<notin> set name \<and> (\<forall>ch \<in> set name. \<not> line_terminator ch)"
  shows "path_variables (template parts tail)
        = Inr (map (\<lambda>(lit, name).
                 JObj [(''key'', JStr name), (''value'', JStr []), (''description'', JStr [])]) parts)"
proof -
  from assms have m: "match_braces (template parts tail) = map (\<lambda>(lit, name). CHR ''{'' # name @ ''}'') parts"
    by (simp add: match_braces_template)
  show ?thesis
  proof (cases parts)
    case Nil
    with assms show ?thesis by (simp add: path_variables_def)
  next
    case (Cons p ps)
    then have "CHR ''{'' \<in> set (template parts tail)" by (simp add: template_has_brace)
    moreover have "match_braces (template parts tail) \<noteq> []" using m Cons by simp
    ultimately show ?thesis
      using m
      by (auto simp: path_variables_def path_variable_def slice_inner_braces
          split: list.splits prod.splits)
  qed
qed

lemma list_pets_item:
  "request_item demo_faker pet_swagger ''/pets/{petId}'' ''get'' list_pets 0
     = Inr (JObj [(''name'', JStr ''/pets/{petId}''),
                             (''request'',
                                JObj [(''method'', JStr ''GET''),
                                      (''header'', JArr []),
                                      (''url'',
                                         JObj [(''raw'', JStr ''{{base_url}}/pets/{petId}''),
                                               (''host'', JArr [JStr ''{{base_url}}'']),
                                               (''path'', JArr [JStr ''pets'', JStr ''{petId}'']),
                                               (''query'',
                                                  JArr [JObj [(''key'', JStr ''limit''),
                                                              (''value'', JStr ''matrix''),
                                                              (''description'', JUndefined)],
                                                        JObj [(''key'', JStr ''tags''),
                                                              (''value'', JSON_stringify [] (JArr [JStr ''matrix''])),
                                                              (''description'', JStr ''tags to filter by'')]]),
                                               (''variable'',
                                                  JArr [JObj [(''key'', JStr ''petId''),
                                                              (''value'', JStr []),
                                                              (''description'', JStr [])]])]),
                                      (''body'', JUndefined)]),
                             (''response'', JArr [])], 2)"
proof -
  have v: "path_variables ''/pets/{petId}''
             = Inr [JObj [(''key'', JStr ''petId''), (''value'', JStr []), (''description'', JStr [])]]"
    by (simp add: path_variables_def path_variable_def slice_inner_def line_terminator_def)
  have b: "request_body demo_faker pet_swagger list_pets 0 = Inr (JUndefined, 0)"
    by (simp add: request_body_def bodySchemaRef_def list_pets_def)
  have q: "queryParams demo_faker list_pets 0
             = Inr ([JObj [(''key'', JStr ''limit''), (''value'', JStr ''matrix''), (''description'', JUndefined)],
                     JObj [(''key'', JStr ''tags''),
                           (''value'', JSON_stringify [] (JArr [JStr ''matrix''])),
                           (''description'', JStr ''tags to filter by'')]], 2)"
    by (simp add: queryParams_def list_pets_def query_entry_def field_JObj demo_faker_def
        numeral_2_eq_2)
  have s: "field list_pets ''summary'' = JUndefined" by (simp add: list_pets_def field_JObj)
  show ?thesis
    by (simp add: request_item_def b q v s toUpperCase_get)
qed

lemma add_pet_item:
  "request_item demo_faker pet_swagger ''/pets'' ''post'' add_pet 2
     = Inr (JObj [(''name'', JStr ''Add a pet''),
                             (''request'',
                                JObj [(''method'', JStr ''POST''),
                                      (''header'', JArr []),
                                      (''url'',
                                         JObj [(''raw'', JStr ''{{base_url}}/pets''),
                                               (''host'', JArr [JStr ''{{base_url}}'']),
                                               (''path'', JArr [JStr ''pets'']),
                                               (''query'', JArr []),
                                               (''variable'', JArr [])]),
                                      (''body'',
                                         JObj [(''mode'', JStr ''raw''),
                                               (''raw'', JSON_stringify []
                                                  (JObj [(''id'', JNum 2),
                                                         (''name'', JStr ''Sleek Steel Chair'')]))])]),
                             (''response'', JArr [])], 4)"
proof -
  have v: "path_variables ''/pets'' = Inr []"
    by (simp add: path_variables_def)
  have d: "generateFakeData demo_faker pet_schema 2
             = Inr (JObj [(''id'', JNum 2), (''name'', JStr ''Sleek Steel Chair'')], 4)"
    by (simp add: generateFakeData.simps pet_schema_def hasTypeProperty_def field_def
        demo_faker_def obj_assign_def eval_nat_numeral)
  have r: "bodySchemaRef add_pet = Inr (JStr ''#/components/schemas/Pet'')"
    by (simp add: bodySchemaRef_def add_pet_def field_def)
  have l: "lookup_schema pet_swagger (pop_key [''#'', ''components'', ''schemas'', ''Pet'']) = pet_schema"
    by (simp add: lookup_schema_def pet_swagger_def pop_key_def)
  have b: "request_body demo_faker pet_swagger add_pet 2
             = Inr (JObj [(''mode'', JStr ''raw''),
                          (''raw'', JSON_stringify []
                             (JObj [(''id'', JNum 2), (''name'', JStr ''Sleek Steel Chair'')]))], 4)"
    by (simp add: request_body_def r l d)
  have q: "queryParams demo_faker add_pet 4 = Inr ([], 4)"
    by (simp add: queryParams_def add_pet_def)
  have s: "field add_pet ''summary'' = JStr ''Add a pet''" by (simp add: add_pet_def field_JObj)
  show ?thesis
    by (simp add: request_item_def b q v s toUpperCase_post)
qed

lemma pet_collection_created:
  "createCollection demo_faker pet_swagger 0 = Inr (pet_collection, 4)"
proof -
  have p: "paths pet_swagger = [(''/pets/{petId}'', [(''get'', list_pets)]), (''/pets'', [(''post'', add_pet)])]"
    by (simp add: pet_swagger_def)
  show ?thesis
    by (simp add: createCollection_def p list_pets_item add_pet_item pet_collection_def)
qed

lemma pet_operations:
  "operations pet_swagger = [(''/pets/{petId}'', ''get'', list_pets), (''/pets'', ''post'', add_pet)]"
  by (simp add: operations_def pet_swagger_def)

lemma toys_collection_created:
  "\<exists>c. createCollection demo_faker toys_swagger 0 = Inr (c, 0)"
proof -
  have v: "path_variables ''/pets/{id}/toys/{id}''
     = Inr [JObj [(''key'', JStr ''id''), (''value'', JStr []), (''description'', JStr [])],
            JObj [(''key'', JStr ''id''), (''value'', JStr []), (''description'', JStr [])]]"
    by (simp add: path_variables_def path_variable_def slice_inner_def line_terminator_def)
  show ?thesis
    by (simp add: createCollection_def toys_swagger_def request_item_def request_body_def
        bodySchemaRef_def queryParams_def v)
qed

subsection \<open>Parsing what JSON.stringify writes: strings\<close>

lemma blank_simps [simp]: "blank []" "blank (c # w) = (is_ws c \<and> blank w)" "blank (u @ w) = (blank u \<and> blank w)"
  by (auto simp: blank_def)

lemma skip_ws_blank: "blank w \<Longrightarrow> skip_ws (w @ s) = skip_ws s"
  by (induction w) (auto simp: skip_ws_def)

lemma skip_ws_Cons: "\<not> is_ws c \<Longrightarrow> skip_ws (c # s) = c # s"
  by (simp add: skip_ws_def)

lemma skip_ws_Nil [simp]: "skip_ws [] = []"
  by (simp add: skip_ws_def)

lemma of_char_eq_iff: "(of_char c = (of_char d :: nat)) = (c = d)"
  by (metis char_of_char)

lemma hex_val_hex_digit: "d < 16 \<Longrightarrow> hex_val (hex_digit d) = Some d"
  by (auto simp: hex_val_def hex_digit_def Let_def)

lemma unicode_escape_control:
  "n < 32 \<Longrightarrow> unicode_escape CHR ''0'' CHR ''0'' (hex_digit (n div 16)) (hex_digit (n mod 16)) = Some (char_of n)"
proof -
  assume n: "n < 32"
  have z: "hex_val CHR ''0'' = Some 0" by (simp add: hex_val_def)
  have a: "hex_val (hex_digit (n div 16)) = Some (n div 16)"
    using n by (intro hex_val_hex_digit) simp
  have b: "hex_val (hex_digit (n mod 16)) = Some (n mod 16)"
    by (intro hex_val_hex_digit) simp
  show ?thesis using n by (simp add: unicode_escape_def z a b)
qed

lemma char_codes:
  "char_of (34 :: nat) = CHR 0x22" "char_of (92 :: nat) = CHR 0x5C" "char_of (8 :: nat) = CHR 0x08"
  "char_of (9 :: nat) = CHR 0x09" "char_of (10 :: nat) = CHR 0x0A" "char_of (12 :: nat) = CHR 0x0C"
  "char_of (13 :: nat) = CHR 0x0D"
  by code_simp+

lemma parse_chars_quote_char:
  "parse_chars (quote_char c @ t)
     = (case parse_chars t of None \<Rightarrow> None | Some (s, r) \<Rightarrow> Some (c # s, r))"
proof -
  define n where "n = (of_char c :: nat)"
  have c: "char_of n = c" by (simp add: n_def)
  consider "n = 0x22" | "n = 0x5C" | "n = 8" | "n = 9" | "n = 10" | "n = 12" | "n = 13"
    | "n < 0x20" "n \<noteq> 8" "n \<noteq> 9" "n \<noteq> 10" "n \<noteq> 12" "n \<noteq> 13"
    | "n \<ge> 0x20" "n \<noteq> 0x22" "n \<noteq> 0x5C"
    by linarith
  then show ?thesis
  proof cases
    case 8
    have q: "quote_char c = [CHR 0x5C, CHR ''u'', CHR ''0'', CHR ''0'', hex_digit (n div 16), hex_digit (n mod 16)]"
      using 8 by (simp add: quote_char_def n_def [symmetric])
    show ?thesis
      using 8(1) by (simp add: q unicode_escape_control c split: option.splits)
  next
    case 9
    then have q: "quote_char c = [c]"
      by (simp add: quote_char_def n_def [symmetric])
    show ?thesis using 9 by (simp add: q n_def [symmetric])
  qed (use c char_codes in \<open>auto simp: quote_char_def n_def [symmetric] unescape_def split: option.splits\<close>)
qed

lemma parse_chars_quoted:
  "parse_chars (concat (map quote_char s) @ CHR 0x22 # rest) = Some (s, rest)"
  by (induction s) (simp_all add: parse_chars_quote_char)

subsection \<open>Parsing what JSON.stringify writes: numbers\<close>

lemma of_char_digit_char: "d < 10 \<Longrightarrow> (of_char (digit_char d) :: nat) = 48 + d"
  by (simp add: digit_char_def)

lemma is_digit_digit_char: "d < 10 \<Longrightarrow> is_digit (digit_char d)"
  by (simp add: is_digit_def of_char_digit_char)

lemma digit_char_zero: "d < 10 \<Longrightarrow> (digit_char d = CHR ''0'') = (d = 0)"
proof -
  assume d: "d < 10"
  have "(digit_char d = CHR ''0'') = ((of_char (digit_char d) :: nat) = of_char CHR ''0'')"
    by (simp only: of_char_eq_iff)
  also have "\<dots> = (d = 0)" using d by (simp add: of_char_digit_char)
  finally show ?thesis .
qed

lemma digit_char_not_minus: "d < 10 \<Longrightarrow> digit_char d \<noteq> CHR ''-''"
proof
  assume d: "d < 10" and e: "digit_char d = CHR ''-''"
  then have "(of_char (digit_char d) :: nat) = of_char CHR ''-''" by simp
  with d show False by (simp add: of_char_digit_char)
qed

lemma read_digits_show_nat:
  "read_digits acc (show_nat n @ rest) = read_digits (acc * 10 ^ length (show_nat n) + n) rest"
proof (induction n arbitrary: acc rest rule: show_nat.induct)
  case (1 n)
  show ?case
  proof (cases "n < 10")
    case True
    then show ?thesis
      by (simp add: show_nat.simps [of n] is_digit_digit_char of_char_digit_char mult.commute)
  next
    case False
    have m: "n mod 10 < 10" by simp
    have "read_digits acc (show_nat n @ rest)
            = read_digits acc (show_nat (n div 10) @ (digit_char (n mod 10) # rest))"
      using False by (simp add: show_nat.simps [of n])
    also have "\<dots> = read_digits (acc * 10 ^ length (show_nat (n div 10)) + n div 10)
                        (digit_char (n mod 10) # rest)"
      using False by (simp add: "1.IH")
    also have "\<dots> = read_digits (10 * (acc * 10 ^ length (show_nat (n div 10)) + n div 10) + n mod 10) rest"
      by (simp add: is_digit_digit_char [OF m] of_char_digit_char [OF m])
    also have "10 * (acc * 10 ^ length (show_nat (n div 10)) + n div 10) + n mod 10
                 = acc * 10 ^ length (show_nat n) + n"
      using False by (simp add: show_nat.simps [of n] algebra_simps)
    finally show ?thesis .
  qed
qed

lemma show_nat_hd: "\<exists>d ds. show_nat n = digit_char d # ds \<and> d < 10 \<and> (d = 0 \<longrightarrow> n = 0)"
proof (induction n rule: show_nat.induct)
  case (1 n)
  show ?case
  proof (cases "n < 10")
    case True
    then show ?thesis by (auto simp: show_nat.simps [of n])
  next
    case False
    with "1.IH" obtain d ds where "show_nat (n div 10) = digit_char d # ds" "d < 10"
      "d = 0 \<longrightarrow> n div 10 = 0"
      by blast
    with False show ?thesis by (auto simp: show_nat.simps [of n])
  qed
qed

lemma delimited_integer_end: "delimited r \<Longrightarrow> integer_end r"
  by (cases r) (auto simp: delimited_def integer_end_def is_ws_def)

lemma delimited_read_digits: "delimited r \<Longrightarrow> read_digits acc r = (acc, r)"
  by (cases r) (auto simp: delimited_def is_digit_def is_ws_def Let_def)

lemma parse_nat_show_nat:
  assumes "delimited rest"
  shows "parse_nat (show_nat n @ rest) = Some (n, rest)"
proof -
  obtain d ds where s: "show_nat n = digit_char d # ds" and d: "d < 10" and z: "d = 0 \<longrightarrow> n = 0"
    using show_nat_hd by blast
  show ?thesis
  proof (cases "d = 0")
    case True
    with z have n: "n = 0" by simp
    moreover have "digit_char 0 = CHR ''0''" using digit_char_zero [of 0] by simp
    ultimately have "show_nat n = ''0''" by (simp add: show_nat.simps [of 0])
    then show ?thesis
      using assms n by (simp add: parse_nat_def is_digit_def delimited_integer_end)
  next
    case False
    have r: "read_digits 0 (show_nat n @ rest) = (n, rest)"
      using assms by (simp add: read_digits_show_nat delimited_read_digits)
    have "parse_nat (show_nat n @ rest) = parse_nat (digit_char d # ds @ rest)"
      by (simp add: s)
    also have "\<dots> = (case read_digits 0 (digit_char d # ds @ rest) of
                        (n, r) \<Rightarrow> if integer_end r then Some (n, r) else None)"
      using False d by (simp add: parse_nat_def is_digit_digit_char digit_char_zero)
    also have "\<dots> = Some (n, rest)"
      using r assms by (simp add: s delimited_integer_end)
    finally show ?thesis .
  qed
qed

lemma parse_number_show_int:
  assumes "delimited rest"
  shows "parse_number (show_int i @ rest) = Some (JNum i, rest)"
proof (cases "i < 0")
  case True
  then show ?thesis
    using parse_nat_show_nat [OF assms, of "nat (- i)"] by (simp add: show_int_def parse_number_def)
next
  case False
  obtain d ds where s: "show_nat (nat i) = digit_char d # ds" and d: "d < 10"
    using show_nat_hd by blast
  have "parse_number (show_nat (nat i) @ rest)
          = (case parse_nat (show_nat (nat i) @ rest) of
               None \<Rightarrow> None | Some (n, r) \<Rightarrow> Some (JNum (int n), r))"
    using digit_char_not_minus [OF d] by (simp add: parse_number_def s)
  with False show ?thesis
    using parse_nat_show_nat [OF assms, of "nat i"] by (simp add: show_int_def)
qed

subsection \<open>Parsing what JSON.stringify writes: values\<close>

lemma is_ws_newline: "is_ws (CHR 0x0A)"
  by (simp add: is_ws_def)

lemma blank_open_gap: "blank gap \<Longrightarrow> blank ind \<Longrightarrow> blank (open_gap gap ind)"
  by (simp add: open_gap_def is_ws_newline)

lemma blank_close_gap: "blank gap \<Longrightarrow> blank ind \<Longrightarrow> blank (close_gap gap ind)"
  by (simp add: close_gap_def is_ws_newline)

lemma wrap_parts:
  "parts \<noteq> [] \<Longrightarrow>
     wrap gap ind opn cls parts
       = opn # open_gap gap ind @ join (CHR '','' # open_gap gap ind) parts @ close_gap gap ind @ [cls]"
  by (simp add: wrap_def open_gap_def close_gap_def)

lemma digit_char_neq:
  "d < 10 \<Longrightarrow> (of_char c :: nat) < 48 \<or> 57 < (of_char c :: nat) \<Longrightarrow> digit_char d \<noteq> c"
  using of_char_digit_char [of d] by auto

lemma not_ws_digit: "d < 10 \<Longrightarrow> \<not> is_ws (digit_char d)"
  by (simp add: is_ws_def of_char_digit_char)

lemma literal_append: "literal word v (word @ rest) = Some (v, rest)"
  by (simp add: literal_def)

lemma parse_value_null:
  "blank w \<Longrightarrow> parse_value (Suc m) (w @ ''null'' @ rest) = Some (JNull, rest)"
  using literal_append [of "''null''" JNull rest]
  by (simp add: skip_ws_blank skip_ws_Cons is_ws_def)

lemma parse_value_bool:
  "blank w \<Longrightarrow> parse_value (Suc m) (w @ (if b then ''true'' else ''false'') @ rest) = Some (JBool b, rest)"
  using literal_append [of "''true''" "JBool True" rest] literal_append [of "''false''" "JBool False" rest]
  by (simp add: skip_ws_blank skip_ws_Cons is_ws_def)

lemma parse_value_string:
  "blank w \<Longrightarrow> parse_value (Suc m) (w @ quote s @ rest) = Some (JStr s, rest)"
  by (simp add: skip_ws_blank skip_ws_Cons is_ws_def quote_def parse_chars_quoted)

lemma parse_value_number:
  assumes "blank w" and "delimited rest"
  shows "parse_value (Suc m) (w @ show_int i @ rest) = Some (JNum i, rest)"
proof -
  obtain c t where s: "show_int i = c # t" and nw: "\<not> is_ws c"
    and ne: "c \<noteq> CHR ''{''" "c \<noteq> CHR ''[''" "c \<noteq> CHR 0x22" "c \<noteq> CHR ''t''" "c \<noteq> CHR ''f''"
      "c \<noteq> CHR ''n''"
  proof (cases "i < 0")
    case True
    then have "show_int i = CHR ''-'' # show_nat (nat (- i))" by (simp add: show_int_def)
    then show ?thesis by (rule that) (simp_all add: is_ws_def)
  next
    case False
    obtain d ds where "show_nat (nat i) = digit_char d # ds" and d: "d < 10"
      using show_nat_hd by blast
    with False have "show_int i = digit_char d # ds" by (simp add: show_int_def)
    then show ?thesis
      by (rule that) (simp_all add: not_ws_digit [OF d] digit_char_neq [OF d])
  qed
  have "parse_value (Suc m) (w @ show_int i @ rest) = parse_number (show_int i @ rest)"
    using assms(1) nw ne by (simp add: skip_ws_blank skip_ws_Cons s)
  then show ?thesis by (simp add: parse_number_show_int [OF assms(2)])
qed

lemma ser_first:
  "\<exists>c t. ser gap ind v = c # t \<and> \<not> is_ws c \<and> c \<noteq> CHR '']'' \<and> c \<noteq> CHR ''}''"
proof (cases v)
  case (JNum i)
  show ?thesis
  proof (cases "i < 0")
    case True
    then show ?thesis by (simp add: JNum show_int_def is_ws_def)
  next
    case False
    obtain d ds where "show_nat (nat i) = digit_char d # ds" and d: "d < 10"
      using show_nat_hd by blast
    with False show ?thesis
      by (simp add: JNum show_int_def not_ws_digit [OF d] digit_char_neq [OF d])
  qed
next
  case (JArr xs)
  then show ?thesis by (simp add: wrap_def is_ws_def)
next
  case (JObj kvs)
  then show ?thesis by (simp add: wrap_def is_ws_def)
qed (simp_all add: is_ws_def quote_def)

lemma obj_put_new: "k \<notin> fst ` set acc \<Longrightarrow> obj_put acc k v = acc @ [(k, v)]"
  by (induction acc) auto

lemma ser_props_empty: "(ser_props gap ind kvs = []) = (without_undefined_props kvs = [])"
  by (induction kvs) (auto split: if_splits)

lemma delimited_simps:
  "delimited (CHR '','' # r)" "delimited (CHR '']'' # r)" "delimited (CHR ''}'' # r)"
  "delimited []"
  by (simp_all add: delimited_def)

lemma delimited_blank: "blank po \<Longrightarrow> delimited r \<Longrightarrow> delimited (po @ r)"
  by (cases po) (auto simp: delimited_def)

lemma join_Cons: "ps \<noteq> [] \<Longrightarrow> join sep (p # ps) = p @ sep @ join sep ps"
  by (cases ps) simp_all

lemma skip_ws_value:
  "blank w \<Longrightarrow> \<exists>c t. skip_ws (w @ ser gap ind v @ r) = c # t \<and> c \<noteq> CHR '']'' \<and> c \<noteq> CHR ''}''"
  using ser_first [of gap ind v] by (auto simp: skip_ws_blank skip_ws_Cons)

lemma skip_ws_elems:
  assumes "blank w" and "xs \<noteq> []"
  shows "\<exists>c t. skip_ws (w @ join sep (ser_elems gap ind xs) @ r) = c # t \<and> c \<noteq> CHR '']''"
proof -
  from assms(2) obtain x ys where xs: "xs = x # ys" by (cases xs) auto
  show ?thesis
  proof (cases "ys = []")
    case True
    then show ?thesis using skip_ws_value [OF assms(1), of gap ind x r] by (auto simp: xs)
  next
    case False
    then have "ser_elems gap ind ys \<noteq> []" by (cases ys) auto
    then show ?thesis
      using skip_ws_value [OF assms(1), of gap ind x "sep @ join sep (ser_elems gap ind ys) @ r"]
      by (auto simp: xs join_Cons)
  qed
qed

lemma skip_ws_props:
  assumes "blank w" and "ser_props gap ind kvs \<noteq> []"
  shows "\<exists>t. skip_ws (w @ join sep (ser_props gap ind kvs) @ r) = CHR 0x22 # t"
proof -
  from assms(2) obtain p ps where ps: "ser_props gap ind kvs = p # ps"
    by (cases "ser_props gap ind kvs") auto
  have "\<exists>t. p = CHR 0x22 # t"
    using ps by (induction kvs) (auto simp: quote_def split: if_splits)
  then obtain t where p: "p = CHR 0x22 # t" by blast
  have nw: "\<not> is_ws (CHR 0x22)" by (simp add: is_ws_def)
  show ?thesis
    by (cases "ps = []") (simp_all add: ps p join_Cons skip_ws_blank [OF assms(1)] skip_ws_Cons [OF nw])
qed

lemma not_ws_punct:
  "\<not> is_ws (CHR ''['')" "\<not> is_ws (CHR '']'')" "\<not> is_ws (CHR ''{'')" "\<not> is_ws (CHR ''}'')"
  "\<not> is_ws (CHR '','')" "\<not> is_ws (CHR '':'')" "\<not> is_ws (CHR 0x22)"
  by (simp_all add: is_ws_def)

lemma parse_roundtrip:
  "blank gap \<Longrightarrow> blank ind \<Longrightarrow> distinct_keys v \<Longrightarrow> fuel_of v < n \<Longrightarrow> blank w \<Longrightarrow> delimited rest \<Longrightarrow>
     parse_value n (w @ ser gap ind v @ rest) = Some (without_undefined v, rest)"
  and "blank gap \<Longrightarrow> blank ind \<Longrightarrow> distinct_keys_elems xs \<Longrightarrow> xs \<noteq> [] \<Longrightarrow> fuel_of_elems xs < n \<Longrightarrow>
     blank w \<Longrightarrow> blank pr \<Longrightarrow> blank po \<Longrightarrow>
     parse_elements n acc (w @ join (CHR '','' # pr) (ser_elems gap ind xs) @ po @ CHR '']'' # rest)
       = Some (acc @ without_undefined_elems xs, rest)"
  and "blank gap \<Longrightarrow> blank ind \<Longrightarrow> distinct_keys_props kvs \<Longrightarrow> distinct (map fst kvs) \<Longrightarrow>
     fst ` set kvs \<inter> fst ` set acc' = {} \<Longrightarrow> ser_props gap ind kvs \<noteq> [] \<Longrightarrow>
     fuel_of_props kvs < n \<Longrightarrow> blank w \<Longrightarrow> blank pr \<Longrightarrow> blank po \<Longrightarrow>
     parse_members n acc' (w @ join (CHR '','' # pr) (ser_props gap ind kvs) @ po @ CHR ''}'' # rest)
       = Some (acc' @ without_undefined_props kvs, rest)"
proof (induction gap ind v and gap ind xs and gap ind kvs
    arbitrary: n w rest and n w rest acc pr po and n w rest acc' pr po
    rule: ser_ser_elems_ser_props.induct)
  case (1 gap ind)
  then obtain m where "n = Suc m" by (cases n) auto
  then show ?case using parse_value_null [OF "1.prems"(5), of m rest] by simp
next
  case (2 gap ind)
  then obtain m where "n = Suc m" by (cases n) auto
  then show ?case using parse_value_null [OF "2.prems"(5), of m rest] by simp
next
  case (3 gap ind b)
  then obtain m where "n = Suc m" by (cases n) auto
  then show ?case using parse_value_bool [OF "3.prems"(5), of m b rest] by simp
next
  case (4 gap ind i)
  then obtain m where "n = Suc m" by (cases n) auto
  then show ?case using parse_value_number [OF "4.prems"(5,6), of m i] by simp
next
  case (5 gap ind s)
  then obtain m where "n = Suc m" by (cases n) auto
  then show ?case using parse_value_string [OF "5.prems"(5), of m s rest] by simp
next
  case (6 gap ind xs)
  from "6.prems" obtain m where n: "n = Suc m" and m: "fuel_of_elems xs < m" by (cases n) auto
  note w = \<open>blank w\<close>
  show ?case
  proof (cases "xs = []")
    case True
    then show ?thesis
      by (simp add: n wrap_def skip_ws_blank [OF w] skip_ws_Cons not_ws_punct)
  next
    case False
    then have parts: "ser_elems gap (ind @ gap) xs \<noteq> []" by (cases xs) auto
    have wp: "blank (open_gap gap ind)" "blank (close_gap gap ind)"
      using "6.prems"(1,2) by (simp_all add: blank_open_gap blank_close_gap)
    define body where "body = open_gap gap ind @ join (CHR '','' # open_gap gap ind) (ser_elems gap (ind @ gap) xs)
                          @ close_gap gap ind @ CHR '']'' # rest"
    have shape: "w @ ser gap ind (JArr xs) @ rest = w @ CHR ''['' # body"
      by (simp add: wrap_parts [OF parts] body_def)
    obtain c t where first: "skip_ws body = c # t" "c \<noteq> CHR '']''"
      using skip_ws_elems [OF wp(1) False] unfolding body_def by blast
    have "parse_elements m [] body = Some ([] @ without_undefined_elems xs, rest)"
      unfolding body_def
      using "6.prems" False m wp by (intro "6.IH") simp_all
    then have "parse_value (Suc m) (w @ CHR ''['' # body) = Some (JArr (without_undefined_elems xs), rest)"
      using first by (simp add: skip_ws_blank [OF w] skip_ws_Cons not_ws_punct)
    then show ?thesis by (simp only: shape n without_undefined.simps)
  qed
next
  case (7 gap ind kvs)
  from "7.prems" obtain m where n: "n = Suc m" and m: "fuel_of_props kvs < m" by (cases n) auto
  note w = \<open>blank w\<close>
  show ?case
  proof (cases "ser_props gap (ind @ gap) kvs = []")
    case True
    then have "without_undefined_props kvs = []" by (simp add: ser_props_empty)
    with True show ?thesis
      by (simp add: n wrap_def skip_ws_blank [OF w] skip_ws_Cons not_ws_punct)
  next
    case False
    have wp: "blank (open_gap gap ind)" "blank (close_gap gap ind)"
      using "7.prems"(1,2) by (simp_all add: blank_open_gap blank_close_gap)
    define body where "body = open_gap gap ind @ join (CHR '','' # open_gap gap ind) (ser_props gap (ind @ gap) kvs)
                          @ close_gap gap ind @ CHR ''}'' # rest"
    have shape: "w @ ser gap ind (JObj kvs) @ rest = w @ CHR ''{'' # body"
      by (simp add: wrap_parts [OF False] body_def)
    obtain t where first: "skip_ws body = CHR 0x22 # t"
      using skip_ws_props [OF wp(1) False] unfolding body_def by blast
    have "parse_members m [] body = Some ([] @ without_undefined_props kvs, rest)"
      unfolding body_def
      using "7.prems" False m wp by (intro "7.IH") simp_all
    then have "parse_value (Suc m) (w @ CHR ''{'' # body) = Some (JObj (without_undefined_props kvs), rest)"
      using first by (simp add: skip_ws_blank [OF w] skip_ws_Cons not_ws_punct)
    then show ?thesis by (simp only: shape n without_undefined.simps)
  qed
next
  case (8 gap ind)
  then show ?case by simp
next
  case (9 gap ind x xs)
  from "9.prems" obtain m where n: "n = Suc m" and m: "fuel_of x < m" "fuel_of_elems xs < m"
    by (cases n) auto
  note w = \<open>blank w\<close>
  from "9.prems" have dk: "distinct_keys x" "distinct_keys_elems xs" by simp_all
  show ?case
  proof (cases "xs = []")
    case True
    have d: "delimited (po @ CHR '']'' # rest)"
      using "9.prems" by (simp add: delimited_blank delimited_simps)
    have "parse_value m (w @ ser gap ind x @ po @ CHR '']'' # rest)
            = Some (without_undefined x, po @ CHR '']'' # rest)"
      using "9.prems"(1,2) dk(1) m(1) w d by (rule "9.IH"(1))
    then show ?thesis
      using True "9.prems" by (simp add: n skip_ws_blank skip_ws_Cons not_ws_punct)
  next
    case False
    then have parts: "ser_elems gap ind xs \<noteq> []" by (cases xs) auto
    define tail where "tail = pr @ join (CHR '','' # pr) (ser_elems gap ind xs) @ po @ CHR '']'' # rest"
    have shape: "w @ join (CHR '','' # pr) (ser_elems gap ind (x # xs)) @ po @ CHR '']'' # rest
                  = w @ ser gap ind x @ CHR '','' # tail"
      by (simp add: join_Cons [OF parts] tail_def)
    have "parse_value m (w @ ser gap ind x @ CHR '','' # tail) = Some (without_undefined x, CHR '','' # tail)"
      using "9.prems"(1,2) dk(1) m(1) w delimited_simps(1) by (rule "9.IH"(1))
    moreover have "parse_elements m (acc @ [without_undefined x]) tail
            = Some ((acc @ [without_undefined x]) @ without_undefined_elems xs, rest)"
      unfolding tail_def
      using "9.prems"(1,2) dk(2) False m(2) "9.prems"(7,7,8) by (rule "9.IH"(2))
    ultimately have "parse_elements (Suc m) acc (w @ ser gap ind x @ CHR '','' # tail)
            = Some (acc @ without_undefined x # without_undefined_elems xs, rest)"
      by (simp add: skip_ws_Cons not_ws_punct)
    then show ?thesis by (simp only: shape n without_undefined_elems.simps)
  qed
next
  case (10 gap ind)
  then show ?case by simp
next
  case (11 gap ind k v kvs)
  note w = \<open>blank w\<close>
  show ?case
  proof (cases "v = JUndefined")
    case True
    have "parse_members n acc' (w @ join (CHR '','' # pr) (ser_props gap ind kvs) @ po @ CHR ''}'' # rest)
            = Some (acc' @ without_undefined_props kvs, rest)"
      using True "11.prems" by (intro "11.IH"(1)) simp_all
    with True show ?thesis by simp
  next
    case False
    from "11.prems" False obtain m where n: "n = Suc m" and m: "fuel_of v < m" "fuel_of_props kvs < m"
      by (cases n) auto
    from "11.prems" have dk: "distinct_keys v" "distinct_keys_props kvs" "distinct (map fst kvs)"
      and knew: "k \<notin> fst ` set kvs" "k \<notin> fst ` set acc'"
      and dj: "fst ` set kvs \<inter> fst ` set acc' = {}"
      by auto
    define sp where "sp = (if gap = [] then [] else '' '')"
    have wsp: "blank sp" by (simp add: sp_def is_ws_def)
    define tail where "tail =
       (if ser_props gap ind kvs = [] then po @ CHR ''}'' # rest
        else CHR '','' # pr @ join (CHR '','' # pr) (ser_props gap ind kvs) @ po @ CHR ''}'' # rest)"
    have shape: "w @ join (CHR '','' # pr) (ser_props gap ind ((k, v) # kvs)) @ po @ CHR ''}'' # rest
                  = w @ CHR 0x22 # concat (map quote_char k) @ CHR 0x22 # CHR '':'' # sp @ ser gap ind v @ tail"
      using False by (cases "ser_props gap ind kvs = []") (simp_all add: join_Cons tail_def sp_def quote_def)
    have dt: "delimited tail"
      using "11.prems" by (simp add: tail_def delimited_blank delimited_simps)
    have val: "parse_value m (sp @ ser gap ind v @ tail) = Some (without_undefined v, tail)"
      using False "11.prems"(1,2) dk(1) m(1) wsp dt by (rule "11.IH"(2))
    have put: "obj_put acc' k (without_undefined v) = acc' @ [(k, without_undefined v)]"
      using knew(2) by (rule obj_put_new)
    show ?thesis
    proof (cases "ser_props gap ind kvs = []")
      case True
      then have e: "without_undefined_props kvs = []" by (simp add: ser_props_empty)
      have "skip_ws tail = CHR ''}'' # rest"
        using True "11.prems" by (simp add: tail_def skip_ws_blank skip_ws_Cons not_ws_punct)
      then have "parse_members (Suc m) acc'
               (w @ CHR 0x22 # concat (map quote_char k) @ CHR 0x22 # CHR '':'' # sp @ ser gap ind v @ tail)
             = Some (acc' @ [(k, without_undefined v)], rest)"
        using val put
        by (simp add: skip_ws_blank [OF w] skip_ws_Cons not_ws_punct parse_chars_quoted)
      then show ?thesis using False e by (simp only: shape n) simp
    next
      case ne: False
      define tail' where "tail' = pr @ join (CHR '','' # pr) (ser_props gap ind kvs) @ po @ CHR ''}'' # rest"
      have st: "skip_ws tail = CHR '','' # tail'"
        using ne by (simp add: tail_def tail'_def skip_ws_Cons not_ws_punct)
      have dj': "fst ` set kvs \<inter> fst ` set (acc' @ [(k, without_undefined v)]) = {}"
        using dj knew(1) by auto
      have "parse_members m (acc' @ [(k, without_undefined v)]) tail'
              = Some ((acc' @ [(k, without_undefined v)]) @ without_undefined_props kvs, rest)"
        unfolding tail'_def
        using False "11.prems"(1,2) dk(2,3) dj' ne m(2) "11.prems"(9,9,10) by (rule "11.IH"(3))
      then have "parse_members (Suc m) acc'
               (w @ CHR 0x22 # concat (map quote_char k) @ CHR 0x22 # CHR '':'' # sp @ ser gap ind v @ tail)
             = Some (acc' @ (k, without_undefined v) # without_undefined_props kvs, rest)"
        using val put st
        by (simp add: skip_ws_blank [OF w] skip_ws_Cons not_ws_punct parse_chars_quoted)
      then show ?thesis using False by (simp only: shape n) simp
    qed
  qed
qed

lemma length_join_Cons: "ps \<noteq> [] \<Longrightarrow> length (join sep (p # ps)) = length p + length sep + length (join sep ps)"
  by (simp add: join_Cons)

lemma fuel_of_length:
  "fuel_of v \<le> length (ser gap ind v)"
  "fuel_of_elems xs \<le> Suc (length (join (CHR '','' # pr) (ser_elems gap ind xs)))"
  "fuel_of_props kvs \<le> Suc (length (join (CHR '','' # pr) (ser_props gap ind kvs)))"
proof (induction gap ind v and gap ind xs and gap ind kvs arbitrary: and pr and pr
    rule: ser_ser_elems_ser_props.induct)
  case (6 gap ind xs)
  show ?case
  proof (cases "xs = []")
    case True
    then show ?thesis by (simp add: wrap_def)
  next
    case False
    then have parts: "ser_elems gap (ind @ gap) xs \<noteq> []" by (cases xs) auto
    show ?thesis
      using "6.IH" [of "open_gap gap ind"] by (simp add: wrap_parts [OF parts])
  qed
next
  case (7 gap ind kvs)
  show ?case
  proof (cases "ser_props gap (ind @ gap) kvs = []")
    case True
    then show ?thesis using "7.IH" [of "[]"] by (simp add: wrap_def)
  next
    case False
    show ?thesis
      using "7.IH" [of "open_gap gap ind"] by (simp add: wrap_parts [OF False])
  qed
next
  case (9 gap ind x xs)
  show ?case
  proof (cases "xs = []")
    case True
    then show ?thesis using "9.IH"(1) by simp
  next
    case False
    then have parts: "ser_elems gap ind xs \<noteq> []" by (cases xs) auto
    show ?thesis
      using "9.IH"(1) "9.IH"(2) [of pr] by (simp add: length_join_Cons [OF parts])
  qed
next
  case (11 gap ind k v kvs)
  show ?case
  proof (cases "v = JUndefined")
    case True
    then show ?thesis using "11.IH"(1) [of pr] by simp
  next
    case False
    show ?thesis
    proof (cases "ser_props gap ind kvs = []")
      case True
      then show ?thesis using False "11.IH"(2) "11.IH"(3) [of pr] by simp
    next
      case ne: False
      show ?thesis
        using False "11.IH"(2) "11.IH"(3) [of pr] by (simp add: length_join_Cons [OF ne])
    qed
  qed
qed simp_all

lemma JSON_parse_ser:
  assumes "blank gap" and "distinct_keys v"
  shows "JSON_parse (ser gap [] v) = Some (without_undefined v)"
proof -
  have "fuel_of v < Suc (length (ser gap [] v))"
    using fuel_of_length(1) [of v gap "[]"] by simp
  then have "parse_value (Suc (length (ser gap [] v))) ([] @ ser gap [] v @ [])
          = Some (without_undefined v, [])"
    using assms by (intro parse_roundtrip(1)) (simp_all add: delimited_simps)
  then show ?thesis by (simp add: JSON_parse_def del: parse_value.simps)
qed

lemma without_undefined_id:
  "no_undefined v \<Longrightarrow> without_undefined v = v"
  "no_undefined_elems xs \<Longrightarrow> without_undefined_elems xs = xs"
  "no_undefined_props kvs \<Longrightarrow> without_undefined_props kvs = kvs"
  by (induction v and xs and kvs rule: no_undefined_no_undefined_elems_no_undefined_props.induct) auto

lemma without_undefined_defined:
  "no_undefined (without_undefined v)"
  "no_undefined_elems (without_undefined_elems xs)"
  "no_undefined_props (without_undefined_props kvs)"
  by (induction v and xs and kvs
      rule: without_undefined_without_undefined_elems_without_undefined_props.induct) auto

lemma without_undefined_changes: "v \<noteq> JUndefined \<Longrightarrow> (without_undefined v = v) = no_undefined v"
  using without_undefined_id(1) [of v] without_undefined_defined(1) [of v] by auto

subsection \<open>The generated documents have distinct keys\<close>

lemma distinct_keys_elems_iff: "distinct_keys_elems xs = (\<forall>x \<in> set xs. distinct_keys x)"
  by (induction xs) auto

lemma distinct_keys_map_of:
  "distinct_keys_props kvs \<Longrightarrow> map_of kvs k = Some x \<Longrightarrow> distinct_keys x"
  by (induction kvs) (auto split: if_splits)

lemma distinct_keys_field: "distinct_keys v \<Longrightarrow> distinct_keys (field v k)"
  by (cases v) (auto simp: field_def dest: distinct_keys_map_of split: option.splits)

lemma filter_query_subset: "filter_query xs = Inr qs \<Longrightarrow> set qs \<subseteq> set xs"
  by (induction xs arbitrary: qs) (auto split: sum.splits if_splits)

lemma distinct_keys_stringify: "distinct_keys (JSON_stringify gap v)"
  by (simp add: JSON_stringify_def)

lemma get_prop_Inr_field: "get_prop v k = Inr x \<Longrightarrow> x = field v k"
  by (simp add: field_def)

lemma query_entry_distinct:
  assumes "query_entry fk p g = Inr (q, g')" and "distinct_keys p"
  shows "distinct_keys q"
proof -
  from assms(1) obtain val where
    "q = JObj [(''key'', field p ''name''), (''value'', val), (''description'', field p ''description'')]"
    and "val = JStr (fst (random_word fk g)) \<or> val = JSON_stringify [] (JArr [JStr (fst (random_word fk g))])"
    by (auto simp: query_entry_def split: sum.splits prod.splits if_splits dest!: get_prop_Inr_field)
  then show ?thesis
    using distinct_keys_field [OF assms(2)] by (auto simp: distinct_keys_stringify)
qed

lemma map_query_distinct:
  "map_query fk ps g = Inr (qs, g') \<Longrightarrow> \<forall>p \<in> set ps. distinct_keys p \<Longrightarrow> distinct_keys_elems qs"
proof (induction ps arbitrary: g qs)
  case Nil
  then show ?case by simp
next
  case (Cons p ps)
  then show ?case
    by (auto split: sum.splits prod.splits dest: query_entry_distinct)
qed

lemma queryParams_distinct:
  assumes "queryParams fk details g = Inr (qs, g')" and "distinct_keys details"
  shows "distinct_keys_elems qs"
proof (cases "nullish (field details ''parameters'')")
  case True
  with assms(1) show ?thesis
    by (auto simp: queryParams_def field_def split: sum.splits)
next
  case False
  from assms(1) obtain xs fs where x: "field details ''parameters'' = JArr xs"
    and f: "filter_query xs = Inr fs" and m: "map_query fk fs g = Inr (qs, g')"
    using False
    by (auto simp: queryParams_def field_def split: sum.splits json.splits if_splits)
  have "distinct_keys (JArr xs)" using distinct_keys_field [OF assms(2), of "''parameters''"] x by simp
  then have "\<forall>p \<in> set fs. distinct_keys p"
    using filter_query_subset [OF f] by (auto simp: distinct_keys_elems_iff)
  with m show ?thesis by (rule map_query_distinct)
qed

lemma request_body_distinct: "request_body fk sw details g = Inr (b, g') \<Longrightarrow> distinct_keys b"
  by (auto simp: request_body_def distinct_keys_stringify
      split: sum.splits if_splits json.splits prod.splits)

lemma path_variables_distinct: "path_variables path = Inr vs \<Longrightarrow> distinct_keys_elems vs"
  by (auto simp: path_variables_def path_variable_def distinct_keys_elems_iff
      split: if_splits list.splits)

lemma distinct_keys_strings: "distinct_keys_elems (map JStr ss)"
  by (simp add: distinct_keys_elems_iff)

lemma request_item_distinct:
  assumes "request_item fk sw path verb details g = Inr (item, g')" and "distinct_keys details"
  shows "distinct_keys item"
proof -
  from assms(1) obtain body g1 query variable where
    b: "request_body fk sw details g = Inr (body, g1)"
    and q: "queryParams fk details g1 = Inr (query, g')"
    and v: "path_variables path = Inr variable"
    and i: "item = JObj
       [(''name'', if truthy (field details ''summary'') then field details ''summary'' else JStr path),
        (''request'',
           JObj [(''method'', JStr (toUpperCase verb)),
                 (''header'', JArr []),
                 (''url'',
                    JObj [(''raw'', JStr (''{{base_url}}'' @ path)),
                          (''host'', JArr [JStr ''{{base_url}}'']),
                          (''path'', JArr (map JStr (filter (\<lambda>s. s \<noteq> []) (split_on CHR ''/'' path)))),
                          (''query'', JArr query),
                          (''variable'', JArr variable)]),
                 (''body'', body)]),
        (''response'', JArr [])]"
    by (auto simp: request_item_def split: sum.splits)
  show ?thesis
    unfolding i
    using request_body_distinct [OF b] queryParams_distinct [OF q assms(2)]
      path_variables_distinct [OF v] distinct_keys_field [OF assms(2), of "''summary''"]
    by (simp add: distinct_keys_strings)
qed

lemma map_methods_distinct:
  "map_methods fk sw path ms g = Inr (its, g') \<Longrightarrow>
     list_all (\<lambda>(verb, details). distinct_keys details) ms \<Longrightarrow> distinct_keys_elems its"
proof (induction ms arbitrary: g its)
  case Nil
  then show ?case by simp
next
  case (Cons m ms)
  obtain verb details where m: "m = (verb, details)" by (cases m)
  from Cons.prems show ?case
    unfolding m
    by (auto split: sum.splits prod.splits dest: request_item_distinct Cons.IH)
qed

lemma distinct_keys_elems_append:
  "distinct_keys_elems (xs @ ys) = (distinct_keys_elems xs \<and> distinct_keys_elems ys)"
  by (auto simp: distinct_keys_elems_iff)

lemma flatMap_paths_distinct:
  "flatMap_paths fk sw ps g = Inr (its, g') \<Longrightarrow>
     list_all (\<lambda>(path, ms). list_all (\<lambda>(verb, details). distinct_keys details) ms) ps \<Longrightarrow>
     distinct_keys_elems its"
proof (induction ps arbitrary: g its)
  case Nil
  then show ?case by simp
next
  case (Cons p ps)
  obtain path ms where p: "p = (path, ms)" by (cases p)
  from Cons.prems show ?case
    unfolding p
    by (auto simp: distinct_keys_elems_append split: sum.splits prod.splits
        dest: map_methods_distinct Cons.IH)
qed

lemma createCollection_distinct:
  assumes "createCollection fk sw g = Inr (c, g')" and "distinct_keys_swagger sw"
  shows "distinct_keys c \<and> c \<noteq> JUndefined"
  using assms
  by (auto simp: createCollection_def distinct_keys_swagger_def
      split: sum.splits prod.splits dest: flatMap_paths_distinct)

lemma saveToFile_text:
  assumes "distinct_keys d" and "d \<noteq> JUndefined" and "write_failure w filename = None"
  shows "\<exists>text. saveToFile filename d w = (None, w\<lparr> written := written w @ [(filename, text)] \<rparr>)
           \<and> JSON_parse text = Some (without_undefined d)"
proof -
  have "blank ''  ''" by (simp add: is_ws_def)
  then have "JSON_parse (ser ''  '' [] d) = Some (without_undefined d)"
    using assms(1) by (rule JSON_parse_ser)
  then show ?thesis
    using assms(2,3)
    by (intro exI [of _ "ser ''  '' [] d"]) (simp add: saveToFile_def JSON_stringify_def)
qed

lemma small_collection_created: "createCollection demo_faker small_swagger 0 = Inr (small_collection, 0)"
  by (simp add: createCollection_def small_swagger_def small_collection_def request_item_def
      request_body_def bodySchemaRef_def queryParams_def path_variables_def field_JObj
      toUpperCase_get)

subsection \<open>The run does not depend on the writes\<close>

lemma same_but_writes_refl: "same_but_writes w (w\<lparr> write_failure := f \<rparr>)"
  by (simp add: same_but_writes_def)

lemma not_awaited_same:
  "same_but_writes w w' \<Longrightarrow>
     same_but_writes (not_awaited (saveToFile filename d w)) (not_awaited (saveToFile filename d w'))"
  by (auto simp: same_but_writes_def not_awaited_def saveToFile_def
      split: json.splits option.splits)

lemma console_log_same:
  "same_but_writes w w' \<Longrightarrow> same_but_writes (console_log x w) (console_log x w')"
  by (simp add: same_but_writes_def console_log_def)

lemma for_servers_same:
  "same_but_writes w w' \<Longrightarrow>
     fst (for_servers url_host ss w) = fst (for_servers url_host ss w')
     \<and> same_but_writes (snd (for_servers url_host ss w)) (snd (for_servers url_host ss w'))"
proof (induction ss arbitrary: w w')
  case Nil
  then show ?case by simp
next
  case (Cons s ss)
  show ?case
  proof (cases "createEnvironment url_host (url s)")
    case (Inl e)
    then show ?thesis using Cons.prems by simp
  next
    case (Inr environment)
    show ?thesis
    proof (cases "url_host (url s)")
      case None
      then show ?thesis using Inr Cons.prems by (simp add: console_log_same)
    next
      case (Some h)
      have "same_but_writes
              (not_awaited (saveToFile (''environment_'' @ h @ ''.json'') environment
                 (console_log (Inspected environment) w)))
              (not_awaited (saveToFile (''environment_'' @ h @ ''.json'') environment
                 (console_log (Inspected environment) w')))"
        using Cons.prems by (intro not_awaited_same console_log_same)
      from Cons.IH [OF this] show ?thesis using Inr Some by simp
    qed
  qed
qed

lemma main_same:
  assumes "same_but_writes w w'"
  shows "fst (main url_host fk w) = fst (main url_host fk w')
         \<and> same_but_writes (snd (main url_host fk w)) (snd (main url_host fk w'))"
proof (cases "swagger_read w")
  case (Inl e)
  then have "swagger_read w' = Inl e" using assms by (simp add: same_but_writes_def)
  with Inl show ?thesis using assms by (simp add: main_def fetchSwagger_def)
next
  case (Inr sw)
  then have r': "swagger_read w' = Inr sw" using assms by (simp add: same_but_writes_def)
  obtain r1 w1 where f: "for_servers url_host (servers sw) w = (r1, w1)"
    by (cases "for_servers url_host (servers sw) w")
  obtain r1' w1' where f': "for_servers url_host (servers sw) w' = (r1', w1')"
    by (cases "for_servers url_host (servers sw) w'")
  from for_servers_same [OF assms, of url_host "servers sw"] f f'
  have r: "r1' = r1" and s: "same_but_writes w1 w1'" by simp_all
  show ?thesis
  proof (cases r1)
    case (Some e)
    then show ?thesis using Inr r' f f' r s by (simp add: main_def fetchSwagger_def)
  next
    case None
    have g: "random w1' = random w1" using s by (simp add: same_but_writes_def)
    show ?thesis
    proof (cases "createCollection fk sw (random w1)")
      case (Inl e)
      then show ?thesis using Inr r' f f' r s None g by (simp add: main_def fetchSwagger_def)
    next
      case c: (Inr res)
      obtain collection g' where res: "res = (collection, g')" by (cases res)
      have "same_but_writes (console_log (Inspected collection) (w1\<lparr> random := g' \<rparr>))
              (console_log (Inspected collection) (w1'\<lparr> random := g' \<rparr>))"
        using s by (simp add: same_but_writes_def console_log_def)
      then have "same_but_writes
          (console_log (Line ''Environments and Collection created/updated successfully.'')
             (not_awaited (saveToFile ''collection_generated.json'' collection
                (console_log (Inspected collection) (w1\<lparr> random := g' \<rparr>)))))
          (console_log (Line ''Environments and Collection created/updated successfully.'')
             (not_awaited (saveToFile ''collection_generated.json'' collection
                (console_log (Inspected collection) (w1'\<lparr> random := g' \<rparr>)))))"
        by (intro console_log_same [where x = "Line _"] not_awaited_same)
      then show ?thesis
        using Inr r' f f' r None g c res by (simp add: main_def fetchSwagger_def Let_def)
    qed
  qed
qed

lemma run_ignores_write_failures:
  "fst (main url_host fk (w\<lparr> write_failure := f \<rparr>)) = fst (main url_host fk w)
   \<and> console_err (run url_host fk (w\<lparr> write_failure := f \<rparr>)) = console_err (run url_host fk w)
   \<and> console_out (run url_host fk (w\<lparr> write_failure := f \<rparr>)) = console_out (run url_host fk w)"
proof -
  have s: "same_but_writes w (w\<lparr> write_failure := f \<rparr>)" by (rule same_but_writes_refl)
  obtain r w1 where m: "main url_host fk w = (r, w1)" by (cases "main url_host fk w")
  obtain r' w1' where m': "main url_host fk (w\<lparr> write_failure := f \<rparr>) = (r', w1')"
    by (cases "main url_host fk (w\<lparr> write_failure := f \<rparr>)")
  from main_same [OF s, of url_host fk] m m'
  have "r' = r" "same_but_writes w1 w1'" by simp_all
  then show ?thesis
    using m m' by (cases r) (simp_all add: run_def same_but_writes_def)
qed

section \<open>The claims\<close>

subsection \<open>Claim C1\<close>

text \<open>
  Claim C1, as amended. The specification has every property whose declared type is
  missing or is none of string, integer, array and object fail with an error naming the
  property. The code throws only where \<open>hasTypeProperty\<close> fails. Take a schema whose
  property list is \<open>pre @ (key, val) # post\<close> and let the loop reach \<open>(key, val)\<close>, the
  properties \<open>pre\<close> before it having been generated. If \<open>val\<close> fails
  \<open>hasTypeProperty\<close> (it is falsy, or its type is missing or falsy),
  \<open>generateFakeData\<close> fails with the error \<^verbatim>\<open>Type property is missing for\<close> followed
  by the key. If \<open>val\<close> has a truthy type that is none of the four, nothing is raised
  and nothing is stored for the key: the result is what the remaining properties give. A
  node with no \<^verbatim>\<open>type\<close> field fails \<open>hasTypeProperty\<close>.
\<close>

theorem generateFakeData_missing_type:
  assumes "get_prop schema ''properties'' = Inr props"
    and "entries props = Inr (pre @ (key, val) # post)"
    and "fake_props fk pre [] g = Inr (d, g')"
  shows "(\<not> hasTypeProperty val \<longrightarrow>
            generateFakeData fk schema g = Inl (Error (''Type property is missing for '' @ key)))
       \<and> (hasTypeProperty val
            \<and> field val ''type'' \<notin> {JStr ''string'', JStr ''integer'', JStr ''array'', JStr ''object''} \<longrightarrow>
            generateFakeData fk schema g =
              (case fake_props fk post d g' of
                 Inl e \<Rightarrow> Inl e
               | Inr (data, g'') \<Rightarrow> Inr (JObj data, g'')))
       \<and> (\<forall>fields. map_of fields ''type'' = None \<longrightarrow> \<not> hasTypeProperty (JObj fields))"
  using assms
  by (simp add: generateFakeData.simps fake_props_append hasTypeProperty_def)

theorem generateFakeData_missing_type_witness:
  "get_prop (JObj [(''properties'', JObj [(''id'', JObj [(''type'', JStr ''integer'')]), (''tag'', JObj [])])])
      ''properties'' = Inr (JObj [(''id'', JObj [(''type'', JStr ''integer'')]), (''tag'', JObj [])])
   \<and> fake_props demo_faker [(''id'', JObj [(''type'', JStr ''integer'')])] [] 0 = Inr ([(''id'', JNum 0)], 1)
   \<and> \<not> hasTypeProperty (JObj [])
   \<and> generateFakeData demo_faker
        (JObj [(''properties'', JObj [(''id'', JObj [(''type'', JStr ''integer'')]), (''tag'', JObj [])])]) 0
      = Inl (Error ''Type property is missing for tag'')"
  using generateFakeData_missing_type
    [of "JObj [(''properties'', JObj [(''id'', JObj [(''type'', JStr ''integer'')]), (''tag'', JObj [])])]"
        "JObj [(''id'', JObj [(''type'', JStr ''integer'')]), (''tag'', JObj [])]"
        "[(''id'', JObj [(''type'', JStr ''integer'')])]" "''tag''" "JObj []" "[]"
        demo_faker 0 "[(''id'', JNum 0)]" 1]
  by (simp add: hasTypeProperty_def field_def demo_faker_def obj_assign_def)

theorem generateFakeData_other_type_counterexample:
  "generateFakeData demo_faker
     (JObj [(''properties'', JObj [(''flag'', JObj [(''type'', JStr ''boolean'')])])]) 0
   = Inr (JObj [], 0)"
  by (simp add: generateFakeData.simps hasTypeProperty_def field_def)

subsection \<open>Claim C2\<close>

text \<open>
  Claim C2, as amended. For a schema that is valid all the way down (its properties are
  of type string, integer, array or object, every array has a truthy \<^verbatim>\<open>items\<close> that is
  again such a schema, every object-typed property has its own \<^verbatim>\<open>properties\<close>, keys are
  distinct and none is \<^verbatim>\<open>__proto__\<close>), \<open>generateFakeData\<close> returns an object whose keys
  are the declared property names, in the same order, and whose value at each key matches
  the declared type: a string, a number, a one-element sequence holding an object, a
  nested mapping.
\<close>

theorem generateFakeData_keys_and_types:
  assumes "valid_schema schema"
  shows "\<exists>d g'. generateFakeData fk schema g = Inr (JObj d, g')
           \<and> map fst d = map fst (declared schema)
           \<and> (\<forall>(k, node) \<in> set (declared schema). \<exists>x. map_of d k = Some x \<and> value_matches node x)"
  using assms by (rule generateFakeData_valid(1))

theorem generateFakeData_keys_and_types_witness:
  "valid_schema order_schema
   \<and> (\<exists>d g'. generateFakeData demo_faker order_schema 0 = Inr (JObj d, g')
         \<and> map fst d = [''id'', ''note'', ''lines'', ''buyer''])"
proof -
  from generateFakeData_keys_and_types [OF order_schema_valid, of demo_faker 0]
  obtain d g' where "generateFakeData demo_faker order_schema 0 = Inr (JObj d, g')"
    and "map fst d = map fst (declared order_schema)"
    by blast
  then show ?thesis
    using order_schema_valid order_schema_declared by auto
qed

theorem generateFakeData_array_without_items_counterexample:
  "generateFakeData demo_faker
     (JObj [(''properties'', JObj [(''tags'', JObj [(''type'', JStr ''array'')])])]) 0
     = Inr (JObj [], 0)
   \<and> map fst (declared (JObj [(''properties'', JObj [(''tags'', JObj [(''type'', JStr ''array'')])])]))
     = [''tags'']"
  by (simp add: generateFakeData.simps hasTypeProperty_def field_def declared_def)

subsection \<open>Claim C3\<close>

text \<open>
  Claim C3. In every collection that \<open>createCollection\<close> returns, the items are the
  operations of the Spec, one for one and in order. Where the chain
  \<^verbatim>\<open>requestBody.content["application/json"].schema.$ref\<close> of an operation is a non-empty
  string \<open>r\<close>, and the last \<^verbatim>\<open>/\<close>-separated segment of \<open>r\<close> names a schema of
  \<^verbatim>\<open>components.schemas\<close>, the body of its item is the raw-mode object whose \<^verbatim>\<open>raw\<close> is
  the JSON text of fake data that the generator returns for that schema. Where an
  operation has no request body, the body of its item is \<^verbatim>\<open>undefined\<close>. The other
  conjuncts say the same of the callback that makes one item: the body it computes for
  such a reference is the generator's result for the schema, wrapped (an error of the
  generator is the error of the body); for no request body it is \<^verbatim>\<open>undefined\<close>; and
  the body of the item it returns is the body so computed.
\<close>

theorem request_body_from_reference:
  "(createCollection fk sw g = Inr (c, g') \<longrightarrow>
      list_all2
        (\<lambda>(path, verb, details) item.
           (\<forall>r schema.
              bodySchemaRef details = Inr (JStr r) \<and> r \<noteq> []
                \<and> map_of (schemas (components sw)) (last (split_on CHR ''/'' r)) = Some schema \<longrightarrow>
              (\<exists>data g0 g1. generateFakeData fk schema g0 = Inr (data, g1)
                 \<and> field (field item ''request'') ''body''
                     = JObj [(''mode'', JStr ''raw''), (''raw'', JStr (ser [] [] data))]))
           \<and> (nullish (field details ''requestBody'') \<longrightarrow>
                field (field item ''request'') ''body'' = JUndefined))
        (operations sw) (items_of c))
   \<and> (bodySchemaRef details = Inr (JStr r) \<and> r \<noteq> []
      \<and> map_of (schemas (components sw)) (last (split_on CHR ''/'' r)) = Some schema \<longrightarrow>
      request_body fk sw details g =
        (case generateFakeData fk schema g of
           Inl e \<Rightarrow> Inl e
         | Inr (data, g') \<Rightarrow>
             Inr (JObj [(''mode'', JStr ''raw''), (''raw'', JStr (ser [] [] data))], g')))
   \<and> (get_prop details ''requestBody'' = Inr rb \<and> nullish rb \<longrightarrow>
        request_body fk sw details g = Inr (JUndefined, g))
   \<and> (request_item fk sw path verb details g = Inr (item, g2) \<longrightarrow>
        (\<exists>g1. request_body fk sw details g = Inr (field (field item ''request'') ''body'', g1)))"
proof (intro conjI impI)
  assume a: "createCollection fk sw g = Inr (c, g')"
  show "list_all2
        (\<lambda>(path, verb, details) item.
           (\<forall>r schema.
              bodySchemaRef details = Inr (JStr r) \<and> r \<noteq> []
                \<and> map_of (schemas (components sw)) (last (split_on CHR ''/'' r)) = Some schema \<longrightarrow>
              (\<exists>data g0 g1. generateFakeData fk schema g0 = Inr (data, g1)
                 \<and> field (field item ''request'') ''body''
                     = JObj [(''mode'', JStr ''raw''), (''raw'', JStr (ser [] [] data))]))
           \<and> (nullish (field details ''requestBody'') \<longrightarrow>
                field (field item ''request'') ''body'' = JUndefined))
        (operations sw) (items_of c)"
  proof (rule list_all2_mono [OF createCollection_items [OF a]])
    fix op item
    assume "(case op of (path, verb, details) \<Rightarrow> \<lambda>item.
               \<exists>g0 g1. request_item fk sw path verb details g0 = Inr (item, g1)) item"
    then obtain path verb details g0 g1 where op: "op = (path, verb, details)"
      and i: "request_item fk sw path verb details g0 = Inr (item, g1)"
      by (auto split: prod.splits)
    from item_body [OF i]
    show "(case op of (path, verb, details) \<Rightarrow> \<lambda>item.
           (\<forall>r schema.
              bodySchemaRef details = Inr (JStr r) \<and> r \<noteq> []
                \<and> map_of (schemas (components sw)) (last (split_on CHR ''/'' r)) = Some schema \<longrightarrow>
              (\<exists>data g0 g1. generateFakeData fk schema g0 = Inr (data, g1)
                 \<and> field (field item ''request'') ''body''
                     = JObj [(''mode'', JStr ''raw''), (''raw'', JStr (ser [] [] data))]))
           \<and> (nullish (field details ''requestBody'') \<longrightarrow>
                field (field item ''request'') ''body'' = JUndefined)) item"
      by (simp only: op prod.case)
  qed
next
  assume "bodySchemaRef details = Inr (JStr r) \<and> r \<noteq> []
      \<and> map_of (schemas (components sw)) (last (split_on CHR ''/'' r)) = Some schema"
  then show "request_body fk sw details g =
        (case generateFakeData fk schema g of
           Inl e \<Rightarrow> Inl e
         | Inr (data, g') \<Rightarrow>
             Inr (JObj [(''mode'', JStr ''raw''), (''raw'', JStr (ser [] [] data))], g'))"
    by (simp add: request_body_reference)
next
  assume "get_prop details ''requestBody'' = Inr rb \<and> nullish rb"
  then show "request_body fk sw details g = Inr (JUndefined, g)"
    by (simp add: request_body_def bodySchemaRef_def)
next
  assume "request_item fk sw path verb details g = Inr (item, g2)"
  then show "\<exists>g1. request_body fk sw details g = Inr (field (field item ''request'') ''body'', g1)"
    by (rule request_item_body)
qed

theorem request_body_from_reference_witness:
  "bodySchemaRef add_pet = Inr (JStr ''#/components/schemas/Pet'')
   \<and> map_of (schemas (components pet_swagger)) (last (split_on CHR ''/'' ''#/components/schemas/Pet''))
       = Some pet_schema
   \<and> request_body demo_faker pet_swagger add_pet 0
       = Inr (JObj [(''mode'', JStr ''raw''),
                    (''raw'', JStr (ser [] [] (JObj [(''id'', JNum 0), (''name'', JStr ''Sleek Steel Chair'')])))],
              2)
   \<and> get_prop list_pets ''requestBody'' = Inr JUndefined
   \<and> request_body demo_faker pet_swagger list_pets 0 = Inr (JUndefined, 0)
   \<and> createCollection demo_faker pet_swagger 0 = Inr (pet_collection, 4)
   \<and> operations pet_swagger = [(''/pets/{petId}'', ''get'', list_pets), (''/pets'', ''post'', add_pet)]
   \<and> (\<exists>item1 item2. items_of pet_collection = [item1, item2]
         \<and> field (field item1 ''request'') ''body'' = JUndefined
         \<and> (\<exists>data g0 g1. generateFakeData demo_faker pet_schema g0 = Inr (data, g1)
               \<and> field (field item2 ''request'') ''body''
                   = JObj [(''mode'', JStr ''raw''), (''raw'', JStr (ser [] [] data))]))
   \<and> (\<exists>item g1. request_item demo_faker pet_swagger ''/pets'' ''post'' add_pet 2 = Inr (item, 4)
         \<and> request_body demo_faker pet_swagger add_pet 2
             = Inr (field (field item ''request'') ''body'', g1))"
proof -
  have b: "bodySchemaRef add_pet = Inr (JStr ''#/components/schemas/Pet'')"
    by (simp add: bodySchemaRef_def add_pet_def field_def)
  have c: "map_of (schemas (components pet_swagger))
             (last (split_on CHR ''/'' ''#/components/schemas/Pet'')) = Some pet_schema"
    by (simp add: pet_swagger_def)
  have d: "generateFakeData demo_faker pet_schema 0
             = Inr (JObj [(''id'', JNum 0), (''name'', JStr ''Sleek Steel Chair'')], 2)"
    by (simp add: generateFakeData.simps pet_schema_def hasTypeProperty_def field_def
        demo_faker_def obj_assign_def)
  have e: "get_prop list_pets ''requestBody'' = Inr JUndefined"
    by (simp add: list_pets_def)
  have n: "nullish (field list_pets ''requestBody'')"
    by (simp add: list_pets_def field_JObj)
  note T1 = request_body_from_reference
    [where details = add_pet and r = "''#/components/schemas/Pet''" and sw = pet_swagger
       and schema = pet_schema and fk = demo_faker and g = 0 and c = pet_collection and g' = 4]
  note T2 = request_body_from_reference
    [where details = list_pets and rb = JUndefined and sw = pet_swagger and fk = demo_faker and g = 0]
  from T1 pet_collection_created pet_operations
  have "list_all2
        (\<lambda>(path, verb, details) item.
           (\<forall>r schema.
              bodySchemaRef details = Inr (JStr r) \<and> r \<noteq> []
                \<and> map_of (schemas (components pet_swagger)) (last (split_on CHR ''/'' r)) = Some schema \<longrightarrow>
              (\<exists>data g0 g1. generateFakeData demo_faker schema g0 = Inr (data, g1)
                 \<and> field (field item ''request'') ''body''
                     = JObj [(''mode'', JStr ''raw''), (''raw'', JStr (ser [] [] data))]))
           \<and> (nullish (field details ''requestBody'') \<longrightarrow>
                field (field item ''request'') ''body'' = JUndefined))
        [(''/pets/{petId}'', ''get'', list_pets), (''/pets'', ''post'', add_pet)]
        (items_of pet_collection)"
    by simp
  then obtain item1 item2 where i: "items_of pet_collection = [item1, item2]"
    and i1: "nullish (field list_pets ''requestBody'') \<longrightarrow>
                field (field item1 ''request'') ''body'' = JUndefined"
    and i2: "\<forall>r schema.
              bodySchemaRef add_pet = Inr (JStr r) \<and> r \<noteq> []
                \<and> map_of (schemas (components pet_swagger)) (last (split_on CHR ''/'' r)) = Some schema \<longrightarrow>
              (\<exists>data g0 g1. generateFakeData demo_faker schema g0 = Inr (data, g1)
                 \<and> field (field item2 ''request'') ''body''
                     = JObj [(''mode'', JStr ''raw''), (''raw'', JStr (ser [] [] data))])"
    by (auto simp: list_all2_Cons1)
  from i2 b c have "\<exists>data g0 g1. generateFakeData demo_faker pet_schema g0 = Inr (data, g1)
                 \<and> field (field item2 ''request'') ''body''
                     = JObj [(''mode'', JStr ''raw''), (''raw'', JStr (ser [] [] data))]"
    by blast
  with i i1 n have "\<exists>item1 item2. items_of pet_collection = [item1, item2]
         \<and> field (field item1 ''request'') ''body'' = JUndefined
         \<and> (\<exists>data g0 g1. generateFakeData demo_faker pet_schema g0 = Inr (data, g1)
               \<and> field (field item2 ''request'') ''body''
                   = JObj [(''mode'', JStr ''raw''), (''raw'', JStr (ser [] [] data))])"
    by blast
  moreover from add_pet_item obtain item where
    it: "request_item demo_faker pet_swagger ''/pets'' ''post'' add_pet 2 = Inr (item, 4)"
    by blast
  from request_body_from_reference
    [where fk = demo_faker and sw = pet_swagger and path = "''/pets''" and verb = "''post''"
       and details = add_pet and g = 2 and item = item and ?g2.0 = 4] it
  have "\<exists>item g1. request_item demo_faker pet_swagger ''/pets'' ''post'' add_pet 2 = Inr (item, 4)
         \<and> request_body demo_faker pet_swagger add_pet 2
             = Inr (field (field item ''request'') ''body'', g1)"
    by blast
  ultimately show ?thesis
    using T1 [THEN conjunct2] T2 [THEN conjunct2] b c d e pet_collection_created pet_operations
    by simp
qed

subsection \<open>Claim C4\<close>

text \<open>
  Claim C4. In every collection that \<open>createCollection\<close> returns, the items are the
  operations of the Spec, one for one and in order, and the item of an operation is
  named by the operation's summary when it is truthy and by the raw path otherwise,
  carries the method in upper case, the raw URL \<^verbatim>\<open>{{base_url}}\<close> followed by the path,
  the host \<^verbatim>\<open>{{base_url}}\<close> and the non-empty segments of the path. The upper case is
  stated for the method names that hold neither U+00B5 nor U+00FF, on which
  \<open>toUpperCase\<close> is the program's. Where the path is \<^verbatim>\<open>/pets/{petId}\<close>, the method
  \<^verbatim>\<open>get\<close> and the summary absent, the item is named \<^verbatim>\<open>/pets/{petId}\<close>, has method
  \<^verbatim>\<open>GET\<close>, path segments \<^verbatim>\<open>pets\<close> and \<^verbatim>\<open>{petId}\<close>, and exactly one path variable, with
  key \<^verbatim>\<open>petId\<close> and empty value. The second and the third conjunct say the same of the
  callback that makes one item, and the last is the whole collection made from a Spec with
  that one operation.
\<close>

theorem request_item_shape:
  "(createCollection fk sw g = Inr (c, g') \<longrightarrow>
      list_all2
        (\<lambda>(path, verb, details) item.
           field item ''name''
             = (if truthy (field details ''summary'') then field details ''summary'' else JStr path)
           \<and> (CHR 0xB5 \<notin> set verb \<and> CHR 0xFF \<notin> set verb \<longrightarrow>
                field (field item ''request'') ''method'' = JStr (toUpperCase verb))
           \<and> field (field (field item ''request'') ''url'') ''raw'' = JStr (''{{base_url}}'' @ path)
           \<and> field (field (field item ''request'') ''url'') ''host'' = JArr [JStr ''{{base_url}}'']
           \<and> field (field (field item ''request'') ''url'') ''path''
               = JArr (map JStr (filter (\<lambda>s. s \<noteq> []) (split_on CHR ''/'' path)))
           \<and> (path = ''/pets/{petId}'' \<and> verb = ''get'' \<and> field details ''summary'' = JUndefined \<longrightarrow>
                field item ''name'' = JStr ''/pets/{petId}''
                \<and> field (field item ''request'') ''method'' = JStr ''GET''
                \<and> field (field (field item ''request'') ''url'') ''raw'' = JStr ''{{base_url}}/pets/{petId}''
                \<and> field (field (field item ''request'') ''url'') ''host'' = JArr [JStr ''{{base_url}}'']
                \<and> field (field (field item ''request'') ''url'') ''path''
                    = JArr [JStr ''pets'', JStr ''{petId}'']
                \<and> field (field (field item ''request'') ''url'') ''variable''
                    = JArr [JObj [(''key'', JStr ''petId''), (''value'', JStr []),
                                  (''description'', JStr [])]]))
        (operations sw) (items_of c))
   \<and> (request_item fk sw path verb details g = Inr (item, g') \<longrightarrow>
      field item ''name''
        = (if truthy (field details ''summary'') then field details ''summary'' else JStr path)
      \<and> (CHR 0xB5 \<notin> set verb \<and> CHR 0xFF \<notin> set verb \<longrightarrow>
           field (field item ''request'') ''method'' = JStr (toUpperCase verb))
      \<and> field (field (field item ''request'') ''url'') ''raw'' = JStr (''{{base_url}}'' @ path)
      \<and> field (field (field item ''request'') ''url'') ''host'' = JArr [JStr ''{{base_url}}'']
      \<and> field (field (field item ''request'') ''url'') ''path''
          = JArr (map JStr (filter (\<lambda>s. s \<noteq> []) (split_on CHR ''/'' path))))
   \<and> (request_item fk sw ''/pets/{petId}'' ''get'' details g = Inr (item, g')
        \<and> get_prop details ''summary'' = Inr JUndefined \<longrightarrow>
      field item ''name'' = JStr ''/pets/{petId}''
      \<and> field (field item ''request'') ''method'' = JStr ''GET''
      \<and> field (field (field item ''request'') ''url'') ''raw'' = JStr ''{{base_url}}/pets/{petId}''
      \<and> field (field (field item ''request'') ''url'') ''host'' = JArr [JStr ''{{base_url}}'']
      \<and> field (field (field item ''request'') ''url'') ''path'' = JArr [JStr ''pets'', JStr ''{petId}'']
      \<and> field (field (field item ''request'') ''url'') ''variable''
          = JArr [JObj [(''key'', JStr ''petId''), (''value'', JStr []), (''description'', JStr [])]])
   \<and> createCollection fk \<lparr> servers = srv, paths = [(''/pets/{petId}'', [(''get'', JObj [])])],
                             components = comps \<rparr> g
       = Inr (JObj [(''collection'',
                JObj [(''info'',
                         JObj [(''name'', JStr ''Generated Collection''),
                               (''description'', JStr ''Collection generated from Swagger file''),
                               (''schema'', JStr
                                  ''https://schema.getpostman.com/json/collection/v2.1.0/collection.json'')]),
                      (''item'',
                         JArr [JObj [(''name'', JStr ''/pets/{petId}''),
                                     (''request'',
                                        JObj [(''method'', JStr ''GET''),
                                              (''header'', JArr []),
                                              (''url'',
                                                 JObj [(''raw'', JStr ''{{base_url}}/pets/{petId}''),
                                                       (''host'', JArr [JStr ''{{base_url}}'']),
                                                       (''path'', JArr [JStr ''pets'', JStr ''{petId}'']),
                                                       (''query'', JArr []),
                                                       (''variable'',
                                                          JArr [JObj [(''key'', JStr ''petId''),
                                                                      (''value'', JStr []),
                                                                      (''description'', JStr [])]])]),
                                              (''body'', JUndefined)]),
                                     (''response'', JArr [])]])])], g)"
proof (intro conjI impI)
  assume a: "createCollection fk sw g = Inr (c, g')"
  show "list_all2
        (\<lambda>(path, verb, details) item.
           field item ''name''
             = (if truthy (field details ''summary'') then field details ''summary'' else JStr path)
           \<and> (CHR 0xB5 \<notin> set verb \<and> CHR 0xFF \<notin> set verb \<longrightarrow>
                field (field item ''request'') ''method'' = JStr (toUpperCase verb))
           \<and> field (field (field item ''request'') ''url'') ''raw'' = JStr (''{{base_url}}'' @ path)
           \<and> field (field (field item ''request'') ''url'') ''host'' = JArr [JStr ''{{base_url}}'']
           \<and> field (field (field item ''request'') ''url'') ''path''
               = JArr (map JStr (filter (\<lambda>s. s \<noteq> []) (split_on CHR ''/'' path)))
           \<and> (path = ''/pets/{petId}'' \<and> verb = ''get'' \<and> field details ''summary'' = JUndefined \<longrightarrow>
                field item ''name'' = JStr ''/pets/{petId}''
                \<and> field (field item ''request'') ''method'' = JStr ''GET''
                \<and> field (field (field item ''request'') ''url'') ''raw'' = JStr ''{{base_url}}/pets/{petId}''
                \<and> field (field (field item ''request'') ''url'') ''host'' = JArr [JStr ''{{base_url}}'']
                \<and> field (field (field item ''request'') ''url'') ''path''
                    = JArr [JStr ''pets'', JStr ''{petId}'']
                \<and> field (field (field item ''request'') ''url'') ''variable''
                    = JArr [JObj [(''key'', JStr ''petId''), (''value'', JStr []),
                                  (''description'', JStr [])]]))
        (operations sw) (items_of c)"
  proof (rule list_all2_mono [OF createCollection_items [OF a]])
    fix op item
    assume "(case op of (path, verb, details) \<Rightarrow> \<lambda>item.
               \<exists>g0 g1. request_item fk sw path verb details g0 = Inr (item, g1)) item"
    then obtain path verb details g0 g1 where op: "op = (path, verb, details)"
      and i: "request_item fk sw path verb details g0 = Inr (item, g1)"
      by (auto split: prod.splits)
    note s = item_shape [OF i]
    have "path = ''/pets/{petId}'' \<and> verb = ''get'' \<and> field details ''summary'' = JUndefined \<longrightarrow>
                field item ''name'' = JStr ''/pets/{petId}''
                \<and> field (field item ''request'') ''method'' = JStr ''GET''
                \<and> field (field (field item ''request'') ''url'') ''raw'' = JStr ''{{base_url}}/pets/{petId}''
                \<and> field (field (field item ''request'') ''url'') ''host'' = JArr [JStr ''{{base_url}}'']
                \<and> field (field (field item ''request'') ''url'') ''path''
                    = JArr [JStr ''pets'', JStr ''{petId}'']
                \<and> field (field (field item ''request'') ''url'') ''variable''
                    = JArr [JObj [(''key'', JStr ''petId''), (''value'', JStr []),
                                  (''description'', JStr [])]]"
      using s by (auto simp: pets_petId_variables toUpperCase_get)
    with s(1-5)
    show "(case op of (path, verb, details) \<Rightarrow> \<lambda>item.
           field item ''name''
             = (if truthy (field details ''summary'') then field details ''summary'' else JStr path)
           \<and> (CHR 0xB5 \<notin> set verb \<and> CHR 0xFF \<notin> set verb \<longrightarrow>
                field (field item ''request'') ''method'' = JStr (toUpperCase verb))
           \<and> field (field (field item ''request'') ''url'') ''raw'' = JStr (''{{base_url}}'' @ path)
           \<and> field (field (field item ''request'') ''url'') ''host'' = JArr [JStr ''{{base_url}}'']
           \<and> field (field (field item ''request'') ''url'') ''path''
               = JArr (map JStr (filter (\<lambda>s. s \<noteq> []) (split_on CHR ''/'' path)))
           \<and> (path = ''/pets/{petId}'' \<and> verb = ''get'' \<and> field details ''summary'' = JUndefined \<longrightarrow>
                field item ''name'' = JStr ''/pets/{petId}''
                \<and> field (field item ''request'') ''method'' = JStr ''GET''
                \<and> field (field (field item ''request'') ''url'') ''raw'' = JStr ''{{base_url}}/pets/{petId}''
                \<and> field (field (field item ''request'') ''url'') ''host'' = JArr [JStr ''{{base_url}}'']
                \<and> field (field (field item ''request'') ''url'') ''path''
                    = JArr [JStr ''pets'', JStr ''{petId}'']
                \<and> field (field (field item ''request'') ''url'') ''variable''
                    = JArr [JObj [(''key'', JStr ''petId''), (''value'', JStr []),
                                  (''description'', JStr [])]])) item"
      by (simp only: op prod.case) blast
  qed
next
  assume a: "request_item fk sw path verb details g = Inr (item, g')"
  note s = item_shape [OF a]
  from s show "field item ''name''
        = (if truthy (field details ''summary'') then field details ''summary'' else JStr path)"
    "field (field item ''request'') ''method'' = JStr (toUpperCase verb)"
    "field (field (field item ''request'') ''url'') ''raw'' = JStr (''{{base_url}}'' @ path)"
    "field (field (field item ''request'') ''url'') ''host'' = JArr [JStr ''{{base_url}}'']"
    "field (field (field item ''request'') ''url'') ''path''
          = JArr (map JStr (filter (\<lambda>s. s \<noteq> []) (split_on CHR ''/'' path)))"
    by simp_all
next
  assume a: "request_item fk sw ''/pets/{petId}'' ''get'' details g = Inr (item, g')
        \<and> get_prop details ''summary'' = Inr JUndefined"
  have fs: "field details ''summary'' = JUndefined" using a by (simp add: field_def)
  from a have i: "request_item fk sw ''/pets/{petId}'' ''get'' details g = Inr (item, g')" by simp
  note s = item_shape [OF i]
  from s fs show "field item ''name'' = JStr ''/pets/{petId}''"
    "field (field item ''request'') ''method'' = JStr ''GET''"
    "field (field (field item ''request'') ''url'') ''raw'' = JStr ''{{base_url}}/pets/{petId}''"
    "field (field (field item ''request'') ''url'') ''host'' = JArr [JStr ''{{base_url}}'']"
    "field (field (field item ''request'') ''url'') ''path'' = JArr [JStr ''pets'', JStr ''{petId}'']"
    "field (field (field item ''request'') ''url'') ''variable''
          = JArr [JObj [(''key'', JStr ''petId''), (''value'', JStr []), (''description'', JStr [])]]"
    by (auto simp: pets_petId_variables toUpperCase_get)
next
  show "createCollection fk \<lparr> servers = srv, paths = [(''/pets/{petId}'', [(''get'', JObj [])])],
                             components = comps \<rparr> g
       = Inr (JObj [(''collection'',
                JObj [(''info'',
                         JObj [(''name'', JStr ''Generated Collection''),
                               (''description'', JStr ''Collection generated from Swagger file''),
                               (''schema'', JStr
                                  ''https://schema.getpostman.com/json/collection/v2.1.0/collection.json'')]),
                      (''item'',
                         JArr [JObj [(''name'', JStr ''/pets/{petId}''),
                                     (''request'',
                                        JObj [(''method'', JStr ''GET''),
                                              (''header'', JArr []),
                                              (''url'',
                                                 JObj [(''raw'', JStr ''{{base_url}}/pets/{petId}''),
                                                       (''host'', JArr [JStr ''{{base_url}}'']),
                                                       (''path'', JArr [JStr ''pets'', JStr ''{petId}'']),
                                                       (''query'', JArr []),
                                                       (''variable'',
                                                          JArr [JObj [(''key'', JStr ''petId''),
                                                                      (''value'', JStr []),
                                                                      (''description'', JStr [])]])]),
                                              (''body'', JUndefined)]),
                                     (''response'', JArr [])]])])], g)"
    by (simp add: createCollection_def request_item_def request_body_def bodySchemaRef_def
        queryParams_def pets_petId_variables field_JObj toUpperCase_get)
qed

theorem request_item_shape_witness:
  "get_prop (JObj []) ''summary'' = Inr JUndefined
   \<and> (\<exists>item. request_item demo_faker pet_swagger ''/pets/{petId}'' ''get'' (JObj []) 0 = Inr (item, 0)
         \<and> field item ''name'' = JStr ''/pets/{petId}''
         \<and> field (field item ''request'') ''method'' = JStr ''GET''
         \<and> field (field (field item ''request'') ''url'') ''path'' = JArr [JStr ''pets'', JStr ''{petId}'']
         \<and> field (field (field item ''request'') ''url'') ''variable''
             = JArr [JObj [(''key'', JStr ''petId''), (''value'', JStr []), (''description'', JStr [])]])
   \<and> createCollection demo_faker pet_swagger 0 = Inr (pet_collection, 4)
   \<and> operations pet_swagger = [(''/pets/{petId}'', ''get'', list_pets), (''/pets'', ''post'', add_pet)]
   \<and> field list_pets ''summary'' = JUndefined
   \<and> CHR 0xB5 \<notin> set ''post'' \<and> CHR 0xFF \<notin> set ''post''
   \<and> (\<exists>item1 item2. items_of pet_collection = [item1, item2]
         \<and> field item1 ''name'' = JStr ''/pets/{petId}''
         \<and> field (field item1 ''request'') ''method'' = JStr ''GET''
         \<and> field (field (field item1 ''request'') ''url'') ''raw'' = JStr ''{{base_url}}/pets/{petId}''
         \<and> field (field (field item1 ''request'') ''url'') ''host'' = JArr [JStr ''{{base_url}}'']
         \<and> field (field (field item1 ''request'') ''url'') ''path'' = JArr [JStr ''pets'', JStr ''{petId}'']
         \<and> field (field (field item1 ''request'') ''url'') ''variable''
             = JArr [JObj [(''key'', JStr ''petId''), (''value'', JStr []), (''description'', JStr [])]]
         \<and> field item2 ''name'' = JStr ''Add a pet''
         \<and> field (field item2 ''request'') ''method'' = JStr ''POST'')"
proof -
  obtain item where i: "request_item demo_faker pet_swagger ''/pets/{petId}'' ''get'' (JObj []) 0 = Inr (item, 0)"
    by (simp add: request_item_def request_body_def bodySchemaRef_def queryParams_def
        pets_petId_variables)
  have s: "get_prop (JObj []) ''summary'' = Inr JUndefined" by simp
  from request_item_shape
    [where fk = demo_faker and sw = pet_swagger and details = "JObj []" and g = 0 and item = item
       and g' = 0] i s
  have first: "\<exists>item. request_item demo_faker pet_swagger ''/pets/{petId}'' ''get'' (JObj []) 0 = Inr (item, 0)
         \<and> field item ''name'' = JStr ''/pets/{petId}''
         \<and> field (field item ''request'') ''method'' = JStr ''GET''
         \<and> field (field (field item ''request'') ''url'') ''path'' = JArr [JStr ''pets'', JStr ''{petId}'']
         \<and> field (field (field item ''request'') ''url'') ''variable''
             = JArr [JObj [(''key'', JStr ''petId''), (''value'', JStr []), (''description'', JStr [])]]"
    by blast
  have ls: "field list_pets ''summary'' = JUndefined" by (simp add: list_pets_def field_JObj)
  have as: "field add_pet ''summary'' = JStr ''Add a pet''" by (simp add: add_pet_def field_JObj)
  have up: "CHR 0xB5 \<notin> set ''post''" "CHR 0xFF \<notin> set ''post''" by simp_all
  from request_item_shape
    [where fk = demo_faker and sw = pet_swagger and g = 0 and c = pet_collection and g' = 4]
    pet_collection_created pet_operations
  have "list_all2
        (\<lambda>(path, verb, details) item.
           field item ''name''
             = (if truthy (field details ''summary'') then field details ''summary'' else JStr path)
           \<and> (CHR 0xB5 \<notin> set verb \<and> CHR 0xFF \<notin> set verb \<longrightarrow>
                field (field item ''request'') ''method'' = JStr (toUpperCase verb))
           \<and> field (field (field item ''request'') ''url'') ''raw'' = JStr (''{{base_url}}'' @ path)
           \<and> field (field (field item ''request'') ''url'') ''host'' = JArr [JStr ''{{base_url}}'']
           \<and> field (field (field item ''request'') ''url'') ''path''
               = JArr (map JStr (filter (\<lambda>s. s \<noteq> []) (split_on CHR ''/'' path)))
           \<and> (path = ''/pets/{petId}'' \<and> verb = ''get'' \<and> field details ''summary'' = JUndefined \<longrightarrow>
                field item ''name'' = JStr ''/pets/{petId}''
                \<and> field (field item ''request'') ''method'' = JStr ''GET''
                \<and> field (field (field item ''request'') ''url'') ''raw'' = JStr ''{{base_url}}/pets/{petId}''
                \<and> field (field (field item ''request'') ''url'') ''host'' = JArr [JStr ''{{base_url}}'']
                \<and> field (field (field item ''request'') ''url'') ''path''
                    = JArr [JStr ''pets'', JStr ''{petId}'']
                \<and> field (field (field item ''request'') ''url'') ''variable''
                    = JArr [JObj [(''key'', JStr ''petId''), (''value'', JStr []),
                                  (''description'', JStr [])]]))
        [(''/pets/{petId}'', ''get'', list_pets), (''/pets'', ''post'', add_pet)]
        (items_of pet_collection)"
    by simp
  then obtain item1 item2 where its: "items_of pet_collection = [item1, item2]"
    and i1: "field list_pets ''summary'' = JUndefined \<longrightarrow>
                field item1 ''name'' = JStr ''/pets/{petId}''
                \<and> field (field item1 ''request'') ''method'' = JStr ''GET''
                \<and> field (field (field item1 ''request'') ''url'') ''raw'' = JStr ''{{base_url}}/pets/{petId}''
                \<and> field (field (field item1 ''request'') ''url'') ''host'' = JArr [JStr ''{{base_url}}'']
                \<and> field (field (field item1 ''request'') ''url'') ''path''
                    = JArr [JStr ''pets'', JStr ''{petId}'']
                \<and> field (field (field item1 ''request'') ''url'') ''variable''
                    = JArr [JObj [(''key'', JStr ''petId''), (''value'', JStr []),
                                  (''description'', JStr [])]]"
    and i2: "field item2 ''name''
               = (if truthy (field add_pet ''summary'') then field add_pet ''summary'' else JStr ''/pets'')"
      "CHR 0xB5 \<notin> set ''post'' \<and> CHR 0xFF \<notin> set ''post'' \<longrightarrow>
         field (field item2 ''request'') ''method'' = JStr (toUpperCase ''post'')"
    by (auto simp: list_all2_Cons1)
  from i2 as up have "field item2 ''name'' = JStr ''Add a pet''"
    "field (field item2 ''request'') ''method'' = JStr ''POST''"
    by (simp_all add: toUpperCase_post)
  with its i1 ls have "\<exists>item1 item2. items_of pet_collection = [item1, item2]
         \<and> field item1 ''name'' = JStr ''/pets/{petId}''
         \<and> field (field item1 ''request'') ''method'' = JStr ''GET''
         \<and> field (field (field item1 ''request'') ''url'') ''raw'' = JStr ''{{base_url}}/pets/{petId}''
         \<and> field (field (field item1 ''request'') ''url'') ''host'' = JArr [JStr ''{{base_url}}'']
         \<and> field (field (field item1 ''request'') ''url'') ''path'' = JArr [JStr ''pets'', JStr ''{petId}'']
         \<and> field (field (field item1 ''request'') ''url'') ''variable''
             = JArr [JObj [(''key'', JStr ''petId''), (''value'', JStr []), (''description'', JStr [])]]
         \<and> field item2 ''name'' = JStr ''Add a pet''
         \<and> field (field item2 ''request'') ''method'' = JStr ''POST''"
    by blast
  with first s ls pet_collection_created pet_operations show ?thesis by simp
qed

subsection \<open>Claim C5\<close>

text \<open>
  Claim C5. In every collection that \<open>createCollection\<close> returns, the items are the
  operations of the Spec, one for one and in order, and the query list of the item of an
  operation holds one entry for each parameter of the operation whose \<^verbatim>\<open>in\<close> is
  \<^verbatim>\<open>query\<close>, in order, and none for the others (none at all where the operation has no
  \<^verbatim>\<open>parameters\<close>). The entry has the keys \<^verbatim>\<open>key\<close>, \<^verbatim>\<open>value\<close> and \<^verbatim>\<open>description\<close>; its
  value is, for a word \<open>w\<close> drawn from the generator, the JSON text of the one-element
  array of \<open>w\<close> when the schema type is \<^verbatim>\<open>array\<close> and \<open>w\<close> itself otherwise. The JSON text
  of that array is \<open>w\<close> quoted between brackets, which is never \<open>w\<close>.

  A list of parameters gets its query entries exactly when none of its entries is
  \<^verbatim>\<open>undefined\<close> or \<^verbatim>\<open>null\<close> and each of its query parameters carries a \<^verbatim>\<open>schema\<close>: under
  this condition \<open>queryParams\<close> returns the entries (second conjunct), and it returns
  only under this condition (third conjunct), the code throwing a \<^verbatim>\<open>TypeError\<close> on the
  read of \<^verbatim>\<open>param.in\<close> or of \<^verbatim>\<open>param.schema.type\<close> otherwise. The query list of the item
  that the callback returns is the list so computed (fourth conjunct).
\<close>

theorem query_parameters:
  "(createCollection fk sw g = Inr (c, g') \<longrightarrow>
      list_all2
        (\<lambda>(path, verb, details) item.
           \<exists>qs. field (field (field item ''request'') ''url'') ''query'' = JArr qs
              \<and> list_all2 (query_entry_of fk)
                  (filter (\<lambda>p. field p ''in'' = JStr ''query'')
                     (case field details ''parameters'' of JArr ps \<Rightarrow> ps | _ \<Rightarrow> [])) qs)
        (operations sw) (items_of c))
   \<and> (get_prop details ''parameters'' = Inr (JArr ps)
      \<and> (\<forall>p \<in> set ps. \<not> nullish p \<and> (field p ''in'' = JStr ''query'' \<longrightarrow> \<not> nullish (field p ''schema''))) \<longrightarrow>
      (\<exists>qs g'. queryParams fk details g = Inr (qs, g')
         \<and> list_all2 (query_entry_of fk) (filter (\<lambda>p. field p ''in'' = JStr ''query'') ps) qs))
   \<and> (get_prop details ''parameters'' = Inr (JArr ps) \<and> queryParams fk details g = Inr (qs, g1) \<longrightarrow>
        (\<forall>p \<in> set ps. \<not> nullish p \<and> (field p ''in'' = JStr ''query'' \<longrightarrow> \<not> nullish (field p ''schema''))))
   \<and> (request_item fk sw path verb details g = Inr (item, g2) \<longrightarrow>
        (\<exists>qs g1. queryParams fk details g1 = Inr (qs, g2)
           \<and> field (field (field item ''request'') ''url'') ''query'' = JArr qs))
   \<and> JSON_stringify [] (JArr [JStr w]) = JStr (CHR ''['' # quote w @ '']'')
   \<and> CHR ''['' # quote w @ '']'' \<noteq> w"
proof (intro conjI impI)
  assume a: "createCollection fk sw g = Inr (c, g')"
  show "list_all2
        (\<lambda>(path, verb, details) item.
           \<exists>qs. field (field (field item ''request'') ''url'') ''query'' = JArr qs
              \<and> list_all2 (query_entry_of fk)
                  (filter (\<lambda>p. field p ''in'' = JStr ''query'')
                     (case field details ''parameters'' of JArr ps \<Rightarrow> ps | _ \<Rightarrow> [])) qs)
        (operations sw) (items_of c)"
  proof (rule list_all2_mono [OF createCollection_items [OF a]])
    fix op item
    assume "(case op of (path, verb, details) \<Rightarrow> \<lambda>item.
               \<exists>g0 g1. request_item fk sw path verb details g0 = Inr (item, g1)) item"
    then obtain path verb details g0 g1 where op: "op = (path, verb, details)"
      and i: "request_item fk sw path verb details g0 = Inr (item, g1)"
      by (auto split: prod.splits)
    from request_item_query [OF i] obtain qs gq where
      q: "queryParams fk details gq = Inr (qs, g1)"
      and f: "field (field (field item ''request'') ''url'') ''query'' = JArr qs"
      by blast
    from queryParams_entries [OF q] f
    show "(case op of (path, verb, details) \<Rightarrow> \<lambda>item.
           \<exists>qs. field (field (field item ''request'') ''url'') ''query'' = JArr qs
              \<and> list_all2 (query_entry_of fk)
                  (filter (\<lambda>p. field p ''in'' = JStr ''query'')
                     (case field details ''parameters'' of JArr ps \<Rightarrow> ps | _ \<Rightarrow> [])) qs) item"
      by (simp only: op prod.case) blast
  qed
next
  assume a: "get_prop details ''parameters'' = Inr (JArr ps)
      \<and> (\<forall>p \<in> set ps. \<not> nullish p \<and> (field p ''in'' = JStr ''query'' \<longrightarrow> \<not> nullish (field p ''schema'')))"
  then have f: "filter_query ps = Inr (filter (\<lambda>p. field p ''in'' = JStr ''query'') ps)"
    by (simp add: filter_query_total)
  have "\<forall>p \<in> set (filter (\<lambda>p. field p ''in'' = JStr ''query'') ps).
          \<not> nullish p \<and> \<not> nullish (field p ''schema'')"
    using a by simp
  from map_query_total [OF this, of fk g] a f
  show "\<exists>qs g'. queryParams fk details g = Inr (qs, g')
         \<and> list_all2 (query_entry_of fk) (filter (\<lambda>p. field p ''in'' = JStr ''query'') ps) qs"
    by (simp add: queryParams_def)
next
  assume "get_prop details ''parameters'' = Inr (JArr ps) \<and> queryParams fk details g = Inr (qs, g1)"
  then show "\<forall>p \<in> set ps. \<not> nullish p \<and> (field p ''in'' = JStr ''query'' \<longrightarrow> \<not> nullish (field p ''schema''))"
    using queryParams_needs [of details ps fk g qs g1] by blast
next
  assume "request_item fk sw path verb details g = Inr (item, g2)"
  then show "\<exists>qs g1. queryParams fk details g1 = Inr (qs, g2)
           \<and> field (field (field item ''request'') ''url'') ''query'' = JArr qs"
    by (rule request_item_query)
next
  show "JSON_stringify [] (JArr [JStr w]) = JStr (CHR ''['' # quote w @ '']'')"
    by (rule stringify_single_word)
next
  have "length (CHR ''['' # quote w @ '']'') \<noteq> length w"
    using quoted_length [of w] by (simp add: quote_def)
  then show "CHR ''['' # quote w @ '']'' \<noteq> w" by metis
qed

theorem query_parameters_witness:
  "get_prop list_pets ''parameters'' \<noteq> Inr JUndefined
   \<and> (\<exists>q1 q2 g'. queryParams demo_faker list_pets 0 = Inr ([q1, q2], g')
         \<and> field q1 ''key'' = JStr ''limit'' \<and> field q2 ''key'' = JStr ''tags'')
   \<and> createCollection demo_faker pet_swagger 0 = Inr (pet_collection, 4)
   \<and> operations pet_swagger = [(''/pets/{petId}'', ''get'', list_pets), (''/pets'', ''post'', add_pet)]
   \<and> (\<exists>item1 item2 q1 q2. items_of pet_collection = [item1, item2]
         \<and> field (field (field item1 ''request'') ''url'') ''query'' = JArr [q1, q2]
         \<and> field q1 ''key'' = JStr ''limit'' \<and> field q1 ''value'' = JStr ''matrix''
         \<and> field q2 ''key'' = JStr ''tags''
         \<and> field q2 ''value'' = JStr (CHR ''['' # quote ''matrix'' @ '']'')
         \<and> field (field (field item2 ''request'') ''url'') ''query'' = JArr [])
   \<and> (\<exists>ps. get_prop list_pets ''parameters'' = Inr (JArr ps)
         \<and> list_all (\<lambda>p. \<not> nullish p
                          \<and> (field p ''in'' = JStr ''query'' \<longrightarrow> \<not> nullish (field p ''schema''))) ps)
   \<and> (\<exists>item qs g1. request_item demo_faker pet_swagger ''/pets/{petId}'' ''get'' list_pets 0
                          = Inr (item, 2)
         \<and> queryParams demo_faker list_pets g1 = Inr (qs, 2)
         \<and> field (field (field item ''request'') ''url'') ''query'' = JArr qs)"
proof -
  define ps where "ps =
     [JObj [(''name'', JStr ''petId''), (''in'', JStr ''path''),
            (''schema'', JObj [(''type'', JStr ''string'')])],
      JObj [(''name'', JStr ''limit''), (''in'', JStr ''query''),
            (''schema'', JObj [(''type'', JStr ''integer'')])],
      JObj [(''name'', JStr ''tags''), (''in'', JStr ''query''),
            (''description'', JStr ''tags to filter by''),
            (''schema'', JObj [(''type'', JStr ''array'')])]]"
  have p: "get_prop list_pets ''parameters'' = Inr (JArr ps)"
    by (simp add: list_pets_def ps_def)
  have fp: "field list_pets ''parameters'' = JArr ps" using p by (simp add: field_def)
  have fa: "field add_pet ''parameters'' = JUndefined" by (simp add: add_pet_def field_JObj)
  have ok: "\<forall>p \<in> set ps. \<not> nullish p \<and> (field p ''in'' = JStr ''query'' \<longrightarrow> \<not> nullish (field p ''schema''))"
    by (simp add: ps_def field_JObj)
  have f: "filter (\<lambda>p. field p ''in'' = JStr ''query'') ps = [ps ! 1, ps ! 2]"
    by (simp add: ps_def field_JObj)
  have keys: "\<And>q. query_entry_of demo_faker (ps ! 1) q \<Longrightarrow>
                field q ''key'' = JStr ''limit'' \<and> field q ''value'' = JStr ''matrix''"
    "\<And>q. query_entry_of demo_faker (ps ! 2) q \<Longrightarrow>
                field q ''key'' = JStr ''tags''
                \<and> field q ''value'' = JStr (CHR ''['' # quote ''matrix'' @ '']'')"
    by (auto simp: query_entry_of_def ps_def field_JObj demo_faker_def)
  note T = query_parameters [where details = list_pets and ps = ps and fk = demo_faker and g = 0
      and sw = pet_swagger and c = pet_collection and g' = 4]
  from T [THEN conjunct2, THEN conjunct1] p ok
  obtain qs g' where q: "queryParams demo_faker list_pets 0 = Inr (qs, g')"
    and l: "list_all2 (query_entry_of demo_faker) (filter (\<lambda>p. field p ''in'' = JStr ''query'') ps) qs"
    by blast
  from l f obtain q1 q2 where qs: "qs = [q1, q2]"
    and e: "query_entry_of demo_faker (ps ! 1) q1" "query_entry_of demo_faker (ps ! 2) q2"
    by (auto simp: list_all2_Cons1)
  from q qs keys(1) [OF e(1)] keys(2) [OF e(2)]
  have first: "\<exists>q1 q2 g'. queryParams demo_faker list_pets 0 = Inr ([q1, q2], g')
         \<and> field q1 ''key'' = JStr ''limit'' \<and> field q2 ''key'' = JStr ''tags''"
    by blast
  from T [THEN conjunct1] pet_collection_created pet_operations
  have "list_all2
        (\<lambda>(path, verb, details) item.
           \<exists>qs. field (field (field item ''request'') ''url'') ''query'' = JArr qs
              \<and> list_all2 (query_entry_of demo_faker)
                  (filter (\<lambda>p. field p ''in'' = JStr ''query'')
                     (case field details ''parameters'' of JArr ps \<Rightarrow> ps | _ \<Rightarrow> [])) qs)
        [(''/pets/{petId}'', ''get'', list_pets), (''/pets'', ''post'', add_pet)]
        (items_of pet_collection)"
    by simp
  then obtain item1 item2 qs1 qs2 where its: "items_of pet_collection = [item1, item2]"
    and i1: "field (field (field item1 ''request'') ''url'') ''query'' = JArr qs1"
      "list_all2 (query_entry_of demo_faker) (filter (\<lambda>p. field p ''in'' = JStr ''query'') ps) qs1"
    and i2: "field (field (field item2 ''request'') ''url'') ''query'' = JArr qs2" "qs2 = []"
    by (auto simp: list_all2_Cons1 fp fa)
  from i1(2) f obtain r1 r2 where qs1: "qs1 = [r1, r2]"
    and e1: "query_entry_of demo_faker (ps ! 1) r1" "query_entry_of demo_faker (ps ! 2) r2"
    by (auto simp: list_all2_Cons1)
  from its i1(1) i2 qs1 keys(1) [OF e1(1)] keys(2) [OF e1(2)]
  have "\<exists>item1 item2 q1 q2. items_of pet_collection = [item1, item2]
         \<and> field (field (field item1 ''request'') ''url'') ''query'' = JArr [q1, q2]
         \<and> field q1 ''key'' = JStr ''limit'' \<and> field q1 ''value'' = JStr ''matrix''
         \<and> field q2 ''key'' = JStr ''tags''
         \<and> field q2 ''value'' = JStr (CHR ''['' # quote ''matrix'' @ '']'')
         \<and> field (field (field item2 ''request'') ''url'') ''query'' = JArr []"
    by blast
  moreover from T [THEN conjunct2, THEN conjunct2, THEN conjunct1, of qs g'] p q
  have "\<exists>ps. get_prop list_pets ''parameters'' = Inr (JArr ps)
         \<and> list_all (\<lambda>p. \<not> nullish p
                          \<and> (field p ''in'' = JStr ''query'' \<longrightarrow> \<not> nullish (field p ''schema''))) ps"
    by (auto simp: list_all_iff)
  moreover from list_pets_item obtain item where
    it: "request_item demo_faker pet_swagger ''/pets/{petId}'' ''get'' list_pets 0 = Inr (item, 2)"
    by blast
  from query_parameters
    [where fk = demo_faker and sw = pet_swagger and path = "''/pets/{petId}''" and verb = "''get''"
       and details = list_pets and g = 0 and item = item and ?g2.0 = 2,
     THEN conjunct2, THEN conjunct2, THEN conjunct2, THEN conjunct1] it
  have "\<exists>item qs g1. request_item demo_faker pet_swagger ''/pets/{petId}'' ''get'' list_pets 0
                          = Inr (item, 2)
         \<and> queryParams demo_faker list_pets g1 = Inr (qs, 2)
         \<and> field (field (field item ''request'') ''url'') ''query'' = JArr qs"
    by blast
  ultimately show ?thesis
    using first p pet_collection_created pet_operations by simp
qed

subsection \<open>Claim C6\<close>

text \<open>
  Claim C6, as amended. The specification has one path variable for each distinct
  bracketed segment. The code has one for each occurrence. In every collection that
  \<open>createCollection\<close> returns, the items are the operations of the Spec, one for one and
  in order; where the path of an operation is made of literal pieces without \<^verbatim>\<open>{\<close> and
  of bracketed names without \<^verbatim>\<open>}\<close> and line terminators, the variable list of its item
  has one entry for each bracketed name, in order, duplicates kept, with the name as key
  and the empty string as value; where the path has no \<^verbatim>\<open>{\<close>, the list is empty. The
  other conjuncts say the same of \<open>path_variables\<close>, which the callback calls on the
  path, and that the variable list of the item it returns is the list so computed.
\<close>

theorem path_variables_per_occurrence:
  "(createCollection fk sw g = Inr (c, g') \<longrightarrow>
      list_all2
        (\<lambda>(path, verb, details) item.
           (\<forall>parts tail.
              path = template parts tail \<and> CHR ''{'' \<notin> set tail
                \<and> (\<forall>(lit, name) \<in> set parts.
                      CHR ''{'' \<notin> set lit \<and> CHR ''}'' \<notin> set name
                      \<and> (\<forall>ch \<in> set name. \<not> line_terminator ch)) \<longrightarrow>
              field (field (field item ''request'') ''url'') ''variable''
                = JArr (map (\<lambda>(lit, name).
                          JObj [(''key'', JStr name), (''value'', JStr []), (''description'', JStr [])])
                        parts))
           \<and> (CHR ''{'' \<notin> set path \<longrightarrow>
                field (field (field item ''request'') ''url'') ''variable'' = JArr []))
        (operations sw) (items_of c))
   \<and> (CHR ''{'' \<notin> set tail
      \<and> (\<forall>(lit, name) \<in> set parts.
            CHR ''{'' \<notin> set lit \<and> CHR ''}'' \<notin> set name \<and> (\<forall>ch \<in> set name. \<not> line_terminator ch)) \<longrightarrow>
      path_variables (template parts tail)
        = Inr (map (\<lambda>(lit, name).
                 JObj [(''key'', JStr name), (''value'', JStr []), (''description'', JStr [])]) parts))
   \<and> (CHR ''{'' \<notin> set path \<longrightarrow> path_variables path = Inr [])
   \<and> (request_item fk sw path verb details g = Inr (item, g') \<longrightarrow>
        path_variables path = Inr (case field (field (field item ''request'') ''url'') ''variable'' of
                                     JArr vs \<Rightarrow> vs | _ \<Rightarrow> []))"
proof (intro conjI impI)
  assume a: "createCollection fk sw g = Inr (c, g')"
  show "list_all2
        (\<lambda>(path, verb, details) item.
           (\<forall>parts tail.
              path = template parts tail \<and> CHR ''{'' \<notin> set tail
                \<and> (\<forall>(lit, name) \<in> set parts.
                      CHR ''{'' \<notin> set lit \<and> CHR ''}'' \<notin> set name
                      \<and> (\<forall>ch \<in> set name. \<not> line_terminator ch)) \<longrightarrow>
              field (field (field item ''request'') ''url'') ''variable''
                = JArr (map (\<lambda>(lit, name).
                          JObj [(''key'', JStr name), (''value'', JStr []), (''description'', JStr [])])
                        parts))
           \<and> (CHR ''{'' \<notin> set path \<longrightarrow>
                field (field (field item ''request'') ''url'') ''variable'' = JArr []))
        (operations sw) (items_of c)"
  proof (rule list_all2_mono [OF createCollection_items [OF a]])
    fix op item
    assume "(case op of (path, verb, details) \<Rightarrow> \<lambda>item.
               \<exists>g0 g1. request_item fk sw path verb details g0 = Inr (item, g1)) item"
    then obtain path verb details g0 g1 where op: "op = (path, verb, details)"
      and i: "request_item fk sw path verb details g0 = Inr (item, g1)"
      by (auto split: prod.splits)
    from item_shape(6) [OF i] obtain vs where v: "path_variables path = Inr vs"
      and f: "field (field (field item ''request'') ''url'') ''variable'' = JArr vs"
      by blast
    have t: "\<forall>parts tail.
              path = template parts tail \<and> CHR ''{'' \<notin> set tail
                \<and> (\<forall>(lit, name) \<in> set parts.
                      CHR ''{'' \<notin> set lit \<and> CHR ''}'' \<notin> set name
                      \<and> (\<forall>ch \<in> set name. \<not> line_terminator ch)) \<longrightarrow>
              field (field (field item ''request'') ''url'') ''variable''
                = JArr (map (\<lambda>(lit, name).
                          JObj [(''key'', JStr name), (''value'', JStr []), (''description'', JStr [])])
                        parts)"
    proof (intro allI impI)
      fix parts tail
      assume h: "path = template parts tail \<and> CHR ''{'' \<notin> set tail
                \<and> (\<forall>(lit, name) \<in> set parts.
                      CHR ''{'' \<notin> set lit \<and> CHR ''}'' \<notin> set name
                      \<and> (\<forall>ch \<in> set name. \<not> line_terminator ch))"
      then have "path_variables path
        = Inr (map (\<lambda>(lit, name).
                 JObj [(''key'', JStr name), (''value'', JStr []), (''description'', JStr [])]) parts)"
        using path_variables_template [of tail parts] by simp
      with v f show "field (field (field item ''request'') ''url'') ''variable''
                = JArr (map (\<lambda>(lit, name).
                          JObj [(''key'', JStr name), (''value'', JStr []), (''description'', JStr [])])
                        parts)"
        by simp
    qed
    have n: "CHR ''{'' \<notin> set path \<longrightarrow>
                field (field (field item ''request'') ''url'') ''variable'' = JArr []"
      using v f by (auto simp: path_variables_def)
    from t n
    show "(case op of (path, verb, details) \<Rightarrow> \<lambda>item.
           (\<forall>parts tail.
              path = template parts tail \<and> CHR ''{'' \<notin> set tail
                \<and> (\<forall>(lit, name) \<in> set parts.
                      CHR ''{'' \<notin> set lit \<and> CHR ''}'' \<notin> set name
                      \<and> (\<forall>ch \<in> set name. \<not> line_terminator ch)) \<longrightarrow>
              field (field (field item ''request'') ''url'') ''variable''
                = JArr (map (\<lambda>(lit, name).
                          JObj [(''key'', JStr name), (''value'', JStr []), (''description'', JStr [])])
                        parts))
           \<and> (CHR ''{'' \<notin> set path \<longrightarrow>
                field (field (field item ''request'') ''url'') ''variable'' = JArr [])) item"
      by (simp only: op prod.case)
  qed
next
  assume "CHR ''{'' \<notin> set tail
      \<and> (\<forall>(lit, name) \<in> set parts.
            CHR ''{'' \<notin> set lit \<and> CHR ''}'' \<notin> set name \<and> (\<forall>ch \<in> set name. \<not> line_terminator ch))"
  then show "path_variables (template parts tail)
        = Inr (map (\<lambda>(lit, name).
                 JObj [(''key'', JStr name), (''value'', JStr []), (''description'', JStr [])]) parts)"
    using path_variables_template [of tail parts] by simp
next
  assume "CHR ''{'' \<notin> set path"
  then show "path_variables path = Inr []" by (simp add: path_variables_def)
next
  assume "request_item fk sw path verb details g = Inr (item, g')"
  then show "path_variables path = Inr (case field (field (field item ''request'') ''url'') ''variable'' of
                                     JArr vs \<Rightarrow> vs | _ \<Rightarrow> [])"
    by (rule request_item_variable)
qed

theorem path_variables_per_occurrence_witness:
  "CHR ''{'' \<notin> set ''/photo''
   \<and> template [(''/pets/'', ''id''), (''/toys/'', ''id'')] ''/photo'' = ''/pets/{id}/toys/{id}/photo''
   \<and> path_variables ''/pets/{id}/toys/{id}/photo''
       = Inr [JObj [(''key'', JStr ''id''), (''value'', JStr []), (''description'', JStr [])],
              JObj [(''key'', JStr ''id''), (''value'', JStr []), (''description'', JStr [])]]
   \<and> path_variables ''/pets'' = Inr []
   \<and> createCollection demo_faker pet_swagger 0 = Inr (pet_collection, 4)
   \<and> operations pet_swagger = [(''/pets/{petId}'', ''get'', list_pets), (''/pets'', ''post'', add_pet)]
   \<and> template [(''/pets/'', ''petId'')] [] = ''/pets/{petId}''
   \<and> (\<exists>item1 item2. items_of pet_collection = [item1, item2]
         \<and> field (field (field item1 ''request'') ''url'') ''variable''
             = JArr [JObj [(''key'', JStr ''petId''), (''value'', JStr []), (''description'', JStr [])]]
         \<and> field (field (field item2 ''request'') ''url'') ''variable'' = JArr [])
   \<and> operations toys_swagger = [(''/pets/{id}/toys/{id}'', ''get'', JObj [])]
   \<and> template [(''/pets/'', ''id''), (''/toys/'', ''id'')] [] = ''/pets/{id}/toys/{id}''
   \<and> (\<exists>c item. createCollection demo_faker toys_swagger 0 = Inr (c, 0) \<and> items_of c = [item]
         \<and> field (field (field item ''request'') ''url'') ''variable''
             = JArr [JObj [(''key'', JStr ''id''), (''value'', JStr []), (''description'', JStr [])],
                     JObj [(''key'', JStr ''id''), (''value'', JStr []), (''description'', JStr [])]])
   \<and> (\<exists>item. request_item demo_faker pet_swagger ''/pets/{petId}'' ''get'' list_pets 0 = Inr (item, 2)
         \<and> path_variables ''/pets/{petId}''
             = Inr (case field (field (field item ''request'') ''url'') ''variable'' of
                      JArr vs \<Rightarrow> vs | _ \<Rightarrow> []))"
proof -
  have t: "template [(''/pets/'', ''id''), (''/toys/'', ''id'')] ''/photo'' = ''/pets/{id}/toys/{id}/photo''"
    "template [(''/pets/'', ''petId'')] [] = ''/pets/{petId}''"
    "template [(''/pets/'', ''id''), (''/toys/'', ''id'')] [] = ''/pets/{id}/toys/{id}''"
    by simp_all
  have h: "CHR ''{'' \<notin> set ''/photo''" "CHR ''{'' \<notin> set ''/pets''" "CHR ''{'' \<notin> set []" by simp_all
  have p: "\<forall>(lit, name) \<in> set [(''/pets/'', ''id''), (''/toys/'', ''id'')].
             CHR ''{'' \<notin> set lit \<and> CHR ''}'' \<notin> set name \<and> (\<forall>ch \<in> set name. \<not> line_terminator ch)"
    "\<forall>(lit, name) \<in> set [(''/pets/'', ''petId'')].
             CHR ''{'' \<notin> set lit \<and> CHR ''}'' \<notin> set name \<and> (\<forall>ch \<in> set name. \<not> line_terminator ch)"
    by (simp_all add: line_terminator_def)
  have to: "operations toys_swagger = [(''/pets/{id}/toys/{id}'', ''get'', JObj [])]"
    by (simp add: operations_def toys_swagger_def)
  from path_variables_per_occurrence
    [where tail = "''/photo''" and parts = "[(''/pets/'', ''id''), (''/toys/'', ''id'')]"
       and path = "''/pets''" and fk = demo_faker and sw = pet_swagger and verb = "''get''"
       and details = "JObj []" and g = 0 and item = JNull and g' = 4 and c = pet_collection] h p(1)
  have first: "path_variables ''/pets/{id}/toys/{id}/photo''
       = Inr [JObj [(''key'', JStr ''id''), (''value'', JStr []), (''description'', JStr [])],
              JObj [(''key'', JStr ''id''), (''value'', JStr []), (''description'', JStr [])]]"
    "path_variables ''/pets'' = Inr []"
    unfolding t by simp_all
  from path_variables_per_occurrence
    [where fk = demo_faker and sw = pet_swagger and g = 0 and g' = 4 and c = pet_collection]
    pet_collection_created pet_operations
  have "list_all2
        (\<lambda>(path, verb, details) item.
           (\<forall>parts tail.
              path = template parts tail \<and> CHR ''{'' \<notin> set tail
                \<and> (\<forall>(lit, name) \<in> set parts.
                      CHR ''{'' \<notin> set lit \<and> CHR ''}'' \<notin> set name
                      \<and> (\<forall>ch \<in> set name. \<not> line_terminator ch)) \<longrightarrow>
              field (field (field item ''request'') ''url'') ''variable''
                = JArr (map (\<lambda>(lit, name).
                          JObj [(''key'', JStr name), (''value'', JStr []), (''description'', JStr [])])
                        parts))
           \<and> (CHR ''{'' \<notin> set path \<longrightarrow>
                field (field (field item ''request'') ''url'') ''variable'' = JArr []))
        [(''/pets/{petId}'', ''get'', list_pets), (''/pets'', ''post'', add_pet)]
        (items_of pet_collection)"
    by simp
  then obtain item1 item2 where its: "items_of pet_collection = [item1, item2]"
    and i1: "\<forall>parts tail.
              ''/pets/{petId}'' = template parts tail \<and> CHR ''{'' \<notin> set tail
                \<and> (\<forall>(lit, name) \<in> set parts.
                      CHR ''{'' \<notin> set lit \<and> CHR ''}'' \<notin> set name
                      \<and> (\<forall>ch \<in> set name. \<not> line_terminator ch)) \<longrightarrow>
              field (field (field item1 ''request'') ''url'') ''variable''
                = JArr (map (\<lambda>(lit, name).
                          JObj [(''key'', JStr name), (''value'', JStr []), (''description'', JStr [])])
                        parts)"
    and i2: "CHR ''{'' \<notin> set ''/pets'' \<longrightarrow>
                field (field (field item2 ''request'') ''url'') ''variable'' = JArr []"
    by (auto simp: list_all2_Cons1)
  from i1 [rule_format, of "[(''/pets/'', ''petId'')]" "[]"] t(2) h(3) p(2)
  have v1: "field (field (field item1 ''request'') ''url'') ''variable''
             = JArr [JObj [(''key'', JStr ''petId''), (''value'', JStr []), (''description'', JStr [])]]"
    by simp
  from i2 h(2) have v2: "field (field (field item2 ''request'') ''url'') ''variable'' = JArr []"
    by simp
  from its v1 v2 have second: "\<exists>item1 item2. items_of pet_collection = [item1, item2]
         \<and> field (field (field item1 ''request'') ''url'') ''variable''
             = JArr [JObj [(''key'', JStr ''petId''), (''value'', JStr []), (''description'', JStr [])]]
         \<and> field (field (field item2 ''request'') ''url'') ''variable'' = JArr []"
    by blast
  from toys_collection_created obtain c where c: "createCollection demo_faker toys_swagger 0 = Inr (c, 0)"
    by blast
  from path_variables_per_occurrence
    [where fk = demo_faker and sw = toys_swagger and g = 0 and g' = 0 and c = c] c to
  have "list_all2
        (\<lambda>(path, verb, details) item.
           (\<forall>parts tail.
              path = template parts tail \<and> CHR ''{'' \<notin> set tail
                \<and> (\<forall>(lit, name) \<in> set parts.
                      CHR ''{'' \<notin> set lit \<and> CHR ''}'' \<notin> set name
                      \<and> (\<forall>ch \<in> set name. \<not> line_terminator ch)) \<longrightarrow>
              field (field (field item ''request'') ''url'') ''variable''
                = JArr (map (\<lambda>(lit, name).
                          JObj [(''key'', JStr name), (''value'', JStr []), (''description'', JStr [])])
                        parts))
           \<and> (CHR ''{'' \<notin> set path \<longrightarrow>
                field (field (field item ''request'') ''url'') ''variable'' = JArr []))
        [(''/pets/{id}/toys/{id}'', ''get'', JObj [])]
        (items_of c)"
    by simp
  then obtain item where it: "items_of c = [item]"
    and i3: "\<forall>parts tail.
              ''/pets/{id}/toys/{id}'' = template parts tail \<and> CHR ''{'' \<notin> set tail
                \<and> (\<forall>(lit, name) \<in> set parts.
                      CHR ''{'' \<notin> set lit \<and> CHR ''}'' \<notin> set name
                      \<and> (\<forall>ch \<in> set name. \<not> line_terminator ch)) \<longrightarrow>
              field (field (field item ''request'') ''url'') ''variable''
                = JArr (map (\<lambda>(lit, name).
                          JObj [(''key'', JStr name), (''value'', JStr []), (''description'', JStr [])])
                        parts)"
    by (auto simp: list_all2_Cons1)
  from i3 [rule_format, of "[(''/pets/'', ''id''), (''/toys/'', ''id'')]" "[]"] t(3) h(3) p(1)
  have v3: "field (field (field item ''request'') ''url'') ''variable''
             = JArr [JObj [(''key'', JStr ''id''), (''value'', JStr []), (''description'', JStr [])],
                     JObj [(''key'', JStr ''id''), (''value'', JStr []), (''description'', JStr [])]]"
    by simp
  with c it have third: "\<exists>c item. createCollection demo_faker toys_swagger 0 = Inr (c, 0) \<and> items_of c = [item]
         \<and> field (field (field item ''request'') ''url'') ''variable''
             = JArr [JObj [(''key'', JStr ''id''), (''value'', JStr []), (''description'', JStr [])],
                     JObj [(''key'', JStr ''id''), (''value'', JStr []), (''description'', JStr [])]]"
    by blast
  from list_pets_item obtain item0 where
    it: "request_item demo_faker pet_swagger ''/pets/{petId}'' ''get'' list_pets 0 = Inr (item0, 2)"
    by blast
  from path_variables_per_occurrence
    [where fk = demo_faker and sw = pet_swagger and path = "''/pets/{petId}''" and verb = "''get''"
       and details = list_pets and g = 0 and item = item0 and g' = 2,
     THEN conjunct2, THEN conjunct2, THEN conjunct2] it
  have fourth: "\<exists>item. request_item demo_faker pet_swagger ''/pets/{petId}'' ''get'' list_pets 0 = Inr (item, 2)
         \<and> path_variables ''/pets/{petId}''
             = Inr (case field (field (field item ''request'') ''url'') ''variable'' of
                      JArr vs \<Rightarrow> vs | _ \<Rightarrow> [])"
    by blast
  from first second third fourth t h pet_collection_created pet_operations to show ?thesis by simp
qed

theorem path_variables_duplicate_counterexample:
  "path_variables ''/pets/{id}/toys/{id}''
     = Inr [JObj [(''key'', JStr ''id''), (''value'', JStr []), (''description'', JStr [])],
            JObj [(''key'', JStr ''id''), (''value'', JStr []), (''description'', JStr [])]]
   \<and> (\<exists>c. createCollection demo_faker toys_swagger 0 = Inr (c, 0)
         \<and> map (\<lambda>item. field (field (field item ''request'') ''url'') ''variable'') (items_of c)
             = [JArr [JObj [(''key'', JStr ''id''), (''value'', JStr []), (''description'', JStr [])],
                      JObj [(''key'', JStr ''id''), (''value'', JStr []), (''description'', JStr [])]]])"
proof -
  have v: "path_variables ''/pets/{id}/toys/{id}''
     = Inr [JObj [(''key'', JStr ''id''), (''value'', JStr []), (''description'', JStr [])],
            JObj [(''key'', JStr ''id''), (''value'', JStr []), (''description'', JStr [])]]"
    by (simp add: path_variables_def path_variable_def slice_inner_def line_terminator_def)
  show ?thesis
    by (simp add: v createCollection_def toys_swagger_def request_item_def request_body_def
        bodySchemaRef_def queryParams_def items_of_def field_JObj)
qed

subsection \<open>Claim C7\<close>

text \<open>
  Claim C7. For every server URL the parser accepts, with host \<open>h\<close>,
  \<open>createEnvironment\<close> returns the environment document named \<open>h\<close> whose one variable
  is \<^verbatim>\<open>base_url\<close>, holding the URL, enabled. The result is a function of the URL (and
  of what the parser makes of it). For \<^verbatim>\<open>https://api.example.com\<close>, whose host is
  \<^verbatim>\<open>api.example.com\<close>, it is the document of the claim.
\<close>

theorem createEnvironment_document:
  "(url_host serverUrl = Some h \<longrightarrow>
      createEnvironment url_host serverUrl
        = Inr (JObj [(''environment'',
                 JObj [(''name'', JStr h),
                       (''values'',
                          JArr [JObj [(''key'', JStr ''base_url''),
                                      (''value'', JStr serverUrl),
                                      (''enabled'', JBool True)]])])]))
   \<and> (url_host ''https://api.example.com'' = Some ''api.example.com'' \<longrightarrow>
        createEnvironment url_host ''https://api.example.com''
          = Inr (JObj [(''environment'',
                   JObj [(''name'', JStr ''api.example.com''),
                         (''values'',
                            JArr [JObj [(''key'', JStr ''base_url''),
                                        (''value'', JStr ''https://api.example.com''),
                                        (''enabled'', JBool True)]])])]))"
  by (simp add: createEnvironment_def)

theorem createEnvironment_document_witness:
  "example_host ''https://api.example.com'' = Some ''api.example.com''
   \<and> createEnvironment example_host ''https://api.example.com''
       = Inr (JObj [(''environment'',
                JObj [(''name'', JStr ''api.example.com''),
                      (''values'',
                         JArr [JObj [(''key'', JStr ''base_url''),
                                     (''value'', JStr ''https://api.example.com''),
                                     (''enabled'', JBool True)]])])])"
proof -
  have h: "example_host ''https://api.example.com'' = Some ''api.example.com''"
    by (simp add: example_host_def)
  from createEnvironment_document
    [where url_host = example_host and serverUrl = "''https://api.example.com''"
       and h = "''api.example.com''"] h
  show ?thesis by blast
qed

subsection \<open>Claim C8\<close>

text \<open>
  Claim C8, as amended. Where the write succeeds, \<open>saveToFile\<close> stores a text that
  \<open>JSON_parse\<close> reads back. For an environment document the value read is the
  document. For a collection document, made from a Spec whose values have distinct keys,
  the value read is the document without its properties of value \<^verbatim>\<open>undefined\<close>; it is
  the document itself exactly when the document holds no \<^verbatim>\<open>undefined\<close>.
\<close>

theorem saveToFile_roundtrip:
  "(createEnvironment url_host serverUrl = Inr d \<and> write_failure w filename = None \<longrightarrow>
      (\<exists>text. saveToFile filename d w = (None, w\<lparr> written := written w @ [(filename, text)] \<rparr>)
         \<and> JSON_parse text = Some d))
   \<and> (createCollection fk sw g = Inr (c, g') \<and> distinct_keys_swagger sw
        \<and> write_failure w filename = None \<longrightarrow>
      (\<exists>text. saveToFile filename c w = (None, w\<lparr> written := written w @ [(filename, text)] \<rparr>)
         \<and> JSON_parse text = Some (without_undefined c)
         \<and> (without_undefined c = c) = no_undefined c))"
proof (intro conjI impI)
  assume a: "createEnvironment url_host serverUrl = Inr d \<and> write_failure w filename = None"
  then obtain h where d: "d = JObj [(''environment'',
                 JObj [(''name'', JStr h),
                       (''values'',
                          JArr [JObj [(''key'', JStr ''base_url''),
                                      (''value'', JStr serverUrl),
                                      (''enabled'', JBool True)]])])]"
    by (auto simp: createEnvironment_def split: option.splits)
  have "distinct_keys d" "d \<noteq> JUndefined" "without_undefined d = d"
    by (simp_all add: d)
  with a saveToFile_text [of d w filename]
  show "\<exists>text. saveToFile filename d w = (None, w\<lparr> written := written w @ [(filename, text)] \<rparr>)
         \<and> JSON_parse text = Some d"
    by simp
next
  assume a: "createCollection fk sw g = Inr (c, g') \<and> distinct_keys_swagger sw
        \<and> write_failure w filename = None"
  then have "distinct_keys c" "c \<noteq> JUndefined"
    using createCollection_distinct [of fk sw g c g'] by simp_all
  with a saveToFile_text [of c w filename] without_undefined_changes [of c]
  show "\<exists>text. saveToFile filename c w = (None, w\<lparr> written := written w @ [(filename, text)] \<rparr>)
         \<and> JSON_parse text = Some (without_undefined c)
         \<and> (without_undefined c = c) = no_undefined c"
    by simp
qed

theorem saveToFile_roundtrip_witness:
  "createEnvironment example_host ''https://api.example.com'' \<noteq> Inl TypeError
   \<and> createCollection demo_faker small_swagger 0 = Inr (small_collection, 0)
   \<and> distinct_keys_swagger small_swagger
   \<and> (\<exists>text. saveToFile ''collection_generated.json'' small_collection (writable_world small_swagger)
                = (None, (writable_world small_swagger)
                     \<lparr> written := [(''collection_generated.json'', text)] \<rparr>)
         \<and> JSON_parse text = Some (without_undefined small_collection))
   \<and> (\<exists>d text. createEnvironment example_host ''https://api.example.com'' = Inr d
         \<and> saveToFile ''environment_api.example.com.json'' d (writable_world small_swagger)
             = (None, (writable_world small_swagger)
                  \<lparr> written := [(''environment_api.example.com.json'', text)] \<rparr>)
         \<and> JSON_parse text = Some d)"
proof -
  obtain d where e: "createEnvironment example_host ''https://api.example.com'' = Inr d"
    by (simp add: createEnvironment_def example_host_def)
  have s: "distinct_keys_swagger small_swagger"
    by (simp add: distinct_keys_swagger_def small_swagger_def)
  have w: "write_failure (writable_world small_swagger) f = None"
    "written (writable_world small_swagger) = []" for f
    by (simp_all add: writable_world_def)
  note T1 = saveToFile_roundtrip
    [where url_host = example_host and serverUrl = "''https://api.example.com''" and d = d
       and w = "writable_world small_swagger" and filename = "''environment_api.example.com.json''"
       and fk = demo_faker and sw = small_swagger and g = 0 and c = small_collection and g' = 0]
  note T2 = saveToFile_roundtrip
    [where url_host = example_host and serverUrl = "''https://api.example.com''" and d = d
       and w = "writable_world small_swagger" and filename = "''collection_generated.json''"
       and fk = demo_faker and sw = small_swagger and g = 0 and c = small_collection and g' = 0]
  from T1 e w obtain t1 where
    "saveToFile ''environment_api.example.com.json'' d (writable_world small_swagger)
             = (None, (writable_world small_swagger)
                  \<lparr> written := [(''environment_api.example.com.json'', t1)] \<rparr>)"
    "JSON_parse t1 = Some d"
    by auto
  moreover from T2 small_collection_created s w obtain t2 where
    "saveToFile ''collection_generated.json'' small_collection (writable_world small_swagger)
                = (None, (writable_world small_swagger)
                     \<lparr> written := [(''collection_generated.json'', t2)] \<rparr>)"
    "JSON_parse t2 = Some (without_undefined small_collection)"
    by auto
  ultimately show ?thesis
    using e s small_collection_created by auto
qed

theorem saveToFile_roundtrip_counterexample:
  "createCollection demo_faker small_swagger 0 = Inr (small_collection, 0)
   \<and> JSON_stringify ''  '' small_collection = JStr (ser ''  '' [] small_collection)
   \<and> JSON_parse (ser ''  '' [] small_collection) \<noteq> Some small_collection"
proof -
  have "blank ''  ''" by (simp add: is_ws_def)
  moreover have "distinct_keys small_collection" by (simp add: small_collection_def)
  ultimately have "JSON_parse (ser ''  '' [] small_collection) = Some (without_undefined small_collection)"
    by (rule JSON_parse_ser)
  moreover have "without_undefined small_collection \<noteq> small_collection"
    by (simp add: small_collection_def)
  moreover have "small_collection \<noteq> JUndefined" by (simp add: small_collection_def)
  ultimately show ?thesis
    using small_collection_created by (simp add: JSON_stringify_def)
qed

subsection \<open>Claim C9\<close>

text \<open>
  Claim C9. The claim fails on the code: \<open>main\<close> does not await \<open>saveToFile\<close>.
  Whether \<open>main\<close> ends with an error, and what its handler prints on the error channel,
  is the same whichever writes fail. In a directory where every write fails, a run over
  a Spec with one server and one operation
  ends without an error of \<open>main\<close>: nothing is printed on the error channel by the
  handler of \<open>main\<close>, the two write errors end as rejections nobody handles, no file is
  written, and the last line printed is the message of success. An error of
  \<open>createCollection\<close> does reach the handler (last conjunct).
\<close>

theorem main_write_failure_unreported:
  "fst (main url_host fk (w\<lparr> write_failure := f \<rparr>)) = fst (main url_host fk w)
   \<and> console_err (run url_host fk (w\<lparr> write_failure := f \<rparr>)) = console_err (run url_host fk w)
   \<and> fst (main example_host demo_faker (readonly_world small_swagger)) = None
   \<and> console_err (run example_host demo_faker (readonly_world small_swagger)) = []
   \<and> rejected (run example_host demo_faker (readonly_world small_swagger))
       = [IOError ''EACCES'', IOError ''EACCES'']
   \<and> written (run example_host demo_faker (readonly_world small_swagger)) = []
   \<and> last (console_out (run example_host demo_faker (readonly_world small_swagger)))
       = Line ''Environments and Collection created/updated successfully.''
   \<and> console_err (run example_host demo_faker (readonly_world ghost_swagger)) = [TypeError]"
proof -
  have c: "\<exists>c. createCollection demo_faker small_swagger 0 = Inr (JObj c, 0)"
    by (simp add: createCollection_def small_swagger_def request_item_def request_body_def
        bodySchemaRef_def queryParams_def path_variables_def)
  have g: "createCollection demo_faker ghost_swagger 0 = Inl TypeError"
    using createCollection_first_failure
      [of ghost_swagger "[]" "''/pets''" "[(''get'', JObj [])]" "''post''" ghost_details "[]" "[]"
          demo_faker 0 "[]" 0 _ 0 TypeError]
    by (simp add: ghost_swagger_def request_item_def request_body_def
        bodySchemaRef_def queryParams_def path_variables_def ghost_details_def field_JObj
        lookup_schema_def generateFakeData.simps pop_key_def)
  have e: "createEnvironment example_host ''https://api.example.com'' = Inr (JObj
     [(''environment'', JObj [(''name'', JStr ''api.example.com''),
        (''values'', JArr [JObj [(''key'', JStr ''base_url''),
           (''value'', JStr ''https://api.example.com''), (''enabled'', JBool True)]])])])"
    by (simp add: createEnvironment_def example_host_def)
  have s: "servers small_swagger = [\<lparr> url = ''https://api.example.com'' \<rparr>]"
    "servers ghost_swagger = [\<lparr> url = ''https://api.example.com'' \<rparr>]"
    by (simp_all add: small_swagger_def ghost_swagger_def)
  have h: "example_host ''https://api.example.com'' = Some ''api.example.com''"
    by (simp add: example_host_def)
  from c obtain col where col: "createCollection demo_faker small_swagger 0 = Inr (JObj col, 0)"
    by blast
  have m1: "main example_host demo_faker (readonly_world small_swagger)
     = (None, (readonly_world small_swagger)
         \<lparr> console_out := [Inspected (JObj
     [(''environment'', JObj [(''name'', JStr ''api.example.com''),
        (''values'', JArr [JObj [(''key'', JStr ''base_url''),
           (''value'', JStr ''https://api.example.com''), (''enabled'', JBool True)]])])]),
              Inspected (JObj col),
              Line ''Environments and Collection created/updated successfully.''],
           rejected := [IOError ''EACCES'', IOError ''EACCES''] \<rparr>)"
    by (simp add: main_def fetchSwagger_def readonly_world_def s e h col saveToFile_def not_awaited_def
        console_log_def JSON_stringify_def Let_def)
  have m2: "fst (main example_host demo_faker (readonly_world ghost_swagger)) = Some TypeError"
    "console_err (snd (main example_host demo_faker (readonly_world ghost_swagger))) = []"
    by (simp_all add: main_def fetchSwagger_def readonly_world_def s e h g saveToFile_def not_awaited_def
        console_log_def JSON_stringify_def Let_def)
  obtain w' where m3: "main example_host demo_faker (readonly_world ghost_swagger) = (Some TypeError, w')"
    and m4: "console_err w' = []"
    using m2 by (cases "main example_host demo_faker (readonly_world ghost_swagger)") auto
  have r2: "console_err (run example_host demo_faker (readonly_world ghost_swagger)) = [TypeError]"
    by (simp add: run_def m3 m4)
  have rw: "console_err (readonly_world small_swagger) = []"
    "written (readonly_world small_swagger) = []"
    by (simp_all add: readonly_world_def)
  show ?thesis
    using r2 run_ignores_write_failures [where url_host = url_host and fk = fk and w = w and f = f]
    by (simp add: m1 rw run_def [of example_host])
qed

subsection \<open>Claim C10\<close>

text \<open>
  Claim C10. On a node without \<^verbatim>\<open>properties\<close> (\<^verbatim>\<open>undefined\<close>, \<^verbatim>\<open>null\<close>, a value that is
  no object, an object lacking the field) \<open>generateFakeData\<close> fails with a
  \<open>TypeError\<close>. An operation whose reference names no schema of
  \<^verbatim>\<open>components.schemas\<close> makes its item fail with a \<open>TypeError\<close>; then
  \<open>createCollection\<close> fails, and with that \<open>TypeError\<close> when the operations before it
  succeed. A property of type \<^verbatim>\<open>object\<close> without \<^verbatim>\<open>properties\<close> makes
  \<open>generateFakeData\<close> fail, and with a \<open>TypeError\<close> when the properties before it
  succeed.
\<close>

theorem missing_properties_type_error:
  "(lacks_properties node \<longrightarrow> generateFakeData fk node g = Inl TypeError)
   \<and> (bodySchemaRef details = Inr (JStr r) \<and> r \<noteq> []
        \<and> map_of (schemas (components sw)) (last (split_on CHR ''/'' r)) = None \<longrightarrow>
        request_item fk sw path verb details g = Inl TypeError
        \<and> ((path, ms) \<in> set (paths sw) \<and> (verb, details) \<in> set ms \<longrightarrow>
             (\<exists>e. createCollection fk sw g0 = Inl e))
        \<and> (paths sw = ps1 @ (path, ms1 @ (verb, details) # ms2) # ps2
             \<and> flatMap_paths fk sw ps1 g0 = Inr (its1, g1)
             \<and> map_methods fk sw path ms1 g1 = Inr (its2, g) \<longrightarrow>
             createCollection fk sw g0 = Inl TypeError))
   \<and> (get_prop schema ''properties'' = Inr props \<and> field val ''type'' = JStr ''object''
        \<and> lacks_properties val \<longrightarrow>
        (entries props = Inr kvs \<and> (key, val) \<in> set kvs \<longrightarrow>
           (\<exists>e. generateFakeData fk schema g = Inl e))
        \<and> (entries props = Inr (pre @ (key, val) # post) \<and> fake_props fk pre [] g = Inr (d, g') \<longrightarrow>
             generateFakeData fk schema g = Inl TypeError))"
proof (intro conjI impI)
  assume "lacks_properties node"
  then show "generateFakeData fk node g = Inl TypeError" by (rule lacks_properties_fails)
next
  assume a: "bodySchemaRef details = Inr (JStr r) \<and> r \<noteq> []
    \<and> map_of (schemas (components sw)) (last (split_on CHR ''/'' r)) = None"
  then have item: "request_item fk sw path verb details g = Inl TypeError" for g :: 'a
    by (simp add: request_item_def request_body_absent)
  show "request_item fk sw path verb details g = Inl TypeError" by (rule item)
  {
    assume "(path, ms) \<in> set (paths sw) \<and> (verb, details) \<in> set ms"
    then show "\<exists>e. createCollection fk sw g0 = Inl e"
      using flatMap_paths_fails [of path ms "paths sw" verb details fk sw TypeError g0] item
      by (auto simp: createCollection_def)
  }
  {
    assume "paths sw = ps1 @ (path, ms1 @ (verb, details) # ms2) # ps2
             \<and> flatMap_paths fk sw ps1 g0 = Inr (its1, g1)
             \<and> map_methods fk sw path ms1 g1 = Inr (its2, g)"
    then show "createCollection fk sw g0 = Inl TypeError"
      using createCollection_first_failure [of sw ps1 path ms1 verb details ms2 ps2 fk g0 its1 g1 its2 g]
        item by simp
  }
next
  assume a: "get_prop schema ''properties'' = Inr props \<and> field val ''type'' = JStr ''object''
        \<and> lacks_properties val"
  {
    assume "entries props = Inr kvs \<and> (key, val) \<in> set kvs"
    then show "\<exists>e. generateFakeData fk schema g = Inl e"
      using a fake_props_object_fails [of key val kvs fk "[]" g]
      by (auto simp: generateFakeData.simps)
  }
  {
    assume "entries props = Inr (pre @ (key, val) # post) \<and> fake_props fk pre [] g = Inr (d, g')"
    moreover have "generateFakeData fk val g' = Inl TypeError"
      using a by (simp add: lacks_properties_fails)
    ultimately show "generateFakeData fk schema g = Inl TypeError"
      using a field_type_hasTypeProperty [of val "CHR ''o''" "''bject''"]
      by (simp add: generateFakeData.simps [of fk schema] fake_props_append)
  }
qed

theorem missing_properties_type_error_witness:
  "lacks_properties JUndefined
   \<and> generateFakeData demo_faker JUndefined 0 = Inl TypeError
   \<and> bodySchemaRef ghost_details = Inr (JStr ''#/components/schemas/Ghost'')
   \<and> map_of (schemas (components ghost_swagger)) (last (split_on CHR ''/'' ''#/components/schemas/Ghost'')) = None
   \<and> request_item demo_faker ghost_swagger ''/pets'' ''post'' ghost_details 0 = Inl TypeError
   \<and> createCollection demo_faker ghost_swagger 0 = Inl TypeError
   \<and> lacks_properties (JObj [(''type'', JStr ''object'')])
   \<and> generateFakeData demo_faker object_schema 0 = Inl TypeError"
proof -
  have a: "lacks_properties JUndefined" "lacks_properties (JObj [(''type'', JStr ''object'')])"
    by (simp_all add: lacks_properties_def)
  have b: "bodySchemaRef ghost_details = Inr (JStr ''#/components/schemas/Ghost'')"
    by (simp add: bodySchemaRef_def ghost_details_def field_def)
  have c: "map_of (schemas (components ghost_swagger))
             (last (split_on CHR ''/'' ''#/components/schemas/Ghost'')) = None"
    by (simp add: ghost_swagger_def)
  obtain its where m: "map_methods demo_faker ghost_swagger ''/pets'' [(''get'', JObj [])] 0 = Inr (its, 0)"
    by (simp add: request_item_def request_body_def bodySchemaRef_def queryParams_def
        path_variables_def)
  have p: "paths ghost_swagger = [] @ (''/pets'', [(''get'', JObj [])] @ (''post'', ghost_details) # []) # []"
    by (simp add: ghost_swagger_def)
  have f: "flatMap_paths demo_faker ghost_swagger [] 0 = Inr ([], 0)" by simp
  have s: "get_prop object_schema ''properties''
             = Inr (JObj [(''id'', JObj [(''type'', JStr ''integer'')]),
                          (''owner'', JObj [(''type'', JStr ''object'')])])"
    "field (JObj [(''type'', JStr ''object'')]) ''type'' = JStr ''object''"
    "entries (JObj [(''id'', JObj [(''type'', JStr ''integer'')]),
                    (''owner'', JObj [(''type'', JStr ''object'')])])
       = Inr ([(''id'', JObj [(''type'', JStr ''integer'')])]
                @ (''owner'', JObj [(''type'', JStr ''object'')]) # [])"
    "fake_props demo_faker [(''id'', JObj [(''type'', JStr ''integer'')])] [] 0 = Inr ([(''id'', JNum 0)], 1)"
    by (simp_all add: object_schema_def field_def hasTypeProperty_def demo_faker_def obj_assign_def)
  note T = missing_properties_type_error
    [where node = JUndefined and fk = demo_faker and g = 0 and details = ghost_details
       and r = "''#/components/schemas/Ghost''" and sw = ghost_swagger and path = "''/pets''"
       and verb = "''post''" and ?g0.0 = 0 and ?ps1.0 = "[]" and ?ms1.0 = "[(''get'', JObj [])]"
       and ?ms2.0 = "[]" and ?ps2.0 = "[]" and ?its1.0 = "[]" and ?g1.0 = 0 and ?its2.0 = its
       and schema = object_schema and val = "JObj [(''type'', JStr ''object'')]"
       and key = "''owner''" and pre = "[(''id'', JObj [(''type'', JStr ''integer'')])]"
       and post = "[]" and d = "[(''id'', JNum 0)]" and g' = 1
       and props = "JObj [(''id'', JObj [(''type'', JStr ''integer'')]),
                          (''owner'', JObj [(''type'', JStr ''object'')])]"]
  show ?thesis
    using T a b c m p f s by simp
qed

section \<open>Further facts\<close>

text \<open>
  Three inputs on which the program throws a \<open>TypeError\<close>: a path with an opening
  brace and no closing one (the match is \<^verbatim>\<open>null\<close>), an array whose \<^verbatim>\<open>items\<close> schema
  has no \<^verbatim>\<open>properties\<close>, and a query parameter without \<^verbatim>\<open>schema\<close>.
\<close>

lemma path_variables_unclosed: "path_variables ''/pets/{id'' = Inl TypeError"
  by (simp add: path_variables_def)

lemma items_without_properties:
  "generateFakeData fk
     (JObj [(''properties'',
        JObj [(''photoUrls'',
          JObj [(''type'', JStr ''array''), (''items'', JObj [(''type'', JStr ''string'')])])])]) g
   = Inl TypeError"
  by (simp add: generateFakeData.simps hasTypeProperty_def field_JObj)

lemma query_parameter_without_schema:
  "queryParams fk
     (JObj [(''parameters'',
        JArr [JObj [(''name'', JStr ''limit''), (''in'', JStr ''query''),
                    (''type'', JStr ''integer'')]])]) g
   = Inl TypeError"
  by (simp add: queryParams_def query_entry_def field_JObj)

text \<open>
  Upper case beyond the ASCII letters: \<^verbatim>\<open>caf\<close> followed by U+00E9 becomes \<^verbatim>\<open>CAF\<close>
  followed by U+00C9, the sharp s becomes \<^verbatim>\<open>SS\<close>, and the division sign stays.
\<close>

lemma toUpperCase_latin:
  "toUpperCase (''caf'' @ [CHR 0xE9]) = ''CAF'' @ [CHR 0xC9]"
  "toUpperCase [CHR 0xDF] = ''SS''"
  "toUpperCase [CHR 0xF7] = [CHR 0xF7]"
  by code_simp+

end
